(* ===== verification/Prelude.thy ===== *)
theory Prelude
  imports Main "HOL-Library.Word" "HOL-Library.Sublist"
begin

unbundle bit_operations_syntax

text \<open>
  Shared vocabulary of the development: the C integer types as words, byte buffers as lists,
  C strings as character lists without the terminating NUL, and the lemmas on lists and words
  that several components use.
\<close>

section \<open>Types\<close>

type_synonym u8 = "8 word"
type_synonym u16 = "16 word"
type_synonym u32 = "32 word"
type_synonym u64 = "64 word"
type_synonym bytes = "8 word list"

named_theorems len_simps \<open>lengths of the byte buffers the operations return\<close>
named_theorems inv_rules \<open>an operation undoes another\<close>

section \<open>Lists\<close>

lemma length_16_conv:
  assumes "length (s :: 'a list) = 16"
  shows "s = [s!0, s!1, s!2, s!3, s!4, s!5, s!6, s!7, s!8, s!9, s!10, s!11, s!12, s!13, s!14, s!15]"
  using assms by (auto simp: list_eq_iff_nth_eq less_Suc_eq numeral_eq_Suc)

lemma list16_cases:
  assumes "length (s :: 'a list) = 16"
  obtains a0 a1 a2 a3 a4 a5 a6 a7 a8 a9 a10 a11 a12 a13 a14 a15
  where "s = [a0, a1, a2, a3, a4, a5, a6, a7, a8, a9, a10, a11, a12, a13, a14, a15]"
  using length_16_conv [OF assms] by blast

section \<open>Counting loops\<close>

text \<open>\<open>for_range m n body s\<close> is \<^verbatim>\<open>for (i = m; i < n; i++) body\<close> on the state \<open>s\<close>,
  \<open>for_down m n body s\<close> is \<^verbatim>\<open>for (i = n - 1; i >= m; i--) body\<close>.\<close>

definition for_range :: "nat \<Rightarrow> nat \<Rightarrow> (nat \<Rightarrow> 's \<Rightarrow> 's) \<Rightarrow> 's \<Rightarrow> 's" where
  "for_range m n body s = fold body [m..<n] s"

definition for_down :: "nat \<Rightarrow> nat \<Rightarrow> (nat \<Rightarrow> 's \<Rightarrow> 's) \<Rightarrow> 's \<Rightarrow> 's" where
  "for_down m n body s = fold body (rev [m..<n]) s"

lemma for_range_code [code]:
  "for_range m n body s = (if m < n then for_range (Suc m) n body (body m s) else s)"
  by (simp add: for_range_def upt_conv_Cons)

lemma for_down_code [code]:
  "for_down m n body s = (if m < n then for_down m (n - 1) body (body (n - 1) s) else s)"
  by (cases n) (auto simp: for_down_def)

lemma for_range_last: "m \<le> n \<Longrightarrow> for_range m (Suc n) body s = body n (for_range m n body s)"
  by (simp add: for_range_def)

lemma for_range_append:
  assumes "m \<le> p" "p \<le> n"
  shows "for_range m n body s = for_range p n body (for_range m p body s)"
proof -
  have "[m..<n] = [m..<p] @ [p..<n]"
    using assms by (metis le_Suc_ex upt_add_eq_append)
  then show ?thesis
    by (simp add: for_range_def)
qed

lemma for_range_empty [simp]: "n \<le> m \<Longrightarrow> for_range m n body s = s"
  by (simp add: for_range_def)

lemma for_range_invariant:
  assumes "P m s" "m \<le> n" "\<And>i s. m \<le> i \<Longrightarrow> i < n \<Longrightarrow> P i s \<Longrightarrow> P (Suc i) (body i s)"
  shows "P n (for_range m n body s)"
  using assms(2,1,3) by (induction n rule: dec_induct) (auto simp: for_range_last)

section \<open>Block counts\<close>

text \<open>A buffer of whole blocks, as the block loops of the code walk it.\<close>

definition blocks_of :: "nat \<Rightarrow> nat" where
  "blocks_of len = (len + 15) div 16"

lemma blocks_of_mult [simp]: "blocks_of (16 * n) = n"
  by (simp add: blocks_of_def)

lemma blocks_of_bound: "len \<le> 16 * blocks_of len \<and> 16 * blocks_of len < len + 16"
  unfolding blocks_of_def by presburger

lemma blocks_of_0 [simp]: "blocks_of 0 = 0"
  by (simp add: blocks_of_def)

lemma blocks_of_Suc: "blocks_of (Suc p) = Suc (p div 16)"
  by (simp add: blocks_of_def)

lemma blocks_of_aligned: "p mod 16 = 0 \<Longrightarrow> blocks_of p = p div 16"
  by (auto simp: blocks_of_def)

lemma blocks_of_unaligned:
  assumes "p mod 16 \<noteq> 0"
  shows "blocks_of p = Suc (p div 16)"
proof -
  have "p = Suc (p - 1)" "(p - 1) div 16 = p div 16"
    using assms by (cases p; simp add: mod_Suc div_Suc split: if_splits)+
  then show ?thesis
    using blocks_of_Suc [of "p - 1"] by simp
qed

section \<open>Exclusive or of byte buffers\<close>

text \<open>Evaluation keeps a word operation as it is until its value is asked for, so an iterated
  computation piles them up; \<open>norm_word\<close> is the identity that asks for the value, and the code
  equations of the iterated operations apply it.\<close>

definition norm_word :: "'a :: len word \<Rightarrow> 'a word" where
  "norm_word w = word_of_int (uint w)"

lemma norm_word_id [simp]: "norm_word w = w"
  by (simp add: norm_word_def)

definition xor_bytes :: "bytes \<Rightarrow> bytes \<Rightarrow> bytes" where
  "xor_bytes xs ys = map2 (XOR) xs ys"

lemma xor_bytes_code [code]: "xor_bytes xs ys = map2 (\<lambda>x y. norm_word (x XOR y)) xs ys"
  by (simp add: xor_bytes_def)

lemma length_xor_bytes [simp, len_simps]: "length (xor_bytes xs ys) = min (length xs) (length ys)"
  by (simp add: xor_bytes_def)

lemma xor_bytes_cancel [simp, inv_rules]:
  "length xs \<le> length ys \<Longrightarrow> xor_bytes (xor_bytes xs ys) ys = xs"
  by (induction xs ys rule: list_induct2') (auto simp: xor_bytes_def xor.assoc)

section \<open>Big-endian numbers\<close>

definition be_val :: "bytes \<Rightarrow> nat" where
  "be_val bs = foldl (\<lambda>a b. 256 * a + unat b) 0 bs"

lemma be_val_snoc [simp]: "be_val (xs @ [x]) = 256 * be_val xs + unat x"
  by (simp add: be_val_def)

lemma be_val_Nil [simp]: "be_val [] = 0"
  by (simp add: be_val_def)

lemma unat_u8_less: "unat (x :: u8) < 256"
  using unsigned_less [of x] by simp

lemma be_val_less: "be_val bs < 256 ^ length bs"
proof (induction bs rule: rev_induct)
  case (snoc x xs)
  then show ?case using unat_u8_less [of x] by simp
qed simp

lemma unat_numeral_u8_255: "unat (255 :: u8) = 255"
  by simp

lemma unat_u8_add_1: "(x :: u8) \<noteq> 255 \<Longrightarrow> unat (x + 1) = unat x + 1"
proof -
  assume "x \<noteq> 255"
  then have "unat x \<noteq> 255"
    by (metis word_unat_eq_iff unat_numeral_u8_255)
  then show ?thesis
    using unat_u8_less [of x] by (simp add: unat_word_ariths)
qed

section \<open>Bits of bytes\<close>

lemma u8_eqI:
  assumes "bit a 0 = bit b 0" "bit a 1 = bit b 1" "bit a 2 = bit b 2" "bit a 3 = bit b 3"
    "bit a 4 = bit b 4" "bit a 5 = bit b 5" "bit a 6 = bit b 6" "bit a 7 = bit b 7"
  shows "a = (b :: u8)"
proof (rule bit_word_eqI)
  fix n assume "n < LENGTH(8)"
  then have "n \<in> {0, 1, 2, 3, 4, 5, 6, 7}" by auto
  then show "bit a n = bit b n" using assms by auto
qed

lemma u8_bit_high: "8 \<le> n \<Longrightarrow> \<not> bit (a :: u8) n"
  by (auto dest: bit_imp_le_length)

section \<open>Encoders and decoders\<close>

text \<open>The contract between a component that writes a message and the one that reads it.\<close>

locale codec =
  fixes encode :: "'a \<Rightarrow> bytes" and decode :: "bytes \<Rightarrow> 'a option" and valid :: "'a \<Rightarrow> bool"
  assumes decode_encode: "valid x \<Longrightarrow> decode (encode x) = Some x"
begin

lemma encode_inj: "\<lbrakk> valid x; valid y; encode x = encode y \<rbrakk> \<Longrightarrow> x = y"
  by (metis decode_encode option.inject)

lemma decode_total: "valid x \<Longrightarrow> \<exists>y. decode (encode x) = Some y \<and> valid y"
  by (simp add: decode_encode)

end

section \<open>Simulation\<close>

text \<open>Steps of a detailed machine, which may go wrong (\<open>None\<close>), and of the machine that specifies it. If
  each step on an input that satisfies \<open>ok\<close> gives the specified output and keeps the relation, so do runs.\<close>

fun run_steps :: "('i \<Rightarrow> 'c \<Rightarrow> ('o \<times> 'c) option) \<Rightarrow> 'i list \<Rightarrow> 'c \<Rightarrow> ('o list \<times> 'c) option" where
  "run_steps step [] c = Some ([], c)"
| "run_steps step (i # is) c =
    (case step i c of None \<Rightarrow> None
     | Some (out, c') \<Rightarrow> (case run_steps step is c' of None \<Rightarrow> None | Some (outs, c'') \<Rightarrow> Some (out # outs, c'')))"

locale simulation =
  fixes step :: "'i \<Rightarrow> 'c \<Rightarrow> ('o \<times> 'c) option"
    and spec :: "'i \<Rightarrow> 'a \<Rightarrow> 'o \<times> 'a"
    and rel :: "'a \<Rightarrow> 'c \<Rightarrow> bool"
    and ok :: "'i \<Rightarrow> bool"
  assumes simulates: "ok i \<Longrightarrow> rel a c \<Longrightarrow> \<exists>c'. step i c = Some (fst (spec i a), c') \<and> rel (snd (spec i a)) c'"
begin

lemma run_simulates:
  assumes "list_all ok is" "rel a c"
  shows "\<exists>outs a' c'. run_steps (\<lambda>i a. Some (spec i a)) is a = Some (outs, a') \<and>
    run_steps step is c = Some (outs, c') \<and> rel a' c'"
  using assms
proof (induction "is" arbitrary: a c)
  case (Cons i "is")
  then obtain c' where c': "step i c = Some (fst (spec i a), c')" "rel (snd (spec i a)) c'"
    using simulates [of i a c] by auto
  with Cons.IH [OF _ c'(2)] Cons.prems(1) show ?case
    by (auto split: prod.splits)
qed simp

end

end
