(* ===== verification/Base64.thy ===== *)
theory Base64
  imports Prelude
begin

text \<open>
  The base64 coder of the radio programmer, from \<^verbatim>\<open>ble-utils/files/base64.c\<close>. Both
  operations return the bytes they write to the destination, or the error code with the value they
  store in \<^verbatim>\<open>*olen\<close>. \<^verbatim>\<open>size_t\<close> is the 32-bit one of the hub's processor.
\<close>

section \<open>Tables\<close>

definition base64_enc_map :: bytes where
  "base64_enc_map = map of_char
    ''ABCDEFGHIJKLMNOPQRSTUVWXYZabcdefghijklmnopqrstuvwxyz0123456789+/''"

definition base64_dec_map :: bytes where
  "base64_dec_map =
    [127, 127, 127, 127, 127, 127, 127, 127, 127, 127,
     127, 127, 127, 127, 127, 127, 127, 127, 127, 127,
     127, 127, 127, 127, 127, 127, 127, 127, 127, 127,
     127, 127, 127, 127, 127, 127, 127, 127, 127, 127,
     127, 127, 127,  62, 127, 127, 127,  63,  52,  53,
      54,  55,  56,  57,  58,  59,  60,  61, 127, 127,
     127,  64, 127, 127, 127,   0,   1,   2,   3,   4,
       5,   6,   7,   8,   9,  10,  11,  12,  13,  14,
      15,  16,  17,  18,  19,  20,  21,  22,  23,  24,
      25, 127, 127, 127, 127, 127, 127,  26,  27,  28,
      29,  30,  31,  32,  33,  34,  35,  36,  37,  38,
      39,  40,  41,  42,  43,  44,  45,  46,  47,  48,
      49,  50,  51, 127, 127, 127, 127, 127]"

definition enc_char :: "u8 \<Rightarrow> u8" where
  "enc_char v = base64_enc_map ! unat (v AND 0x3F)"

definition dec_char :: "u8 \<Rightarrow> u8" where
  "dec_char c = base64_dec_map ! unat c"

abbreviation (input) chr_eq :: u8 where "chr_eq \<equiv> 0x3D"
abbreviation (input) chr_cr :: u8 where "chr_cr \<equiv> 0x0D"
abbreviation (input) chr_lf :: u8 where "chr_lf \<equiv> 0x0A"
abbreviation (input) chr_sp :: u8 where "chr_sp \<equiv> 0x20"

definition BASE64_SIZE_T_MAX :: nat where
  "BASE64_SIZE_T_MAX = 2 ^ 32 - 1"

section \<open>Encoder\<close>

text \<open>The loop over groups of three bytes and the padded last group.\<close>

fun base64_encode_loop :: "bytes \<Rightarrow> bytes" where
  "base64_encode_loop [] = []"
| "base64_encode_loop [C1] =
    [enc_char (drop_bit 2 C1), enc_char (push_bit 4 (C1 AND 3) + drop_bit 4 0), chr_eq, chr_eq]"
| "base64_encode_loop [C1, C2] =
    [enc_char (drop_bit 2 C1), enc_char (push_bit 4 (C1 AND 3) + drop_bit 4 C2),
     enc_char (push_bit 2 (C2 AND 15)), chr_eq]"
| "base64_encode_loop (C1 # C2 # C3 # src) =
    [enc_char (drop_bit 2 C1), enc_char (push_bit 4 (C1 AND 3) + drop_bit 4 C2),
     enc_char (push_bit 2 (C2 AND 15) + drop_bit 6 C3), enc_char C3] @ base64_encode_loop src"

definition b64_groups :: "nat \<Rightarrow> nat" where
  "b64_groups slen = slen div 3 + (if slen mod 3 \<noteq> 0 then 1 else 0)"

datatype b64_error = B64_ENOMEM nat | B64_EINVAL

text \<open>On success the destination holds the characters and a terminating zero, and
  \<^verbatim>\<open>*olen\<close> is the number of characters. \<open>dst\<close> says whether the destination is not NULL.\<close>

definition base64_encode :: "bool \<Rightarrow> nat \<Rightarrow> bytes \<Rightarrow> b64_error + bytes \<times> nat" where
  "base64_encode dst dlen src =
    (let slen = length src in
     if slen = 0 then Inr ([], 0)
     else (let n = b64_groups slen in
       if n > (BASE64_SIZE_T_MAX - 1) div 4 then Inl (B64_ENOMEM BASE64_SIZE_T_MAX)
       else (let n = n * 4 in
         if dlen < n + 1 \<or> \<not> dst then Inl (B64_ENOMEM (n + 1))
         else (let out = base64_encode_loop src in Inr (out @ [0], length out)))))"

section \<open>Decoder\<close>

lemma scan_dropWhile_le: "c # cs = dropWhile P xs \<Longrightarrow> length cs < length xs"
  by (metis length_dropWhile_le length_Cons less_eq_Suc_le)

text \<open>The first pass: it counts the characters in \<open>n\<close> and the padding in \<open>j\<close>, and \<open>None\<close> is
  \<^verbatim>\<open>-EINVAL\<close>.\<close>

function base64_scan :: "bytes \<Rightarrow> nat \<Rightarrow> nat \<Rightarrow> (nat \<times> nat) option" where
  "base64_scan src n j =
    (let rest = dropWhile (\<lambda>c. c = chr_sp) src; x = length src - length rest in
     (case rest of
        [] \<Rightarrow> Some (n, j)
      | c # cs \<Rightarrow>
          if cs \<noteq> [] \<and> c = chr_cr \<and> hd cs = chr_lf then base64_scan cs n j
          else if c = chr_lf then base64_scan cs n j
          else if x \<noteq> 0 then None
          else if c = chr_eq \<and> j + 1 > 2 then None
          else (let j = (if c = chr_eq then j + 1 else j) in
            if c > 127 \<or> dec_char c = 127 then None
            else if dec_char c < 64 \<and> j \<noteq> 0 then None
            else base64_scan cs (n + 1) j)))"
  by pat_completeness auto

termination base64_scan
  by (relation "measure (\<lambda>(src, _, _). length src)") (auto dest: scan_dropWhile_le)

text \<open>The second pass, with the group counter \<open>n\<close>, the accumulator \<open>x\<close> and the number \<open>j\<close> of bytes a
  group still gives.\<close>

fun base64_decode_loop :: "bytes \<Rightarrow> u32 \<Rightarrow> nat \<Rightarrow> u32 \<Rightarrow> bytes" where
  "base64_decode_loop [] j n x = []"
| "base64_decode_loop (c # src) j n x =
    (if c = chr_cr \<or> c = chr_lf \<or> c = chr_sp then base64_decode_loop src j n x
     else (let j = j - (if dec_char c = 64 then 1 else 0);
               x = push_bit 6 x OR ucast (dec_char c AND 0x3F) in
       if n + 1 = 4
       then (if j > 0 then [ucast (drop_bit 16 x)] else []) @
            (if j > 1 then [ucast (drop_bit 8 x)] else []) @
            (if j > 2 then [ucast x] else []) @ base64_decode_loop src j 0 x
       else base64_decode_loop src j (n + 1) x))"

definition base64_decoded_size :: "nat \<Rightarrow> nat \<Rightarrow> nat" where
  "base64_decoded_size n j = (6 * (n div 8)) + ((6 * (n mod 8) + 7) div 8) - j"

definition base64_decode :: "bool \<Rightarrow> nat \<Rightarrow> bytes \<Rightarrow> b64_error + bytes" where
  "base64_decode dst dlen src =
    (case base64_scan src 0 0 of
       None \<Rightarrow> Inl B64_EINVAL
     | Some (n, j) \<Rightarrow>
         if n = 0 then Inr []
         else (let n = base64_decoded_size n j in
           if \<not> dst \<or> dlen < n then Inl (B64_ENOMEM n)
           else Inr (base64_decode_loop src 3 0 0)))"

declare base64_scan.simps [simp del]

lemma base64_enc_map_code [code]:
  "base64_enc_map =
    [65, 66, 67, 68, 69, 70, 71, 72, 73, 74, 75, 76, 77, 78, 79, 80,
     81, 82, 83, 84, 85, 86, 87, 88, 89, 90, 97, 98, 99, 100, 101, 102,
     103, 104, 105, 106, 107, 108, 109, 110, 111, 112, 113, 114, 115, 116, 117, 118,
     119, 120, 121, 122, 48, 49, 50, 51, 52, 53, 54, 55, 56, 57, 43, 47]"
  by (simp add: base64_enc_map_def)

lemma enc_dec_table:
  "list_all (\<lambda>n. unat (base64_enc_map ! n) < 128 \<and> base64_dec_map ! unat (base64_enc_map ! n) = of_nat n \<and>
    base64_enc_map ! n \<notin> {chr_eq, chr_cr, chr_lf, chr_sp}) [0..<64]"
  by code_simp

definition b64_acc :: "u32 \<Rightarrow> u8 \<Rightarrow> u32" where
  "b64_acc x v = push_bit 6 x OR ucast (v AND 0x3F)"

lemma b64_acc_group:
  fixes C1 C2 C3 :: u8
  defines "w x \<equiv> b64_acc (b64_acc (b64_acc (b64_acc x (drop_bit 2 C1))
    (push_bit 4 (C1 AND 3) + drop_bit 4 C2)) (push_bit 2 (C2 AND 15) + drop_bit 6 C3)) C3"
  shows "ucast (drop_bit 16 (w x)) = C1" "ucast (drop_bit 8 (w x)) = C2" "ucast (w x) = C3"
proof -
  have b: "push_bit 4 (C1 AND 3) + drop_bit 4 C2 = push_bit 4 (C1 AND 3) OR drop_bit 4 C2"
    by (rule disjunctive_add) (auto simp: bit_simps dest: bit_imp_le_length)
  have c: "push_bit 2 (C2 AND 15) + drop_bit 6 C3 = push_bit 2 (C2 AND 15) OR drop_bit 6 C3"
    by (rule disjunctive_add) (auto simp: bit_simps dest: bit_imp_le_length)
  note defs = b64_acc_def bit_simps u8_bit_high
  show "ucast (drop_bit 16 (w x)) = C1"
    unfolding w_def b c by (rule u8_eqI) (simp_all add: defs)
  show "ucast (drop_bit 8 (w x)) = C2"
    unfolding w_def b c by (rule u8_eqI) (simp_all add: defs)
  show "ucast (w x) = C3"
    unfolding w_def b c by (rule u8_eqI) (simp_all add: defs)
qed
section \<open>Characters\<close>

definition b64_data :: "u8 \<Rightarrow> bool" where
  "b64_data c \<longleftrightarrow> c \<le> 127 \<and> dec_char c < 64 \<and> c \<notin> {chr_eq, chr_cr, chr_lf, chr_sp}"

lemma dec_char_pad [simp]: "dec_char chr_eq = 64"
  by (simp add: dec_char_def base64_dec_map_def)

lemma dec_char_enc_char: "dec_char (enc_char v) = v AND 0x3F" 
  and b64_data_enc_char [simp]: "b64_data (enc_char v)"
proof -
  have "v AND 0x3F = take_bit 6 v"
    by (simp add: take_bit_eq_mask mask_eq_exp_minus_1)
  then have n: "unat (v AND 0x3F) < 64"
    using take_bit_nat_less_exp [of 6 "unat v"] by (simp add: unsigned_take_bit_eq)
  then have lt: "v AND 0x3F < 64"
    by (simp add: word_less_nat_alt)
  from n enc_dec_table have tab: "unat (enc_char v) < 128" "dec_char (enc_char v) = of_nat (unat (v AND 0x3F))"
    "enc_char v \<notin> {chr_eq, chr_cr, chr_lf, chr_sp}"
    by (simp_all add: list_all_iff enc_char_def dec_char_def)
  show dec: "dec_char (enc_char v) = v AND 0x3F"
    using tab(2) by simp
  have "enc_char v \<le> 127"
    using tab(1) by (simp add: word_le_nat_alt)
  then show "b64_data (enc_char v)"
    using tab(3) lt by (simp add: b64_data_def dec)
qed

lemma scan_Nil [simp]: "base64_scan [] n j = Some (n, j)"
  by (simp add: base64_scan.simps)

lemma scan_data [simp]: "b64_data c \<Longrightarrow> base64_scan (c # cs) n 0 = base64_scan cs (n + 1) 0"
  by (subst base64_scan.simps) (auto simp: b64_data_def)

lemma scan_pad [simp]: "j < 2 \<Longrightarrow> base64_scan (chr_eq # cs) n j = base64_scan cs (n + 1) (j + 1)"
  by (subst base64_scan.simps) auto

definition b64_padding :: "nat \<Rightarrow> nat" where
  "b64_padding len = (if len mod 3 = 1 then 2 else if len mod 3 = 2 then 1 else 0)"

lemma b64_groups_3 [simp]: "b64_groups (Suc (Suc (Suc n))) = Suc (b64_groups n)"
  "b64_padding (Suc (Suc (Suc n))) = b64_padding n"
  "b64_groups 0 = 0" "b64_groups (Suc 0) = 1" "b64_groups (Suc (Suc 0)) = 1"
  "b64_padding 0 = 0" "b64_padding (Suc 0) = 2" "b64_padding (Suc (Suc 0)) = 1"
  by (simp_all add: b64_groups_def b64_padding_def)

lemma length_encode_loop [simp, len_simps]:
  "length (base64_encode_loop src) = 4 * b64_groups (length src)"
  by (induction src rule: base64_encode_loop.induct) simp_all

lemma scan_encode_loop:
  "base64_scan (base64_encode_loop src) n 0 =
    Some (n + 4 * b64_groups (length src), b64_padding (length src))"
  by (induction src arbitrary: n rule: base64_encode_loop.induct) simp_all

lemma decode_loop_data:
  "b64_data c \<Longrightarrow> base64_decode_loop (c # src) 3 n x =
    (let x = b64_acc x (dec_char c) in
       if n + 1 = 4
       then ucast (drop_bit 16 x) # ucast (drop_bit 8 x) # ucast x # base64_decode_loop src 3 0 x
       else base64_decode_loop src 3 (n + 1) x)"
  by (auto simp: b64_data_def b64_acc_def Let_def)

lemma decode_loop_pad:
  "base64_decode_loop (chr_eq # src) j n x =
    (let j = j - 1; x = b64_acc x 0 in
       if n + 1 = 4
       then (if j > 0 then [ucast (drop_bit 16 x)] else []) @
            (if j > 1 then [ucast (drop_bit 8 x)] else []) @
            (if j > 2 then [ucast x] else []) @ base64_decode_loop src j 0 x
       else base64_decode_loop src j (n + 1) x)"
  by (simp add: b64_acc_def Let_def)

declare base64_decode_loop.simps(2) [simp del]

lemma b64_acc_enc_char [simp]: "b64_acc x (dec_char (enc_char v)) = b64_acc x v"
  by (simp add: b64_acc_def dec_char_enc_char and.assoc)

lemma decode_encode_loop: "base64_decode_loop (base64_encode_loop src) 3 0 x = src"
proof (induction src arbitrary: x rule: base64_encode_loop.induct)
  case (2 C1)
  show ?case
    using b64_acc_group(1) [of x C1 0 0] by (simp add: decode_loop_data decode_loop_pad Let_def)
next
  case (3 C1 C2)
  show ?case
    using b64_acc_group(1,2) [of x C1 C2 0] by (simp add: decode_loop_data decode_loop_pad Let_def)
next
  case (4 C1 C2 C3 src)
  then show ?case
    using b64_acc_group [of x C1 C2 C3] by (simp add: decode_loop_data Let_def)
qed simp

section \<open>The size the first pass computes bounds what the second pass writes\<close>

definition b64_skip :: "u8 \<Rightarrow> bool" where
  "b64_skip c \<longleftrightarrow> c = chr_cr \<or> c = chr_lf \<or> c = chr_sp"

definition b64_text :: "bytes \<Rightarrow> bytes" where
  "b64_text src = filter (\<lambda>c. \<not> b64_skip c) src"

lemma b64_text_simps [simp]:
  "b64_text [] = []" "b64_skip c \<Longrightarrow> b64_text (c # cs) = b64_text cs"
  "\<not> b64_skip c \<Longrightarrow> b64_text (c # cs) = c # b64_text cs"
  by (simp_all add: b64_text_def)

lemma decode_loop_text:
  "base64_decode_loop src j n x = base64_decode_loop (b64_text src) j n x"
  by (induction src arbitrary: j n x) (auto simp: b64_text_def base64_decode_loop.simps b64_skip_def Let_def)

lemma b64_text_dropWhile:
  "b64_text (dropWhile (\<lambda>c. c = chr_sp) src) = b64_text src"
  by (induction src) (auto simp: b64_text_def b64_skip_def)

text \<open>What the first pass accepts: data characters followed by at most two padding characters,
  line ends and surrounding spaces aside.\<close>

lemma b64_not_skip [simp]: "b64_data c \<Longrightarrow> \<not> b64_skip c" "\<not> b64_skip chr_eq"
  by (auto simp: b64_data_def b64_skip_def)

lemma dec_char_cases:
  assumes "c \<le> 127"
  shows "dec_char c < 64 \<or> dec_char c = 127 \<or> c = chr_eq"
proof -
  have tab: "list_all (\<lambda>n. base64_dec_map ! n < 64 \<or> base64_dec_map ! n = 127 \<or> n = 0x3D) [0..<128]"
    by code_simp
  have "unat c < 128"
    using assms by (simp add: word_le_nat_alt)
  with tab have "dec_char c < 64 \<or> dec_char c = 127 \<or> unat c = 0x3D"
    by (auto simp: list_all_iff dec_char_def)
  moreover have "unat c = 0x3D \<Longrightarrow> c = 0x3D"
    by (simp add: word_unat_eq_iff)
  ultimately show ?thesis by blast
qed

lemma dec_char_skip: "dec_char chr_cr = 127"
  by (simp add: dec_char_def base64_dec_map_def)

lemma scan_step_cases:
  assumes "base64_scan src n j = Some r"
  shows "(b64_text src = [] \<and> r = (n, j)) \<or>
    (\<exists>c cs. length cs < length src \<and>
      b64_text src = b64_text (c # cs) \<and>
      (b64_skip c \<and> base64_scan cs n j = Some r \<or>
       c = chr_eq \<and> j < 2 \<and> base64_scan cs (n + 1) (j + 1) = Some r \<or>
       b64_data c \<and> j = 0 \<and> base64_scan cs (n + 1) 0 = Some r))"
proof (cases "dropWhile (\<lambda>c. c = chr_sp) src")
  case Nil
  then have "r = (n, j)"
    using assms unfolding base64_scan.simps [of src n j] Let_def Nil by simp
  moreover have "b64_text src = []"
    using b64_text_dropWhile [of src] unfolding Nil by simp
  ultimately show ?thesis by blast
next
  case (Cons c cs)
  have "c \<noteq> chr_sp"
    using hd_dropWhile [of "\<lambda>c. c = chr_sp" src] by (simp add: Cons)
  then have "b64_skip c \<and> base64_scan cs n j = Some r \<or>
       c = chr_eq \<and> j < 2 \<and> base64_scan cs (n + 1) (j + 1) = Some r \<or>
       b64_data c \<and> j = 0 \<and> base64_scan cs (n + 1) 0 = Some r"
    using assms dec_char_cases [of c] dec_char_skip
    unfolding base64_scan.simps [of src n j] Let_def Cons b64_skip_def b64_data_def
    by (auto split: if_splits)
  moreover have "length cs < length src"
    using scan_dropWhile_le [OF Cons [symmetric]] .
  moreover have "b64_text src = b64_text (c # cs)"
    using b64_text_dropWhile [of src] Cons by metis
  ultimately show ?thesis by blast
qed

lemma scan_shape:
  assumes "base64_scan src n j = Some (n', j')" "j \<le> 2"
  shows "\<exists>ds e. b64_text src = ds @ replicate e chr_eq \<and> list_all b64_data ds \<and>
    n' = n + length ds + e \<and> j' = j + e \<and> j' \<le> 2 \<and> (j \<noteq> 0 \<longrightarrow> ds = [])"
  using assms
proof (induction src arbitrary: n j rule: length_induct)
  case (1 src)
  consider "b64_text src = []" "n' = n" "j' = j"
    | c cs where "length cs < length src" "b64_skip c" "base64_scan cs n j = Some (n', j')"
        "b64_text src = b64_text cs"
    | cs where "length cs < length src" "j < 2" "base64_scan cs (n + 1) (j + 1) = Some (n', j')"
        "b64_text src = chr_eq # b64_text cs"
    | c cs where "length cs < length src" "b64_data c" "j = 0" "base64_scan cs (n + 1) 0 = Some (n', j')"
        "b64_text src = c # b64_text cs"
    using scan_step_cases [OF "1.prems"(1)]
    by (elim disjE exE conjE) auto
  then show ?case
  proof cases
    case 1
    with \<open>j \<le> 2\<close> show ?thesis
      by (intro exI [of _ "[]"] exI [of _ 0]) simp
  next
    case 2
    with "1.IH" \<open>j \<le> 2\<close> show ?thesis by metis
  next
    case 3
    with "1.IH" obtain e where "b64_text cs = replicate e chr_eq"
      "n' = n + 1 + e" "j' = j + 1 + e" "j' \<le> 2"
      by fastforce
    with 3 show ?thesis
      by (intro exI [of _ "[]"] exI [of _ "Suc e"]) simp
  next
    case 4
    with "1.IH" obtain ds e where "b64_text cs = ds @ replicate e chr_eq"
      "list_all b64_data ds" "n' = n + 1 + length ds + e" "j' = e" "j' \<le> 2"
      by fastforce
    with 4 show ?thesis
      by (intro exI [of _ "c # ds"] exI [of _ e]) simp
  qed
qed

lemma length_decode_data:
  assumes "list_all b64_data ds" "n < 4"
  shows "\<exists>x'. length (base64_decode_loop (ds @ ts) 3 n x) =
    3 * ((n + length ds) div 4) + length (base64_decode_loop ts 3 ((n + length ds) mod 4) x')"
  using assms
proof (induction ds arbitrary: n x)
  case (Cons d ds)
  show ?case
  proof (cases "n = 3")
    case True
    with Cons.prems Cons.IH [of 0 "b64_acc x (dec_char d)"] obtain x' where
      "length (base64_decode_loop (ds @ ts) 3 0 (b64_acc x (dec_char d))) =
        3 * (length ds div 4) + length (base64_decode_loop ts 3 (length ds mod 4) x')"
      by auto
    with Cons.prems True show ?thesis
      by (intro exI [of _ x']) (simp add: decode_loop_data Let_def div_add_self1)
  next
    case False
    with Cons.prems Cons.IH [of "Suc n" "b64_acc x (dec_char d)"] show ?thesis
      by (auto simp: decode_loop_data Let_def)
  qed
qed auto

lemma length_decode_pad:
  assumes "r < 4" "e \<le> 2"
  shows "length (base64_decode_loop (replicate e chr_eq) 3 r x) = (if r + e \<ge> 4 then 3 - (4 - r) else 0)"
proof -
  have "r \<in> {0, 1, 2, 3}" "e \<in> {0, 1, 2}"
    using assms by auto
  then show ?thesis
    by (auto simp: decode_loop_pad Let_def numeral_2_eq_2)
qed

lemma decoded_size:
  "base64_decoded_size n j = 3 * (n div 4) + n mod 4 - j"
proof -
  have "n = 8 * (n div 8) + n mod 8" by simp
  moreover have "n mod 8 \<in> {0, 1, 2, 3, 4, 5, 6, 7}" by auto
  moreover have "6 * q + (6 * r + 7) div 8 = 3 * ((8 * q + r) div 4) + (8 * q + r) mod 4"
    if "r \<in> {0, 1, 2, 3, 4, 5, 6, 7}" for q r :: nat
  proof -
    have "(4 * (2 * q) + r) div 4 = 2 * q + r div 4"
      by (rule div_mult_self4) simp
    moreover have "(4 * (2 * q) + r) mod 4 = r mod 4"
      by (rule mod_mult_self4)
    ultimately show ?thesis
      using that by (auto simp: mult.assoc [symmetric])
  qed
  ultimately show ?thesis
    unfolding base64_decoded_size_def by metis
qed

lemma decode_length_le:
  assumes "base64_scan src 0 0 = Some (n, j)"
  shows "length (base64_decode_loop src 3 0 0) \<le> base64_decoded_size n j"
proof -
  obtain ds where t_eq: "b64_text src = ds @ replicate j chr_eq" and ds: "list_all b64_data ds"
    and n: "n = length ds + j" and j: "j \<le> 2"
    using scan_shape [OF assms] by auto
  define r where "r = length ds mod 4"
  have "r < 4" by (simp add: r_def)
  obtain x' where "length (base64_decode_loop src 3 0 0) =
      3 * (length ds div 4) + length (base64_decode_loop (replicate j chr_eq) 3 r x')"
    using length_decode_data [OF ds, of 0 "replicate j chr_eq" 0]
    by (auto simp: decode_loop_text [of src] t_eq r_def)
  then have len: "length (base64_decode_loop src 3 0 0) =
      3 * (length ds div 4) + (if r + j \<ge> 4 then 3 - (4 - r) else 0)"
    using length_decode_pad [OF \<open>r < 4\<close> j] by simp
  have "length ds = 4 * (length ds div 4) + r" by (simp add: r_def)
  then have size: "base64_decoded_size n j = 3 * ((4 * q + (r + j)) div 4) + (4 * q + (r + j)) mod 4 - j"
    if "q = length ds div 4" for q
    using that unfolding decoded_size n by (metis add.assoc)
  have "r \<in> {0, 1, 2, 3}" "j \<in> {0, 1, 2}"
    using \<open>r < 4\<close> j by auto
  then show ?thesis
    unfolding len size [OF refl] by auto
qed

lemma b64_groups_eq_0 [simp]: "b64_groups n = 0 \<longleftrightarrow> n = 0"
  by (cases n rule: nat.exhaust) (auto simp: b64_groups_def)

lemma decoded_size_encode:
  fixes src :: bytes
  shows "base64_decoded_size (4 * b64_groups (length src)) (b64_padding (length src)) = length src"
  unfolding decoded_size
  by (induction src rule: base64_encode_loop.induct)
    (simp_all add: b64_padding_def split: if_splits)

lemma decode_encode_fits:
  "length src \<le> dlen \<Longrightarrow> base64_decode True dlen (base64_encode_loop src) = Inr src"
  by (simp add: base64_decode_def scan_encode_loop decoded_size_encode decode_encode_loop Let_def)

lemma encode_Inr_D:
  assumes "base64_encode dst elen src = Inr (out, olen)"
  shows "take olen out = base64_encode_loop src" "src \<noteq> [] \<Longrightarrow> length out \<le> elen \<and> olen = 4 * b64_groups (length src)"
  using assms
  by (auto simp: base64_encode_def Let_def split: if_splits)

interpretation b64: codec base64_encode_loop
  "\<lambda>cs. case base64_decode True (length cs) cs of Inl _ \<Rightarrow> None | Inr out \<Rightarrow> Some out" "\<lambda>_. True"
proof
  fix src :: bytes
  have "length src \<le> length (base64_encode_loop src)"
    using decoded_size_encode [of src] by (simp add: decoded_size)
  then show "(case base64_decode True (length (base64_encode_loop src)) (base64_encode_loop src) of
      Inl _ \<Rightarrow> None | Inr out \<Rightarrow> Some out) = Some src"
    by (simp only: decode_encode_fits sum.case)
qed

section \<open>Properties\<close>

text \<open>C17: decoding what the encoder wrote gives the source back in a destination of the source's
  size, and the encoder never writes more than \<open>elen\<close> bytes, its terminating zero included.\<close>

theorem b64_round_trip:
  assumes "base64_encode True elen src = Inr (out, olen)" "length src \<le> dlen" "src \<noteq> []"
  shows "length out \<le> elen \<and> base64_decode True dlen (take olen out) = Inr src"
  using encode_Inr_D [OF assms(1)] decode_encode_fits [OF assms(2)] assms(3) by simp

theorem b64_round_trip_witness:
  "base64_encode True 9 [0x61, 0x62, 0x63, 0xFF] = Inr ([0x59, 0x57, 0x4A, 0x6A, 0x2F, 0x77, 0x3D, 0x3D, 0], 8) \<and>
   length [0x59, 0x57, 0x4A, 0x6A, 0x2F, 0x77, 0x3D, 0x3D, 0 :: u8] \<le> 9 \<and>
   base64_decode True 4 (take 8 [0x59, 0x57, 0x4A, 0x6A, 0x2F, 0x77, 0x3D, 0x3D, 0]) = Inr [0x61, 0x62, 0x63, 0xFF]"
proof -
  have run: "base64_encode True 9 [0x61, 0x62, 0x63, 0xFF] = Inr ([0x59, 0x57, 0x4A, 0x6A, 0x2F, 0x77, 0x3D, 0x3D, 0], 8)"
    by (simp add: base64_encode_def BASE64_SIZE_T_MAX_def b64_groups_def enc_char_def base64_enc_map_code)
  show ?thesis
    using run b64_round_trip [OF run, of 4] by simp
qed

text \<open>C18: the decoder never writes past the destination: whatever the input, the bytes of the second
  pass number at most the size the first pass computed and checked against \<open>dlen\<close>.\<close>

theorem b64_decode_in_bounds:
  assumes "base64_decode dst dlen src = Inr out"
  shows "length out \<le> dlen"
  using assms decode_length_le [of src]
  by (fastforce simp: base64_decode_def Let_def split: option.splits if_splits)

theorem b64_decode_in_bounds_witness:
  "base64_decode True 5 [0x59, 0x57, 0x0A, 0x4A, 0x6A, 0x2F, 0x77] = Inr [0x61, 0x62, 0x63] \<and>
   length [0x61, 0x62, 0x63 :: u8] \<le> 5"
proof -
  have run: "base64_decode True 5 [0x59, 0x57, 0x0A, 0x4A, 0x6A, 0x2F, 0x77] = Inr [0x61, 0x62, 0x63]"
    by code_simp
  show ?thesis
    using run b64_decode_in_bounds [OF run] by simp
qed

text \<open>When the encoder refuses a destination for its size, the size it reports is enough: the
  same call with that size succeeds (unless the size itself cannot be represented).\<close>

theorem b64_encode_retry:
  assumes "base64_encode True elen src = Inl (B64_ENOMEM n)" "n \<noteq> BASE64_SIZE_T_MAX"
  shows "elen < n \<and> (\<exists>out olen. base64_encode True n src = Inr (out, olen) \<and> length out = n)"
  using assms
  by (auto simp: base64_encode_def Let_def split: if_splits)

theorem b64_encode_retry_witness:
  "base64_encode True 8 [0x61, 0x62, 0x63, 0xFF] = Inl (B64_ENOMEM 9) \<and> (9 :: nat) \<noteq> BASE64_SIZE_T_MAX \<and>
   8 < (9 :: nat) \<and> (\<exists>out olen. base64_encode True 9 [0x61, 0x62, 0x63, 0xFF] = Inr (out, olen) \<and> length out = 9)"
proof -
  have run: "base64_encode True 8 [0x61, 0x62, 0x63, 0xFF] = Inl (B64_ENOMEM 9)" "(9 :: nat) \<noteq> BASE64_SIZE_T_MAX"
    by (simp_all add: base64_encode_def BASE64_SIZE_T_MAX_def b64_groups_def)
  show ?thesis
    using run b64_encode_retry [OF run] by simp
qed

end
