(* ===== verification/BleProg.thy ===== *)
theory BleProg
  imports Base64
begin

text \<open>
  The programmer of the Bluetooth radio: \<^verbatim>\<open>ble-utils/files/ble_mcuboot_prog.c\<close> (the frames of
  the boot loader's shell protocol, the NMP messages carried in them, the image upload) and
  \<^verbatim>\<open>ble-utils/files/ble_prog.c\<close> (reset line and main program). The serial port is a state: the bytes the
  radio sends, the buffers handed to \<^verbatim>\<open>write\<close>, the static buffer \<^verbatim>\<open>ble_res\<close> and
  the sequence counter. The CBOR encoder (a library outside the tree) is a parameter.
\<close>

abbreviation (input) RX_TIMEOUT :: nat where "RX_TIMEOUT \<equiv> 10"
abbreviation (input) MAX_BLE_RESET_ATTEMPTS :: nat where "MAX_BLE_RESET_ATTEMPTS \<equiv> 5"
abbreviation (input) CRC_POLY :: u16 where "CRC_POLY \<equiv> 0x1021"
abbreviation (input) CRC_INIT :: u16 where "CRC_INIT \<equiv> 0"
abbreviation (input) NMP_HDR_SIZE :: nat where "NMP_HDR_SIZE \<equiv> 8"
abbreviation (input) READ_CHUNK_SIZE :: nat where "READ_CHUNK_SIZE \<equiv> 196"
abbreviation (input) MAX_BUF_SIZE :: nat where "MAX_BUF_SIZE \<equiv> 512"

section \<open>Checksum\<close>

text \<open>The body of the inner loop of \<open>crc16\<close>, for the bit \<open>b\<close> of the byte \<open>i\<close>.\<close>

definition crc16_step :: "bytes \<Rightarrow> nat \<Rightarrow> nat \<Rightarrow> u16 \<Rightarrow> u16" where
  "crc16_step buf i b crc =
    (let divide = crc AND 0x8000;
         crc = push_bit 1 crc;
         crc = (if i < length buf
                then crc OR (if buf ! i AND drop_bit b 0x80 \<noteq> 0 then 1 else 0)
                else crc)
     in if divide \<noteq> 0 then crc XOR CRC_POLY else crc)"

definition crc16 :: "bytes \<Rightarrow> bool \<Rightarrow> u16" where
  "crc16 buf pad =
    for_range 0 (length buf + (if pad then 2 else 0))
      (\<lambda>i. for_range 0 8 (crc16_step buf i)) CRC_INIT"

definition hi8 :: "u16 \<Rightarrow> u8" where
  "hi8 w = ucast (drop_bit 8 (w AND 0xFF00))"

definition lo8 :: "u16 \<Rightarrow> u8" where
  "lo8 w = ucast (w AND 0x00FF)"

section \<open>The checksum detects what it is meant to\<close>

text \<open>The checksum as division of a bit sequence, most significant bit first.\<close>

definition xmask :: "bool \<Rightarrow> u16 \<Rightarrow> u16" where
  "xmask x k = (if x then k else 0)"

definition crc_shift :: "bool \<Rightarrow> u16 \<Rightarrow> u16" where
  "crc_shift x crc = push_bit 1 crc XOR xmask x 1 XOR xmask (bit crc 15) CRC_POLY"

definition byte_bits :: "u8 \<Rightarrow> bool list" where
  "byte_bits c = map (bit c) [7, 6, 5, 4, 3, 2, 1, 0]"

lemma xmask_xor: "xmask (x \<noteq> y) k = xmask x k XOR xmask y k"
  by (simp add: xmask_def)

lemma crc_shift_xor: "crc_shift (x \<noteq> y) (a XOR b) = crc_shift x a XOR crc_shift y b"
  unfolding crc_shift_def push_bit_xor bit_xor_iff xmask_xor
  by (simp only: xor.assoc xor.left_commute)

lemma fold_crc_shift_xor:
  "length xs = length ys \<Longrightarrow>
    fold crc_shift (map2 (\<noteq>) xs ys) (a XOR b) = fold crc_shift xs a XOR fold crc_shift ys b"
proof (induction xs ys arbitrary: a b rule: list_induct2)
  case (Cons x xs y ys)
  then show ?case
    by (simp add: crc_shift_xor del: not_iff)
qed simp

lemma and_top_bit: "(crc :: u16) AND 0x8000 \<noteq> 0 \<longleftrightarrow> bit crc 15"
  using and_exp_eq_0_iff_not_bit [of crc 15] by simp

lemma push_and_xmask: "push_bit 1 (crc :: u16) AND xmask x 1 = 0"
  by (simp add: xmask_def and_one_eq mod_2_eq_odd)

lemma push_or_xor: "push_bit 1 (crc :: u16) OR xmask x 1 = push_bit 1 crc XOR xmask x 1"
  by (simp only: disjunctive_xor_eq_or push_and_xmask)

lemma byte_bit_test: "b < 8 \<Longrightarrow> (c :: u8) AND drop_bit b 0x80 \<noteq> 0 \<longleftrightarrow> bit c (7 - b)"
proof -
  assume "b < 8"
  then have "b \<in> {0, 1, 2, 3, 4, 5, 6, 7}" by auto
  then have "drop_bit b (0x80 :: u8) = 2 ^ (7 - b)" by auto
  then show ?thesis
    using and_exp_eq_0_iff_not_bit [of c "7 - b"] by simp
qed

lemma crc16_step_shift:
  assumes "b < 8"
  shows "crc16_step buf i b crc = crc_shift (i < length buf \<and> bit (buf ! i) (7 - b)) crc"
proof -
  let ?x = "i < length buf \<and> bit (buf ! i) (7 - b)"
  have "crc16_step buf i b crc =
      (if bit crc 15 then (push_bit 1 crc OR xmask ?x 1) XOR CRC_POLY else push_bit 1 crc OR xmask ?x 1)"
    using byte_bit_test [OF assms, of "buf ! i"] and_top_bit [of crc]
    by (auto simp: crc16_step_def xmask_def Let_def)
  also have "\<dots> = crc_shift ?x crc"
    unfolding push_or_xor crc_shift_def by (cases "bit crc 15") (simp_all only: xmask_def if_True if_False xor.right_neutral xor.assoc)
  finally show ?thesis .
qed

lemma crc16_byte:
  "for_range 0 8 (crc16_step buf i) crc =
    fold crc_shift (if i < length buf then byte_bits (buf ! i) else replicate 8 False) crc"
proof -
  have "for_range 0 8 (crc16_step buf i) crc =
    fold (\<lambda>b. crc16_step buf i b) [0, 1, 2, 3, 4, 5, 6, 7] crc"
    by (simp add: for_range_def upt_rec numeral_eq_Suc)
  also have "\<dots> = fold crc_shift (map (\<lambda>b. i < length buf \<and> bit (buf ! i) (7 - b)) [0, 1, 2, 3, 4, 5, 6, 7]) crc"
    by (simp add: crc16_step_shift)
  also have "map (\<lambda>b. i < length buf \<and> bit (buf ! i) (7 - b)) [0, 1, 2, 3, 4, 5, 6, 7] =
      (if i < length buf then byte_bits (buf ! i) else replicate 8 False)"
    by (simp add: byte_bits_def numeral_eq_Suc)
  finally show ?thesis .
qed

definition bits_of :: "bytes \<Rightarrow> bool list" where
  "bits_of buf = concat (map byte_bits buf)"

lemma crc16_bytes:
  "k \<le> length buf \<Longrightarrow>
    for_range 0 k (\<lambda>i. for_range 0 8 (crc16_step buf i)) crc = fold crc_shift (bits_of (take k buf)) crc"
  by (induction k) (simp_all add: for_range_last crc16_byte bits_of_def take_Suc_conv_app_nth)

lemma crc16_conv:
  "crc16 buf pad = fold crc_shift (bits_of buf @ replicate (if pad then 16 else 0) False) 0"
proof -
  have "for_range (length buf) (length buf + 2) (\<lambda>i. for_range 0 8 (crc16_step buf i)) crc =
    fold crc_shift (replicate 16 False) crc" for crc
  proof -
    have "for_range (length buf) (Suc (Suc (length buf))) (\<lambda>i. for_range 0 8 (crc16_step buf i)) crc =
      fold crc_shift (replicate 8 False) (fold crc_shift (replicate 8 False) crc)"
      by (simp only: for_range_last order_refl le_SucI crc16_byte for_range_empty) simp
    also have "\<dots> = fold crc_shift (replicate 16 False) crc"
      by (simp add: numeral_eq_Suc)
    finally show ?thesis by simp
  qed
  note pad = this
  let ?B = "\<lambda>i. for_range 0 8 (crc16_step buf i)"
  have "for_range 0 (length buf + 2) ?B 0 = for_range (length buf) (length buf + 2) ?B (for_range 0 (length buf) ?B 0)"
    by (rule for_range_append) simp_all
  with pad crc16_bytes [of "length buf" buf 0] show ?thesis
    by (cases pad) (simp_all add: crc16_def del: add_2_eq_Suc')
qed

text \<open>Sixteen bits shifted into an empty register are the register.\<close>

definition msb_val :: "bool list \<Rightarrow> nat" where
  "msb_val bs = horner_sum of_bool 2 (rev bs)"

lemma msb_val_snoc [simp]: "msb_val (bs @ [x]) = 2 * msb_val bs + of_bool x"
  by (simp add: msb_val_def)

lemma msb_val_less: "msb_val bs < 2 ^ length bs"
  using horner_sum_of_bool_2_less [of "rev bs", where 'a = nat] by (simp add: msb_val_def)

lemma crc_shift_small:
  assumes "v < 2 ^ 15"
  shows "crc_shift x (of_nat v) = of_nat (2 * v + of_bool x)"
proof -
  have "\<not> bit (of_nat v :: u16) 15"
    using assms by (simp add: bit_simps) (simp add: bit_iff_odd)
  moreover have "push_bit 1 (of_nat v :: u16) XOR xmask x 1 = push_bit 1 (of_nat v) + xmask x 1"
    by (simp only: disjunctive_add_eq_xor push_and_xmask)
  ultimately show ?thesis
    by (simp add: crc_shift_def xmask_def)
qed

lemma crc_shift_in: "length bs \<le> 16 \<Longrightarrow> fold crc_shift bs 0 = of_nat (msb_val bs)"
proof (induction bs rule: rev_induct)
  case (snoc x bs)
  then have "msb_val bs < 2 ^ 15"
    using msb_val_less [of bs] power_increasing [of "length bs" 15 "2 :: nat"] by simp
  with snoc show ?case
    by (simp add: crc_shift_small)
qed (simp add: msb_val_def)

lemma bits_of_crc: "bits_of [hi8 c, lo8 c] = rev (map (bit c) [0..<16])"
  by (simp add: bits_of_def byte_bits_def hi8_def lo8_def bit_simps upt_rec) (simp add: numeral_eq_Suc)

lemma of_nat_horner: "of_nat (horner_sum of_bool 2 bs) = horner_sum of_bool (2 :: u16) bs"
  by (induction bs) simp_all

lemma fold_crc_shift_bits: "fold crc_shift (bits_of [hi8 c, lo8 c]) 0 = c"
proof -
  have "msb_val (bits_of [hi8 c, lo8 c]) = horner_sum of_bool 2 (map (bit c) [0..<16])"
    by (simp add: bits_of_crc msb_val_def del: upt_rec_numeral)
  then have "of_nat (msb_val (bits_of [hi8 c, lo8 c])) = c"
    using horner_sum_bit_eq_take_bit [of c 16] by (simp add: of_nat_horner take_bit_word_eq_self del: upt_rec_numeral)
  then show ?thesis
    by (subst crc_shift_in) (simp_all add: bits_of_def byte_bits_def)
qed

lemma bits_of_append [simp]: "bits_of (xs @ ys) = bits_of xs @ bits_of ys"
  by (simp add: bits_of_def)

lemma funpow_crc_shift_zero [simp]: "(crc_shift False ^^ n) 0 = 0"
  by (induction n) (simp_all add: crc_shift_def xmask_def)

lemma crc16_residue: "crc16 (data @ [hi8 (crc16 data True), lo8 (crc16 data True)]) True = 0"
proof -
  let ?s = "fold crc_shift (bits_of data) 0" and ?c = "crc16 data True"
  let ?bs = "bits_of [hi8 ?c, lo8 ?c]"
  have c: "?c = fold crc_shift (replicate 16 False) ?s"
    by (simp add: crc16_conv)
  have len: "length ?bs = 16"
    by (simp add: bits_of_def byte_bits_def)
  have "map2 (\<noteq>) (replicate 16 False) ?bs = ?bs"
    using len by (intro nth_equalityI) simp_all
  then have "fold crc_shift ?bs ?s = fold crc_shift (replicate 16 False) ?s XOR fold crc_shift ?bs 0"
    using fold_crc_shift_xor [of "replicate 16 False" ?bs ?s 0] len by simp
  also have "\<dots> = 0"
    by (simp only: fold_crc_shift_bits c xor_self_eq)
  finally show ?thesis
    by (simp add: crc16_conv [of "data @ _"] del: replicate.simps)
qed

section \<open>Serial port\<close>

text \<open>What the radio does on the line: a byte arrives, or a wait of \<^verbatim>\<open>RX_TIMEOUT / 2\<close> seconds
  passes without one. An empty list is a silent radio. \<open>rx_polls\<close> is the number of times the
  test \<^verbatim>\<open>time(NULL) < endTime\<close> of a receive succeeds. \<open>sent\<close> holds the buffers handed to
  \<^verbatim>\<open>write\<close>, of which number \<open>n\<close> is written in full when \<open>write_ok n\<close>; \<open>requests\<close> lists the
  messages (header, body) given to \<open>BLE_txNmp\<close>, and \<open>resets\<close> counts the pulses of the reset line.\<close>

datatype rx_event = RxByte u8 | RxTimeout

record ble_port =
  rx :: "rx_event list"
  rx_polls :: nat
  sent :: "bytes list"
  write_ok :: "nat \<Rightarrow> bool"
  ble_res :: bytes
  curSeq :: u8
  requests :: "(bytes \<times> bytes) list"
  resets :: nat

text \<open>\<open>BLE_getLine\<close>: the bytes up to a newline, stored from index \<open>index\<close> of the buffer. The result is
  the length, 0 on a timeout, the size of the buffer when it is full.\<close>

fun getLine_loop :: "rx_event list \<Rightarrow> bytes \<Rightarrow> nat \<Rightarrow> nat \<Rightarrow> nat \<times> bytes \<times> rx_event list" where
  "getLine_loop [] buf index maxLen = (0, buf, [])"
| "getLine_loop (RxTimeout # r) buf index maxLen = (0, buf, r)"
| "getLine_loop (RxByte ch # r) buf index maxLen =
    (if ch = chr_lf then (index, buf, r)
     else (let buf = buf[index := ch] in
       if index + 1 = maxLen then (maxLen, buf, r)
       else getLine_loop r buf (index + 1) maxLen))"

definition BLE_getLine :: "ble_port \<Rightarrow> nat \<times> ble_port" where
  "BLE_getLine p =
    (let (n, buf, r) = getLine_loop (rx p) (ble_res p) 0 MAX_BUF_SIZE
     in (n, p\<lparr>rx := r, ble_res := buf\<rparr>))"

definition BLE_txRaw :: "ble_port \<Rightarrow> bytes \<Rightarrow> bool \<times> ble_port" where
  "BLE_txRaw p buf = (write_ok p (length (sent p)), p\<lparr>sent := sent p @ [buf]\<rparr>)"

section \<open>Frames\<close>

abbreviation (input) pkt_start :: bytes where "pkt_start \<equiv> [6, 9]"
abbreviation (input) pkt_cont :: bytes where "pkt_cont \<equiv> [4, 20]"

text \<open>The loop of \<open>BLE_tx\<close> that writes the encoded packet in lines of at most 124 characters. Only the
  write of the characters is checked.\<close>

function tx_chunks :: "ble_port \<Rightarrow> bytes \<Rightarrow> nat \<Rightarrow> bool \<times> ble_port" where
  "tx_chunks p encoded written =
    (if written < length encoded
     then (let (_, p) = BLE_txRaw p (if written = 0 then pkt_start else pkt_cont);
               writeLen = (if 124 < length encoded - written then 124 else length encoded - written);
               (ok, p) = BLE_txRaw p (take writeLen (drop written encoded)) in
           if \<not> ok then (False, p)
           else (let (_, p) = BLE_txRaw p [chr_lf] in tx_chunks p encoded (written + writeLen)))
     else (True, p))"
  by pat_completeness auto
termination
  by (relation "measure (\<lambda>(_, encoded, written). length encoded - written)") (auto split: if_splits)

declare tx_chunks.simps [simp del]

text \<open>The packet \<open>BLE_tx\<close> builds in \<^verbatim>\<open>ble_buf\<close>: length, data, checksum.\<close>

definition nlip_packet :: "bytes \<Rightarrow> bytes" where
  "nlip_packet buf =
    (let n = of_nat (length buf + 2) :: u16; crc = crc16 buf True
     in [hi8 n, lo8 n] @ buf @ [hi8 crc, lo8 crc])"

definition BLE_tx :: "ble_port \<Rightarrow> bytes \<Rightarrow> bool \<times> ble_port" where
  "BLE_tx p buf =
    (case base64_encode True MAX_BUF_SIZE (nlip_packet buf) of
       Inl _ \<Rightarrow> (False, p)
     | Inr (out, olen) \<Rightarrow> tx_chunks p (take olen out) 0)"

text \<open>One pass of the receive loop on a line of \<open>dataLen\<close> bytes in \<open>ble_res\<close>: skip it, deliver a
  message, or (a line of exactly the two header bytes, where \<^verbatim>\<open>dataLen - 3\<close> wraps around) read
  far past the buffer; with \<open>ble_res\<close> afterwards. \<open>totalLen\<close> and \<open>index\<close> are declared inside the loop, so
  they start from 0 on every line. A wrong checksum is reported on the console and changes nothing
  else.\<close>

datatype rx_line = LineSkip | LineMsg bytes | LineOverrun

definition overlay :: "bytes \<Rightarrow> bytes \<Rightarrow> bytes" where
  "overlay m buf = m @ drop (length m) buf"

definition rx_line_step :: "bytes \<Rightarrow> nat \<Rightarrow> rx_line \<times> bytes" where
  "rx_line_step res dataLen =
    (if dataLen = 0 \<or> dataLen = MAX_BUF_SIZE then (LineSkip, res)
     else (let (line, dataLen) =
             (if dataLen > 1 \<and> res ! 0 = chr_cr then (drop 1 res, dataLen - 1) else (res, dataLen)) in
       if dataLen < 2 \<or> (take 2 line \<noteq> pkt_cont \<and> take 2 line \<noteq> pkt_start) then (LineSkip, res)
       else if dataLen = 2 then (LineOverrun, res)
       else (case base64_decode True MAX_BUF_SIZE (take (dataLen - 3) (drop 2 line)) of
           Inl _ \<Rightarrow> (LineSkip, res)
         | Inr decoded \<Rightarrow>
             if decoded = [] then (LineSkip, res)
             else if take 2 line = pkt_start then
               (if length decoded < 2 then (LineSkip, res)
                else (let totalLen = unat (decoded ! 0) * 256 + unat (decoded ! 1);
                          msg = drop 2 decoded; index = length msg in
                  (if index = totalLen then LineMsg msg else LineSkip, overlay msg res)))
             else (let totalLen = 0; index = length decoded in
               (if index = totalLen then LineMsg decoded else LineSkip, overlay decoded res)))))"

text \<open>The message is the first \<^verbatim>\<open>*retLen\<close> bytes of \<open>ble_res\<close>, which is what the caller gets.\<close>

datatype rx_msg = RxMsg bytes | RxNull | RxOverrun

fun getMsg_loop :: "nat \<Rightarrow> ble_port \<Rightarrow> rx_msg \<times> ble_port" where
  "getMsg_loop 0 p = (RxNull, p)"
| "getMsg_loop (Suc polls) p =
    (let (n, p) = BLE_getLine p; (step, res) = rx_line_step (ble_res p) n; p = p\<lparr>ble_res := res\<rparr> in
     case step of
       LineSkip \<Rightarrow> getMsg_loop polls p
     | LineMsg m \<Rightarrow> (RxMsg m, p)
     | LineOverrun \<Rightarrow> (RxOverrun, p))"

definition BLE_getMsg :: "ble_port \<Rightarrow> rx_msg \<times> ble_port" where
  "BLE_getMsg p = getMsg_loop (rx_polls p) p"

section \<open>NMP messages\<close>

text \<open>\<open>BLE_txNmp\<close> sends header and body and waits for the answer.\<close>

definition BLE_txNmp :: "ble_port \<Rightarrow> bytes \<Rightarrow> bytes \<Rightarrow> rx_msg \<times> ble_port" where
  "BLE_txNmp p hdr body =
    (let p = p\<lparr>requests := requests p @ [(take NMP_HDR_SIZE hdr, body)]\<rparr>;
         (ok, p) = BLE_tx p (take NMP_HDR_SIZE hdr @ body)
     in if \<not> ok then (RxNull, p) else BLE_getMsg p)"

definition BLE_populateNmpHdr :: "ble_port \<Rightarrow> u8 \<Rightarrow> u16 \<Rightarrow> u8 \<Rightarrow> u16 \<Rightarrow> bytes \<times> ble_port" where
  "BLE_populateNmpHdr p nmp_op nmp_group nmp_id len =
    ([nmp_op, 0, hi8 len, lo8 len, hi8 nmp_group, lo8 nmp_group, curSeq p, nmp_id],
     p\<lparr>curSeq := curSeq p + 1\<rparr>)"

abbreviation (input) NMP_OP_READ :: u8 where "NMP_OP_READ \<equiv> 0"
abbreviation (input) NMP_OP_READ_RSP :: u8 where "NMP_OP_READ_RSP \<equiv> 1"
abbreviation (input) NMP_OP_WRITE :: u8 where "NMP_OP_WRITE \<equiv> 2"
abbreviation (input) NMP_OP_WRITE_RSP :: u8 where "NMP_OP_WRITE_RSP \<equiv> 3"
abbreviation (input) NMP_GROUP_DEFAULT :: u16 where "NMP_GROUP_DEFAULT \<equiv> 0"
abbreviation (input) NMP_GROUP_IMAGE :: u16 where "NMP_GROUP_IMAGE \<equiv> 1"
abbreviation (input) NMP_ID_IMAGE_UPLOAD :: u8 where "NMP_ID_IMAGE_UPLOAD \<equiv> 1"
abbreviation (input) NMP_ID_CONS_ECHO_CTRL :: u8 where "NMP_ID_CONS_ECHO_CTRL \<equiv> 1"

text \<open>The test both callers make on the first bytes of the answer.\<close>

definition nmp_answers :: "bytes \<Rightarrow> u8 \<Rightarrow> u16 \<Rightarrow> u8 \<Rightarrow> bool" where
  "nmp_answers response op_rsp grp nmp_id \<longleftrightarrow>
    \<not> (response ! 0 \<noteq> op_rsp \<or> response ! 4 \<noteq> hi8 grp \<or> response ! 5 \<noteq> lo8 grp \<or> response ! 7 \<noteq> nmp_id)"

datatype ble_outcome = BleOk | BleFail | BleOverrun

definition BLE_ping :: "ble_port \<Rightarrow> ble_outcome \<times> ble_port" where
  "BLE_ping p =
    (let (hdr, p) = BLE_populateNmpHdr p NMP_OP_READ NMP_GROUP_DEFAULT NMP_ID_CONS_ECHO_CTRL 0;
         (response, p) = BLE_txNmp p hdr []
     in case response of
          RxNull \<Rightarrow> (BleFail, p)
        | RxOverrun \<Rightarrow> (BleOverrun, p)
        | RxMsg _ \<Rightarrow>
            (if nmp_answers (ble_res p) NMP_OP_READ_RSP NMP_GROUP_DEFAULT NMP_ID_CONS_ECHO_CTRL
             then BleOk else BleFail, p))"

section \<open>Image upload\<close>

text \<open>\<open>cbor off len data\<close> is the CBOR map \<open>{"off": off, "len": len, "data": data}\<close> (without \<open>"len"\<close> on
  \<open>None\<close>) that the encoder library puts into \<^verbatim>\<open>body\<close>. The loop keeps \<^verbatim>\<open>remaining\<close>, a 32-bit
  \<^verbatim>\<open>size_t\<close>, and reads from the rest of the file; \<open>upload_len\<close> is the size with the slot in its
  upper byte.\<close>

type_synonym cbor_encoder = "nat \<Rightarrow> u32 option \<Rightarrow> bytes \<Rightarrow> bytes"

definition upload_len :: "u32 \<Rightarrow> int \<Rightarrow> u32" where
  "upload_len remaining slot =
    (if slot \<noteq> 0 then remaining OR push_bit 24 (of_int slot AND 0x0F) else remaining)"

definition read_count :: "u32 \<Rightarrow> nat" where
  "read_count remaining =
    (if remaining < of_nat READ_CHUNK_SIZE then unat remaining else READ_CHUNK_SIZE)"

function txImage_loop :: "cbor_encoder \<Rightarrow> int \<Rightarrow> bytes \<Rightarrow> u32 \<Rightarrow> nat \<Rightarrow> ble_port \<Rightarrow> ble_outcome \<times> ble_port" where
  "txImage_loop cbor slot file remaining offset p =
    (if remaining = 0 then (BleOk, p)
     else (let readCount = read_count remaining;
               data = take readCount file in
       if length data \<noteq> readCount then (BleFail, p)
       else (let len = (if offset = 0 then Some (upload_len remaining slot) else None);
                 remaining = (if offset = 0 then upload_len remaining slot AND 0x00FFFFFF else remaining);
                 body = cbor offset len data;
                 (hdr, p) = BLE_populateNmpHdr p NMP_OP_WRITE NMP_GROUP_IMAGE NMP_ID_IMAGE_UPLOAD (of_nat (length body));
                 (response, p) = BLE_txNmp p hdr body in
         case response of
           RxNull \<Rightarrow> (BleFail, p)
         | RxOverrun \<Rightarrow> (BleOverrun, p)
         | RxMsg _ \<Rightarrow>
             if \<not> nmp_answers (ble_res p) NMP_OP_WRITE_RSP NMP_GROUP_IMAGE NMP_ID_IMAGE_UPLOAD then (BleFail, p)
             else txImage_loop cbor slot (drop readCount file) (remaining - of_nat readCount) (offset + readCount) p)))"
  by pat_completeness auto

text \<open>Every round reads at least one byte of the file, so the loop ends.\<close>

lemma read_decreases: "\<lbrakk> min n (read_count r) = read_count r; r \<noteq> 0 \<rbrakk> \<Longrightarrow> n - read_count r < n"
  using unat_gt_0 [of r] by (auto simp: read_count_def min_def split: if_splits)

termination txImage_loop
  by (relation "measure (\<lambda>(_, _, file, _, _, _). length file)") (auto simp: read_decreases split: if_splits)

declare txImage_loop.simps [simp del]

text \<open>\<open>BLE_txImage\<close> on a file that may not open, or not be examined (\<open>None\<close>); the size comes from
  \<^verbatim>\<open>stat\<close>.\<close>

definition BLE_txImage :: "cbor_encoder \<Rightarrow> (bytes \<times> nat option) option \<Rightarrow> int \<Rightarrow> ble_port \<Rightarrow> ble_outcome \<times> ble_port" where
  "BLE_txImage cbor f slot p =
    (case f of
       None \<Rightarrow> (BleFail, p)
     | Some (_, None) \<Rightarrow> (BleFail, p)
     | Some (file, Some st_size) \<Rightarrow>
         (let slot = (if slot < 0 \<or> slot > 1 then 0 else slot)
          in txImage_loop cbor slot file (of_nat st_size) 0 p))"

section \<open>Reset and the whole programming run\<close>

text \<open>One pulse of the reset line.\<close>

definition BLE_reset :: "ble_port \<Rightarrow> ble_port" where
  "BLE_reset p = p\<lparr>resets := resets p + 1\<rparr>"

definition ready_line :: bytes where
  "ready_line = map of_char ''ready''"

text \<open>The reset loop, with \<^verbatim>\<open>retries\<close> as it stands when the loop is left: it is decremented by
  the loop test, also by the one that fails.\<close>

function reset_loop :: "int \<Rightarrow> ble_port \<Rightarrow> int \<times> ble_port" where
  "reset_loop retries p =
    (if retries > 0
     then (let retries = retries - 1; (_, p) = BLE_getLine (BLE_reset p)
           in if take 5 (ble_res p) = ready_line then (retries, p) else reset_loop retries p)
     else (retries - 1, p))"
  by pat_completeness auto
termination
  by (relation "measure (\<lambda>(retries, _). nat retries)") auto

declare reset_loop.simps [simp del]

definition BLE_vendorProgram :: "cbor_encoder \<Rightarrow> (bytes \<times> nat option) option \<Rightarrow> int \<Rightarrow> ble_port \<Rightarrow> ble_outcome \<times> ble_port" where
  "BLE_vendorProgram cbor f slot p =
    (let (retries, p) = reset_loop (int MAX_BLE_RESET_ATTEMPTS) p in
     if retries \<le> 0 then (BleFail, BLE_reset p)
     else (let (res, p) = BLE_ping p in
       if res = BleOverrun then (BleOverrun, p)
       else if res = BleFail then (BleFail, BLE_reset p)
       else (let (res, p) = BLE_txImage cbor f slot p in
         if res = BleOverrun then (BleOverrun, p)
         else if res = BleFail then (BleFail, BLE_reset p)
         else (BleOk, BLE_reset p))))"

text \<open>\<open>main\<close> of \<^verbatim>\<open>ble_prog.c\<close> on the options \<^verbatim>\<open>getopt\<close> delivers; \<open>None\<close> marks a run in which the
  programmer reads outside its buffers.\<close>

datatype ble_opt = OptHelp | OptSlot int | OptUnknown

fun ble_options :: "ble_opt list \<Rightarrow> int \<Rightarrow> nat + int" where
  "ble_options [] slot = Inr slot"
| "ble_options (OptHelp # opts) slot = Inl 0"
| "ble_options (OptSlot s # opts) slot = ble_options opts s"
| "ble_options (OptUnknown # opts) slot = Inl 1"

definition ble_prog_main :: "cbor_encoder \<Rightarrow> ble_opt list \<Rightarrow> (bytes \<times> nat option) option option \<Rightarrow> bool \<Rightarrow> ble_port \<Rightarrow> nat option \<times> ble_port" where
  "ble_prog_main cbor opts filearg uart_open p =
    (case ble_options opts 0 of
       Inl code \<Rightarrow> (Some code, p)
     | Inr slot \<Rightarrow>
         (case filearg of
            None \<Rightarrow> (Some 1, p)
          | Some f \<Rightarrow>
              if \<not> uart_open then (Some 1, p)
              else (case BLE_vendorProgram cbor f slot p of
                  (BleOk, p) \<Rightarrow> (Some 0, p)
                | (BleFail, p) \<Rightarrow> (Some 1, p)
                | (BleOverrun, p) \<Rightarrow> (None, p))))"

section \<open>Burst errors\<close>

lemma crc_shift_False_eq_0: "crc_shift False s = 0 \<longleftrightarrow> s = 0"
proof
  assume z: "crc_shift False s = 0"
  have "bit (crc_shift False s) 0 \<longleftrightarrow> bit s 15"
    by (simp add: crc_shift_def xmask_def bit_0 even_xor_iff)
  with z have top: "\<not> bit s 15" by simp
  then have z': "push_bit 1 s = 0"
    using z by (simp add: crc_shift_def xmask_def)
  show "s = 0"
  proof (rule bit_word_eqI)
    fix n assume "n < LENGTH(16)"
    show "bit s n \<longleftrightarrow> bit 0 n"
    proof (cases "n = 15")
      case False
      with \<open>n < LENGTH(16)\<close> have "bit (push_bit 1 s) (Suc n) \<longleftrightarrow> bit s n"
        by (simp only: bit_push_bit_iff) auto
      with z' show ?thesis by simp
    qed (simp add: top)
  qed
qed (simp add: crc_shift_def xmask_def)

lemma funpow_crc_shift_eq_0: "(crc_shift False ^^ n) s = 0 \<longleftrightarrow> s = 0"
  by (induction n arbitrary: s) (simp_all add: crc_shift_False_eq_0)

lemma msb_val_eq_0: "msb_val bs = 0 \<longleftrightarrow> True \<notin> set bs"
  by (induction bs rule: rev_induct) (auto simp: msb_val_def)

lemma length_byte_bits [simp]: "length (byte_bits c) = 8"
  by (simp add: byte_bits_def)

lemma byte_bits_inj: "byte_bits a = byte_bits b \<Longrightarrow> a = b"
  by (rule u8_eqI) (simp_all add: byte_bits_def)

lemma map2_neq_self: "map2 (\<noteq>) xs xs = replicate (length xs) False"
  by (induction xs) auto

lemma map2_neq_eq:
  "length xs = length ys \<Longrightarrow> True \<notin> set (map2 (\<noteq>) xs ys) \<longleftrightarrow> xs = ys"
  by (induction xs ys rule: list_induct2) auto

lemma crc16_burst:
  assumes "(a, b) \<noteq> (a', b')"
  shows "crc16 (xs @ [a, b] @ ys) pad \<noteq> crc16 (xs @ [a', b'] @ ys) pad"
proof
  assume eq: "crc16 (xs @ [a, b] @ ys) pad = crc16 (xs @ [a', b'] @ ys) pad"
  let ?s = "fold crc_shift (bits_of xs) 0" and ?e = "bits_of [a, b]" and ?e' = "bits_of [a', b']"
  let ?t = "bits_of ys @ replicate (if pad then 16 else 0) False"
  let ?d = "map2 (\<noteq>) ?e ?e'"
  have len: "length ?e = 16" "length ?e' = 16"
    by (simp_all add: bits_of_def)
  have "fold crc_shift (?e @ ?t) ?s XOR fold crc_shift (?e' @ ?t) ?s =
      fold crc_shift (map2 (\<noteq>) (?e @ ?t) (?e' @ ?t)) (?s XOR ?s)"
    by (rule fold_crc_shift_xor [symmetric]) (simp add: len)
  also have "map2 (\<noteq>) (?e @ ?t) (?e' @ ?t) = ?d @ map2 (\<noteq>) ?t ?t"
    using len by (simp only: zip_append map_append)
  also have "map2 (\<noteq>) ?t ?t = replicate (length ?t) False"
    by (rule map2_neq_self)
  finally have "(crc_shift False ^^ length ?t) (fold crc_shift ?d 0) =
      fold crc_shift (?e @ ?t) ?s XOR fold crc_shift (?e' @ ?t) ?s"
    by (simp only: fold_append fold_replicate comp_def xor_self_eq)
  also have "\<dots> = 0"
    using eq by (simp only: crc16_conv bits_of_append fold_append comp_def xor_self_eq)
  finally have "fold crc_shift ?d 0 = 0"
    by (simp only: funpow_crc_shift_eq_0)
  then have "of_nat (msb_val ?d) = (0 :: u16)"
    using crc_shift_in [of ?d] len by simp
  moreover have "msb_val ?d < 2 ^ 16"
    using msb_val_less [of ?d] len by simp
  ultimately have "msb_val ?d = 0"
    by (auto simp: word_of_nat_eq_0_iff dest: dvd_imp_le)
  then have "?e = ?e'"
    using map2_neq_eq [of ?e ?e'] len by (simp only: msb_val_eq_0)
  then show False
    using assms byte_bits_inj by (auto simp: bits_of_def)
qed

section \<open>Frames on the line\<close>

fun nlip_lines :: "bool \<Rightarrow> bytes list \<Rightarrow> bytes list" where
  "nlip_lines first [] = []"
| "nlip_lines first (c # cs) = [if first then pkt_start else pkt_cont, c, [chr_lf]] @ nlip_lines False cs"

lemma tx_chunks_lines:
  assumes "tx_chunks p encoded written = (True, p')"
  shows "\<exists>chunks. concat chunks = drop written encoded \<and>
    (\<forall>c \<in> set chunks. c \<noteq> [] \<and> length c \<le> 124) \<and>
    p' = p\<lparr>sent := sent p @ nlip_lines (written = 0) chunks\<rparr>"
  using assms
proof (induction "length encoded - written" arbitrary: p written rule: less_induct)
  case less
  show ?case
  proof (cases "written < length encoded")
    case True
    let ?n = "if 124 < length encoded - written then 124 else length encoded - written"
    let ?c = "take ?n (drop written encoded)"
    let ?h = "if written = 0 then pkt_start else pkt_cont"
    let ?p = "p\<lparr>sent := sent p @ [?h, ?c, [chr_lf]]\<rparr>"
    have rec: "tx_chunks ?p encoded (written + ?n) = (True, p')"
      using less.prems True
      by (simp add: tx_chunks.simps [of p] BLE_txRaw_def Let_def split: if_splits)
    have "\<exists>chunks. concat chunks = drop (written + ?n) encoded \<and>
      (\<forall>c \<in> set chunks. c \<noteq> [] \<and> length c \<le> 124) \<and>
      p' = ?p\<lparr>sent := sent ?p @ nlip_lines (written + ?n = 0) chunks\<rparr>"
      by (rule less.hyps [OF _ rec]) (use True in auto)
    then obtain chunks where chunks: "concat chunks = drop (written + ?n) encoded"
      "\<forall>c \<in> set chunks. c \<noteq> [] \<and> length c \<le> 124"
      "p' = ?p\<lparr>sent := sent ?p @ nlip_lines (written + ?n = 0) chunks\<rparr>"
      by blast
    have "?n \<noteq> 0" "?c \<noteq> []" "length ?c \<le> 124"
      using True by auto
    moreover have "?c @ drop (written + ?n) encoded = drop written encoded"
      by (metis append_take_drop_id drop_drop add.commute)
    ultimately show ?thesis
      using chunks by (intro exI [of _ "?c # chunks"]) auto
  next
    case False
    then show ?thesis
      using less.prems by (intro exI [of _ "[]"]) (simp add: tx_chunks.simps [of p])
  qed
qed

lemma getLine_loop_line:
  assumes "chr_lf \<notin> set bs" "index + length bs < maxLen" "maxLen \<le> length buf"
  shows "getLine_loop (map RxByte bs @ RxByte chr_lf # r) buf index maxLen =
    (index + length bs, take index buf @ bs @ drop (index + length bs) buf, r)"
  using assms
proof (induction bs arbitrary: buf index)
  case (Cons b bs)
  have "take (Suc index) (buf[index := b]) = take index buf @ [b]"
    using Cons.prems by (simp add: take_Suc_conv_app_nth)
  with Cons show ?case by simp
qed simp

lemma unat_hi_lo: "unat (hi8 n) * 256 + unat (lo8 n) = unat n"
proof -
  have hi: "hi8 n = ucast (drop_bit 8 n)"
    by (rule u8_eqI) (simp_all add: hi8_def bit_simps)
  have lo: "lo8 n = ucast n"
    by (rule u8_eqI) (simp_all add: lo8_def bit_simps)
  have "unat n < 65536"
    using unsigned_less [of n] by simp
  then have "unat n div 256 mod 256 = unat n div 256"
    by simp
  then show ?thesis
    by (simp add: hi lo unsigned_ucast_eq take_bit_eq_mod drop_bit_eq_div unat_div)
qed

lemma decode_nlip_packet:
  assumes "length buf + 4 \<le> 512"
  shows "base64_decode True 512 (base64_encode_loop (nlip_packet buf)) = Inr (nlip_packet buf)"
  by (rule decode_encode_fits) (use assms in \<open>simp add: nlip_packet_def Let_def\<close>)

lemma enc_char_neq: "enc_char v \<noteq> chr_lf" "enc_char v \<noteq> chr_cr"
  using b64_data_enc_char [of v] by (auto simp: b64_data_def)

lemma b64_chars: "c \<in> set (base64_encode_loop src) \<Longrightarrow> c \<noteq> chr_lf \<and> c \<noteq> chr_cr"
  by (induction src rule: base64_encode_loop.induct) (auto simp: enc_char_neq)

text \<open>The line a peer sends for a packet that fits on one line.\<close>

definition nlip_reply :: "bytes \<Rightarrow> bytes" where
  "nlip_reply buf = pkt_start @ base64_encode_loop (nlip_packet buf) @ [chr_cr]"

lemma unat_of_nat_u16: "n < 65536 \<Longrightarrow> unat (of_nat n :: u16) = n"
  by (simp add: unsigned_of_nat take_bit_eq_mod)

lemma nlip_packet_fields:
  assumes "length buf < 65534"
  shows "unat (nlip_packet buf ! 0) * 256 + unat (nlip_packet buf ! 1) = length buf + 2"
    "drop 2 (nlip_packet buf) = buf @ [hi8 (crc16 buf True), lo8 (crc16 buf True)]"
  using assms unat_hi_lo [of "of_nat (length buf + 2)"] unat_of_nat_u16 [of "length buf + 2"]
  by (simp_all add: nlip_packet_def Let_def)

lemma rx_line_reply:
  fixes buf rest :: bytes
  defines "msg \<equiv> buf @ [hi8 (crc16 buf True), lo8 (crc16 buf True)]"
  assumes "length buf \<le> 376"
  shows "rx_line_step (nlip_reply buf @ rest) (length (nlip_reply buf)) =
    (LineMsg msg, overlay msg (nlip_reply buf @ rest))"
proof -
  let ?pkt = "nlip_packet buf"
  have len: "length ?pkt = length buf + 4"
    by (simp add: nlip_packet_def Let_def)
  have "4 * b64_groups (length ?pkt) + 3 < 512"
    using assms(2) div_le_mono [of "length buf + 4" 380 3] by (simp add: len b64_groups_def)
  with assms(2) len nlip_packet_fields [of buf] decode_nlip_packet [of buf] show ?thesis
    by (auto simp: rx_line_step_def nlip_reply_def Let_def msg_def)
qed

lemma nlip_reply_no_lf: "chr_lf \<notin> set (nlip_reply buf)"
  using b64_chars by (auto simp: nlip_reply_def)

lemma length_nlip_reply: "length buf \<le> 376 \<Longrightarrow> length (nlip_reply buf) < 512"
  using div_le_mono [of "4 + length buf" 380 3]
  by (simp add: nlip_reply_def nlip_packet_def Let_def b64_groups_def)

lemma getMsg_reply:
  assumes "rx p = map RxByte (nlip_reply buf) @ RxByte chr_lf # r" "0 < rx_polls p"
    and "length (ble_res p) = 512" "length buf \<le> 376"
  shows "\<exists>p'. BLE_getMsg p = (RxMsg (buf @ [hi8 (crc16 buf True), lo8 (crc16 buf True)]), p') \<and> rx p' = r"
proof -
  obtain polls where polls: "rx_polls p = Suc polls"
    using assms(2) by (cases "rx_polls p") auto
  have line: "getLine_loop (rx p) (ble_res p) 0 512 =
      (length (nlip_reply buf), nlip_reply buf @ drop (length (nlip_reply buf)) (ble_res p), r)"
    using getLine_loop_line [OF nlip_reply_no_lf, of 0 buf 512 "ble_res p" r] assms length_nlip_reply
    by simp
  show ?thesis
    by (simp add: BLE_getMsg_def polls BLE_getLine_def line rx_line_reply [OF assms(4)])
qed

text \<open>A line that starts as a continuation never completes a message.\<close>

lemma rx_line_cont:
  assumes "rx_line_step res n = (LineMsg m, res')"
  shows "take 2 res = pkt_start \<or> (res ! 0 = chr_cr \<and> take 2 (drop 1 res) = pkt_start)"
  using assms
  by (auto simp: rx_line_step_def Let_def split: if_splits sum.splits)

section \<open>Reset attempts\<close>

definition reset_attempt :: "ble_port \<Rightarrow> ble_port" where
  "reset_attempt p = snd (BLE_getLine (BLE_reset p))"

definition is_ready :: "ble_port \<Rightarrow> bool" where
  "is_ready p \<longleftrightarrow> take 5 (ble_res p) = ready_line"

lemma reset_loop_conv:
  "reset_loop n p = (if n > 0 then (let p = reset_attempt p in if is_ready p then (n - 1, p) else reset_loop (n - 1) p) else (n - 1, p))"
  by (subst reset_loop.simps) (auto simp: reset_attempt_def is_ready_def Let_def split: prod.splits)

lemma reset_loop_ready:
  assumes "k < nat n" "\<forall>i < k. \<not> is_ready ((reset_attempt ^^ Suc i) p)" "is_ready ((reset_attempt ^^ Suc k) p)"
  shows "reset_loop n p = (n - 1 - int k, (reset_attempt ^^ Suc k) p)"
  using assms
proof (induction k arbitrary: n p)
  case 0
  then show ?case
    by (subst reset_loop_conv) (simp add: Let_def)
next
  case (Suc k)
  have sh: "(reset_attempt ^^ m) (reset_attempt p) = (reset_attempt ^^ Suc m) p" for m
    by (simp add: funpow_Suc_right del: funpow.simps)
  have "\<not> is_ready (reset_attempt p)"
    using Suc.prems(2) by (auto dest: spec [of _ 0])
  moreover have "reset_loop (n - 1) (reset_attempt p) = (n - 1 - 1 - int k, (reset_attempt ^^ Suc k) (reset_attempt p))"
  proof (rule Suc.IH)
    show "k < nat (n - 1)"
      using Suc.prems(1) by simp
    show "\<forall>i < k. \<not> is_ready ((reset_attempt ^^ Suc i) (reset_attempt p))"
      using Suc.prems(2) [rule_format, of "Suc i" for i] by (simp only: sh Suc_less_eq) simp
    show "is_ready ((reset_attempt ^^ Suc k) (reset_attempt p))"
      using Suc.prems(3) by (simp only: sh)
  qed
  ultimately show ?case
    using Suc.prems(1) by (subst reset_loop_conv) (simp add: Let_def sh del: funpow.simps)
qed

section \<open>The upload sends the whole file\<close>

lemma tx_chunks_frame:
  assumes "tx_chunks p encoded written = (ok, p')"
  shows "requests p' = requests p \<and> curSeq p' = curSeq p \<and> resets p' = resets p"
  using assms
proof (induction "length encoded - written" arbitrary: p written rule: less_induct)
  case less
  show ?case
  proof (cases "written < length encoded")
    case True
    let ?n = "if 124 < length encoded - written then 124 else length encoded - written"
    have "length encoded - (written + ?n) < length encoded - written"
      using True by auto
    note IH = less.hyps [OF this]
    show ?thesis
      using less.prems True IH
      by (fastforce simp: tx_chunks.simps [of p] BLE_txRaw_def Let_def split: if_splits)
  next
    case False
    then show ?thesis
      using less.prems by (simp add: tx_chunks.simps [of p])
  qed
qed

lemma BLE_tx_frame:
  "BLE_tx p buf = (ok, p') \<Longrightarrow> requests p' = requests p \<and> curSeq p' = curSeq p \<and> resets p' = resets p"
  by (auto simp: BLE_tx_def split: sum.splits prod.splits dest: tx_chunks_frame)

lemma BLE_getLine_frame:
  "BLE_getLine p = (n, p') \<Longrightarrow> requests p' = requests p \<and> curSeq p' = curSeq p \<and> resets p' = resets p"
  by (auto simp: BLE_getLine_def split: prod.splits)

lemma getMsg_loop_frame:
  "getMsg_loop polls p = (m, p') \<Longrightarrow> requests p' = requests p \<and> curSeq p' = curSeq p \<and> resets p' = resets p"
proof (induction polls arbitrary: p)
  case (Suc polls)
  obtain n p1 where line: "BLE_getLine p = (n, p1)" by fastforce
  obtain step res where step: "rx_line_step (ble_res p1) n = (step, res)" by fastforce
  have "requests p1 = requests p \<and> curSeq p1 = curSeq p \<and> resets p1 = resets p"
    by (rule BLE_getLine_frame [OF line])
  then show ?case
    using Suc.prems Suc.IH [of "p1\<lparr>ble_res := res\<rparr>"] line step
    by (cases step) auto
qed simp

lemma BLE_txNmp_frame:
  assumes "BLE_txNmp p hdr body = (m, p')"
  shows "requests p' = requests p @ [(take 8 hdr, body)] \<and> curSeq p' = curSeq p \<and> resets p' = resets p"
proof -
  let ?p = "p\<lparr>requests := requests p @ [(take 8 hdr, body)]\<rparr>"
  obtain ok p1 where tx: "BLE_tx ?p (take 8 hdr @ body) = (ok, p1)" by fastforce
  from BLE_tx_frame [OF tx] show ?thesis
    using assms tx by (auto simp: BLE_txNmp_def BLE_getMsg_def split: if_splits dest: getMsg_loop_frame)
qed

lemma unat_of_nat_u32: "n < 2 ^ 32 \<Longrightarrow> unat (of_nat n :: u32) = n"
  by (simp add: unsigned_of_nat take_bit_eq_mod)

lemma upload_len_mask:
  assumes "n < 2 ^ 24" "slot = 0 \<or> slot = 1"
  shows "upload_len (of_nat n) slot AND 0x00FFFFFF = of_nat n"
proof -
  have mask: "w AND 0x00FFFFFF = take_bit 24 w" for w :: u32
    by (simp add: take_bit_eq_mask mask_eq_exp_minus_1)
  have self: "take_bit 24 (of_nat n :: u32) = of_nat n"
    using assms(1) by (simp add: take_bit_of_nat take_bit_nat_eq_self)
  have "take_bit 24 (of_nat n OR push_bit 24 1 :: u32) = of_nat n"
    by (simp only: take_bit_or self) (simp add: take_bit_push_bit)
  with assms(2) self show ?thesis
    by (auto simp: upload_len_def mask)
qed

definition upload_request :: "cbor_encoder \<Rightarrow> int \<Rightarrow> bytes \<Rightarrow> u8 \<Rightarrow> nat \<Rightarrow> bytes \<times> bytes" where
  "upload_request cbor slot file seq i =
    (let body = cbor (196 * i)
       (if i = 0 then Some (upload_len (of_nat (length file)) slot) else None)
       (take 196 (drop (196 * i) file));
       len = of_nat (length body)
     in ([2, 0, hi8 len, lo8 len, hi8 1, lo8 1, seq + of_nat i, 1], body))"

definition upload_chunks :: "bytes \<Rightarrow> nat" where
  "upload_chunks file = (length file + 195) div 196"

lemma upload_chunks_step:
  assumes "196 * i < length file"
  shows "i < upload_chunks file"
  using assms by (simp add: upload_chunks_def less_eq_div_iff_mult_less_eq flip: Suc_le_eq)

lemma upload_chunks_last:
  assumes "length file \<le> 196 * i"
  shows "upload_chunks file \<le> i"
proof -
  have "(length file + 195) div 196 \<le> (196 * i + 195) div 196"
    using assms by (intro div_le_mono) simp
  then show ?thesis by (simp add: upload_chunks_def)
qed

lemma txImage_loop_Ok:
  assumes run: "txImage_loop cbor slot file remaining off p = (BleOk, p')" and nz: "remaining \<noteq> 0"
    and body: "body = cbor off (if off = 0 then Some (upload_len remaining slot) else None) (take (read_count remaining) file)"
    and hdr: "hdr = [2, 0, hi8 (of_nat (length body)), lo8 (of_nat (length body)), hi8 1, lo8 1, curSeq p, 1]"
  shows "\<exists>msg p2. BLE_txNmp (p\<lparr>curSeq := curSeq p + 1\<rparr>) hdr body = (RxMsg msg, p2) \<and>
    read_count remaining \<le> length file \<and>
    txImage_loop cbor slot (drop (read_count remaining) file)
      ((if off = 0 then upload_len remaining slot AND 0x00FFFFFF else remaining) - of_nat (read_count remaining))
      (off + read_count remaining) p2 = (BleOk, p')"
proof -
  obtain m p2 where tx: "BLE_txNmp (p\<lparr>curSeq := curSeq p + 1\<rparr>) hdr body = (m, p2)" by fastforce
  have pop: "BLE_populateNmpHdr p 2 1 1 (of_nat (length body)) = (hdr, p\<lparr>curSeq := curSeq p + 1\<rparr>)"
    by (simp add: BLE_populateNmpHdr_def hdr)
  note step = run [unfolded txImage_loop.simps [of cbor slot "file" remaining off p] Let_def
      body [symmetric] pop prod.case tx]
  show ?thesis
    using step nz tx
    by (cases m) (auto split: if_splits)
qed

lemma txImage_loop_requests:
  assumes "txImage_loop cbor slot (drop (196 * i) file) (of_nat (length file - 196 * i)) off p = (BleOk, p')"
    and "length file < 2 ^ 24" "slot = 0 \<or> slot = 1" "196 * i < length file \<Longrightarrow> off = 196 * i"
  shows "requests p' = requests p @ map (upload_request cbor slot file (curSeq p - of_nat i)) [i..<upload_chunks file] \<and>
    curSeq p' = curSeq p + of_nat (upload_chunks file - i) \<and> resets p' = resets p"
  using assms(1,4)
proof (induction "length file - 196 * i" arbitrary: i off p rule: less_induct)
  case less
  let ?L = "length file - 196 * i" and ?rest = "drop (196 * i) file"
  have small: "?L < 2 ^ 24"
    using assms(2) by simp
  then have unat: "unat (of_nat ?L :: u32) = ?L"
    by (intro unat_of_nat_u32) simp
  show ?case
  proof (cases "?L = 0")
    case True
    then have "p' = p" "upload_chunks file \<le> i"
      using less.prems(1) upload_chunks_last [of "file" i] by (simp_all add: txImage_loop.simps)
    then show ?thesis by simp
  next
    case False
    then have off: "off = 196 * i" and nz: "of_nat ?L \<noteq> (0 :: u32)"
      using less.prems(2) unat by auto
    let ?req = "upload_request cbor slot file (curSeq p - of_nat i)"
    have rc: "read_count (of_nat ?L) = min 196 ?L"
      using unat by (auto simp: read_count_def word_less_nat_alt)
    have data: "take (min 196 ?L) ?rest = take 196 ?rest"
      by (simp add: min_def)
    have masked: "(if off = 0 then upload_len (of_nat ?L) slot AND 0x00FFFFFF else of_nat ?L) = (of_nat ?L :: u32)"
      using upload_len_mask [OF small assms(3)] by simp
    have diff: "of_nat ?L - of_nat (min 196 ?L) = (of_nat (?L - min 196 ?L) :: u32)"
      by (rule of_nat_diff [symmetric]) simp
    have left: "?L - min 196 ?L = length file - 196 * Suc i"
      by auto
    have body: "snd (?req i) = cbor off (if off = 0 then Some (upload_len (of_nat ?L) slot) else None) (take (read_count (of_nat ?L)) ?rest)"
      unfolding rc data by (simp add: off upload_request_def Let_def)
    have hdr: "fst (?req i) = [2, 0, hi8 (of_nat (length (snd (?req i)))), lo8 (of_nat (length (snd (?req i)))), hi8 1, lo8 1, curSeq p, 1]"
      by (simp add: upload_request_def Let_def)
    obtain msg p2 where tx: "BLE_txNmp (p\<lparr>curSeq := curSeq p + 1\<rparr>) (fst (?req i)) (snd (?req i)) = (RxMsg msg, p2)"
      and rec: "txImage_loop cbor slot (drop (min 196 ?L) ?rest) (of_nat (length file - 196 * Suc i)) (off + min 196 ?L) p2 = (BleOk, p')"
      using txImage_loop_Ok [OF less.prems(1) nz body hdr] unfolding rc masked diff left by blast
    have dr: "drop (min 196 ?L) ?rest = drop (196 * Suc i) file"
      by (simp add: min_def add.commute)
    have p2: "requests p2 = requests p @ [?req i]" "curSeq p2 = curSeq p + 1" "resets p2 = resets p"
      using BLE_txNmp_frame [OF tx] by (simp_all add: upload_request_def Let_def)
    have "requests p' = requests p2 @ map (upload_request cbor slot file (curSeq p2 - of_nat (Suc i))) [Suc i..<upload_chunks file] \<and>
      curSeq p' = curSeq p2 + of_nat (upload_chunks file - Suc i) \<and> resets p' = resets p2"
      by (rule less.hyps [OF _ rec [unfolded dr]]) (use False off in auto)
    moreover have "i < upload_chunks file"
      using False by (intro upload_chunks_step) simp
    ultimately show ?thesis
      by (simp add: p2 upt_conv_Cons of_nat_diff)
  qed
qed

lemma concat_chunks: "concat (map (\<lambda>i. take k (drop (k * i) xs)) [0..<n]) = take (k * n) xs"
proof (induction n)
  case (Suc n)
  have "k * Suc n = k * n + k" by simp
  then show ?case
    using Suc by (simp only: take_add upt_Suc) simp
qed simp

lemma upload_chunks_cover: "length file \<le> 196 * upload_chunks file"
  using upload_chunks_step [of "upload_chunks file" "file"] by fastforce

section \<open>Properties\<close>

text \<open>C19: the checksum of a message followed by its own checksum, high byte first, is zero: the
  test the receiver makes accepts every packet the sender builds.\<close>

theorem crc16_residue_zero: "crc16 (data @ [hi8 (crc16 data True), lo8 (crc16 data True)]) True = 0"
  by (rule crc16_residue)



text \<open>C21: a packet that \<open>BLE_tx\<close> reports as sent is on the line in full: the base64 form of the length,
  the data and the checksum, cut into non-empty pieces of at most 124 characters, each between its
  two-byte header (start for the first, continuation for the others) and a newline, so that no line
  exceeds 127 bytes.\<close>

theorem BLE_tx_lines:
  assumes "BLE_tx p buf = (True, p')"
  shows "\<exists>chunks. concat chunks = base64_encode_loop (nlip_packet buf) \<and>
    (\<forall>c \<in> set chunks. c \<noteq> [] \<and> length c \<le> 124) \<and>
    p' = p\<lparr>sent := sent p @ nlip_lines True chunks\<rparr>"
proof -
  obtain out olen where enc: "base64_encode True 512 (nlip_packet buf) = Inr (out, olen)"
    and tx: "tx_chunks p (take olen out) 0 = (True, p')"
    using assms by (auto simp: BLE_tx_def split: sum.splits)
  then show ?thesis
    using tx_chunks_lines [OF tx] encode_Inr_D(1) [OF enc] by simp
qed

definition silent_port :: "rx_event list \<Rightarrow> ble_port" where
  "silent_port ev = \<lparr>rx = ev, rx_polls = 3, sent = [], write_ok = (\<lambda>_. True), ble_res = replicate 512 0,
    curSeq = 0, requests = [], resets = 0\<rparr>"

lemma tx_chunks_all_ok:
  "(\<And>n. write_ok p n) \<Longrightarrow> fst (tx_chunks p encoded written)"
proof (induction "length encoded - written" arbitrary: p written rule: less_induct)
  case less
  show ?case
  proof (cases "written < length encoded")
    case True
    let ?n = "if 124 < length encoded - written then 124 else length encoded - written"
    have "length encoded - (written + ?n) < length encoded - written"
      using True by auto
    note IH = less.hyps [OF this]
    show ?thesis
      unfolding tx_chunks.simps [of p]
      using True less.prems by (simp add: BLE_txRaw_def Let_def IH)
  qed (simp add: tx_chunks.simps)
qed

lemma encode_packet_fits:
  assumes "length buf \<le> 376"
  shows "base64_encode True 512 (nlip_packet buf) =
    Inr (base64_encode_loop (nlip_packet buf) @ [0], 4 * b64_groups (length buf + 4))"
proof -
  have "length (nlip_packet buf) = length buf + 4"
    by (simp add: nlip_packet_def Let_def)
  moreover have "b64_groups (length buf + 4) \<le> 127"
    using div_le_mono [of "length buf + 4" 380 3] assms by (simp add: b64_groups_def)
  moreover have "nlip_packet buf \<noteq> []"
    by (simp add: nlip_packet_def Let_def)
  ultimately show ?thesis
    by (simp add: base64_encode_def BASE64_SIZE_T_MAX_def Let_def)
qed

theorem BLE_tx_lines_witness:
  "\<exists>p' chunks. BLE_tx (silent_port []) [1, 2, 3] = (True, p') \<and>
    concat chunks = base64_encode_loop (nlip_packet [1, 2, 3]) \<and>
    (\<forall>c \<in> set chunks. c \<noteq> [] \<and> length c \<le> 124) \<and>
    p' = (silent_port [])\<lparr>sent := sent (silent_port []) @ nlip_lines True chunks\<rparr>"
proof -
  have "fst (BLE_tx (silent_port []) [1, 2, 3])"
    using encode_packet_fits [of "[1, 2, 3]"] by (simp add: BLE_tx_def tx_chunks_all_ok silent_port_def)
  then obtain p' where run: "BLE_tx (silent_port []) [1, 2, 3] = (True, p')"
    by (cases "BLE_tx (silent_port []) [1, 2, 3]") auto
  from run BLE_tx_lines [OF run] show ?thesis by blast
qed

text \<open>The receiver decodes what a peer frames: when the next line is the packet of \<open>buf\<close>, the
  message returned is \<open>buf\<close> with its checksum, and exactly that line is consumed.\<close>

theorem BLE_getMsg_reply:
  assumes "rx p = map RxByte (nlip_reply buf) @ RxByte chr_lf # r" "0 < rx_polls p"
    and "length (ble_res p) = 512" "length buf \<le> 376"
  shows "\<exists>p'. BLE_getMsg p = (RxMsg (buf @ [hi8 (crc16 buf True), lo8 (crc16 buf True)]), p') \<and> rx p' = r"
  using assms by (rule getMsg_reply)

theorem BLE_getMsg_reply_witness:
  "\<exists>p'. BLE_getMsg (silent_port (map RxByte (nlip_reply [1, 2]) @ [RxByte chr_lf, RxTimeout])) =
    (RxMsg ([1, 2] @ [hi8 (crc16 [1, 2] True), lo8 (crc16 [1, 2] True)]), p') \<and> rx p' = [RxTimeout]"
  by (rule BLE_getMsg_reply) (simp_all add: silent_port_def)

text \<open>The receiver never joins lines: whatever line completes a message starts with the packet
  start marker, so a message that the radio sends in several lines is never delivered.\<close>

theorem rx_message_single_line:
  assumes "rx_line_step res n = (LineMsg m, res')"
  shows "take 2 res = pkt_start \<or> (res ! 0 = chr_cr \<and> take 2 (drop 1 res) = pkt_start)"
  using assms by (rule rx_line_cont)

theorem rx_message_single_line_witness:
  "\<exists>m res'. rx_line_step (nlip_reply [1, 2] @ []) (length (nlip_reply [1, 2])) = (LineMsg m, res') \<and>
    (take 2 (nlip_reply [1, 2] @ []) = pkt_start \<or>
     ((nlip_reply [1, 2] @ []) ! 0 = chr_cr \<and> take 2 (drop 1 (nlip_reply [1, 2] @ [])) = pkt_start))"
proof -
  have len: "length [1, 2 :: u8] \<le> 376" by simp
  from rx_line_reply [OF len, of "[]"] rx_message_single_line [OF rx_line_reply [OF len, of "[]"]]
  show ?thesis by blast
qed


section \<open>A radio that answers\<close>

definition answer_line :: "bytes \<Rightarrow> rx_event list" where
  "answer_line a = map RxByte (nlip_reply a) @ [RxByte chr_lf]"

definition good_answer :: "u8 \<Rightarrow> u16 \<Rightarrow> u8 \<Rightarrow> bytes \<Rightarrow> bool" where
  "good_answer op_rsp grp nmp_id a \<longleftrightarrow> 8 \<le> length a \<and> length a \<le> 376 \<and> nmp_answers a op_rsp grp nmp_id"

definition answering :: "ble_port \<Rightarrow> bytes list \<Rightarrow> bool" where
  "answering p as \<longleftrightarrow> (\<forall>n. write_ok p n) \<and> 0 < rx_polls p \<and> length (ble_res p) = 512 \<and>
    rx p = concat (map answer_line as)"

lemma tx_chunks_keeps:
  assumes "tx_chunks p encoded written = (ok, p')"
  shows "rx p' = rx p \<and> rx_polls p' = rx_polls p \<and> write_ok p' = write_ok p \<and> ble_res p' = ble_res p"
  using assms
proof (induction "length encoded - written" arbitrary: p written rule: less_induct)
  case less
  show ?case
  proof (cases "written < length encoded")
    case True
    let ?n = "if 124 < length encoded - written then 124 else length encoded - written"
    have "length encoded - (written + ?n) < length encoded - written"
      using True by auto
    note IH = less.hyps [OF this]
    show ?thesis
      using less.prems True IH
      by (fastforce simp: tx_chunks.simps [of p] BLE_txRaw_def Let_def split: if_splits)
  next
    case False
    then show ?thesis
      using less.prems by (simp add: tx_chunks.simps [of p])
  qed
qed

lemma BLE_tx_answering:
  assumes "answering p as" "length buf \<le> 376"
  shows "\<exists>p'. BLE_tx p buf = (True, p') \<and> answering p' as"
proof -
  let ?e = "base64_encode_loop (nlip_packet buf)"
  have tx: "BLE_tx p buf = tx_chunks p ?e 0"
    using encode_packet_fits [OF assms(2)] encode_Inr_D(1) [of True 512 "nlip_packet buf"]
    by (simp add: BLE_tx_def)
  obtain ok p' where run: "tx_chunks p ?e 0 = (ok, p')" by fastforce
  have "ok"
    using tx_chunks_all_ok [of p ?e 0] assms(1) run by (simp add: answering_def)
  with run tx tx_chunks_keeps [OF run] assms(1) show ?thesis
    by (auto simp: answering_def)
qed

lemma length_overlay: "length m \<le> length buf \<Longrightarrow> length (overlay m buf) = length buf"
  by (simp add: overlay_def)

lemma BLE_getMsg_answering:
  assumes "answering p (a # as)" "length a \<le> 376"
  shows "\<exists>p' msg. BLE_getMsg p = (RxMsg (a @ msg), p') \<and> answering p' as \<and> take (length a) (ble_res p') = a"
proof -
  let ?msg = "[hi8 (crc16 a True), lo8 (crc16 a True)]" and ?reply = "nlip_reply a"
  obtain polls where polls: "rx_polls p = Suc polls"
    using assms(1) by (cases "rx_polls p") (auto simp: answering_def)
  have line: "getLine_loop (rx p) (ble_res p) 0 512 =
      (length ?reply, ?reply @ drop (length ?reply) (ble_res p), concat (map answer_line as))"
    using getLine_loop_line [OF nlip_reply_no_lf, of 0 a 512 "ble_res p" "concat (map answer_line as)"]
      assms length_nlip_reply by (simp add: answering_def answer_line_def)
  define p' where "p' = p\<lparr>rx := concat (map answer_line as),
      ble_res := overlay (a @ ?msg) (?reply @ drop (length ?reply) (ble_res p))\<rparr>"
  have "BLE_getMsg p = (RxMsg (a @ ?msg), p')"
    by (simp add: BLE_getMsg_def polls BLE_getLine_def line rx_line_reply [OF assms(2)] p'_def)
  moreover have "length (overlay (a @ ?msg) (?reply @ drop (length ?reply) (ble_res p))) = 512"
    using length_nlip_reply [OF assms(2)] assms by (subst length_overlay) (simp_all add: answering_def)
  then have "answering p' as"
    using assms(1) by (auto simp: answering_def p'_def)
  moreover have "take (length a) (ble_res p') = a"
    by (simp add: p'_def overlay_def)
  ultimately show ?thesis by blast
qed

lemma BLE_txNmp_answering:
  assumes "answering p (a # as)" "good_answer op_rsp grp nmp_id a" "length (take 8 hdr @ body) \<le> 376"
  shows "\<exists>p' msg. BLE_txNmp p hdr body = (RxMsg msg, p') \<and> answering p' as \<and>
    nmp_answers (ble_res p') op_rsp grp nmp_id"
proof -
  let ?p = "p\<lparr>requests := requests p @ [(take 8 hdr, body)]\<rparr>"
  have "answering ?p (a # as)"
    using assms(1) by (simp add: answering_def)
  then obtain p1 where tx: "BLE_tx ?p (take 8 hdr @ body) = (True, p1)" and p1: "answering p1 (a # as)"
    using BLE_tx_answering assms(3) by blast
  obtain p' msg where msg: "BLE_getMsg p1 = (RxMsg (a @ msg), p')" "answering p' as"
      "take (length a) (ble_res p') = a"
    using BLE_getMsg_answering [OF p1] assms(2) by (auto simp: good_answer_def)
  have "ble_res p' ! i = a ! i" if "i < 8" for i
    using that msg(3) assms(2) nth_take [of i "length a" "ble_res p'"] by (simp add: good_answer_def)
  then have "nmp_answers (ble_res p') op_rsp grp nmp_id"
    using assms(2) by (simp add: good_answer_def nmp_answers_def)
  with tx msg show ?thesis
    by (simp add: BLE_txNmp_def)
qed

lemma txImage_loop_step:
  assumes nz: "remaining \<noteq> 0" and rc: "read_count remaining \<le> length file"
    and body: "body = cbor off (if off = 0 then Some (upload_len remaining slot) else None) (take (read_count remaining) file)"
    and hdr: "hdr = [2, 0, hi8 (of_nat (length body)), lo8 (of_nat (length body)), hi8 1, lo8 1, curSeq p, 1]"
    and tx: "BLE_txNmp (p\<lparr>curSeq := curSeq p + 1\<rparr>) hdr body = (RxMsg msg, p2)"
    and ok: "nmp_answers (ble_res p2) 3 1 1"
  shows "txImage_loop cbor slot file remaining off p =
    txImage_loop cbor slot (drop (read_count remaining) file)
      ((if off = 0 then upload_len remaining slot AND 0x00FFFFFF else remaining) - of_nat (read_count remaining))
      (off + read_count remaining) p2"
proof -
  have pop: "BLE_populateNmpHdr p 2 1 1 (of_nat (length body)) = (hdr, p\<lparr>curSeq := curSeq p + 1\<rparr>)"
    by (simp add: BLE_populateNmpHdr_def hdr)
  show ?thesis
    unfolding txImage_loop.simps [of cbor slot "file" remaining off p] Let_def body [symmetric] pop prod.case tx
    using nz rc ok by simp
qed

lemma txImage_loop_answering:
  assumes "answering p as" "length file - 196 * i \<le> 196 * length as" "list_all (good_answer 3 1 1) as"
    and "length file < 2 ^ 24" "slot = 0 \<or> slot = 1" "196 * i < length file \<Longrightarrow> off = 196 * i"
    and cbor: "\<And>off len data. length data \<le> 196 \<Longrightarrow> length (cbor off len data) \<le> 368"
  shows "\<exists>p'. txImage_loop cbor slot (drop (196 * i) file) (of_nat (length file - 196 * i)) off p = (BleOk, p')"
  using assms(1-3,6)
proof (induction as arbitrary: i off p)
  case Nil
  then show ?case by (simp add: txImage_loop.simps)
next
  case (Cons a as)
  let ?L = "length file - 196 * i" and ?rest = "drop (196 * i) file"
  have small: "?L < 2 ^ 24"
    using assms(4) by simp
  then have unat: "unat (of_nat ?L :: u32) = ?L"
    by (intro unat_of_nat_u32) simp
  show ?case
  proof (cases "?L = 0")
    case True
    then show ?thesis by (simp add: txImage_loop.simps)
  next
    case False
    then have off: "off = 196 * i" and nz: "of_nat ?L \<noteq> (0 :: u32)"
      using Cons.prems(4) unat by auto
    have rc: "read_count (of_nat ?L) = min 196 ?L"
      using unat by (auto simp: read_count_def word_less_nat_alt)
    have masked: "(if off = 0 then upload_len (of_nat ?L) slot AND 0x00FFFFFF else of_nat ?L) = (of_nat ?L :: u32)"
      using upload_len_mask [OF small assms(5)] by simp
    have diff: "of_nat ?L - of_nat (min 196 ?L) = (of_nat (length file - 196 * Suc i) :: u32)"
    proof -
      have "of_nat ?L - of_nat (min 196 ?L) = (of_nat (?L - min 196 ?L) :: u32)"
        by (rule of_nat_diff [symmetric]) simp
      moreover have "?L - min 196 ?L = length file - 196 * Suc i"
        by auto
      ultimately show ?thesis by (simp only:)
    qed
    define body where "body = cbor off (if off = 0 then Some (upload_len (of_nat ?L) slot) else None) (take (read_count (of_nat ?L)) ?rest)"
    define hdr where "hdr = [2, 0, hi8 (of_nat (length body)), lo8 (of_nat (length body)), hi8 1, lo8 1, curSeq p, 1]"
    have "length body \<le> 368"
      unfolding body_def by (rule cbor) (simp add: rc)
    then have fits: "length (take 8 hdr @ body) \<le> 376"
      by (simp add: hdr_def)
    have "answering (p\<lparr>curSeq := curSeq p + 1\<rparr>) (a # as)"
      using Cons.prems(1) by (simp add: answering_def)
    then obtain p2 msg where tx: "BLE_txNmp (p\<lparr>curSeq := curSeq p + 1\<rparr>) hdr body = (RxMsg msg, p2)"
      and p2: "answering p2 as" "nmp_answers (ble_res p2) 3 1 1"
      using BLE_txNmp_answering [OF _ _ fits] Cons.prems(3) by fastforce
    have "read_count (of_nat ?L) \<le> length ?rest"
      by (simp add: rc)
    note step = txImage_loop_step [of "of_nat ?L" ?rest body cbor off slot hdr p msg p2, OF nz this body_def hdr_def tx p2(2), unfolded masked]
    have dr: "drop (min 196 ?L) ?rest = drop (196 * Suc i) file"
      by (simp add: min_def add.commute)
    have "\<exists>p'. txImage_loop cbor slot (drop (196 * Suc i) file) (of_nat (length file - 196 * Suc i)) (off + min 196 ?L) p2 = (BleOk, p')"
      by (rule Cons.IH [OF p2(1)]) (use Cons.prems(2,3) False off in auto)
    then show ?thesis
      unfolding step unfolding rc diff dr .
  qed
qed

text \<open>C23: with an encoder that keeps its bodies within 368 bytes and a radio that answers every
  request (one well-formed answer per chunk of the file) over a line whose writes succeed, the
  upload always succeeds: it cannot get stuck, run out of buffer or time out.\<close>

theorem upload_succeeds:
  assumes "answering p as" "list_all (good_answer 3 1 1) as" "length file \<le> 196 * length as"
    and "length file < 2 ^ 24" "\<And>off len data. length data \<le> 196 \<Longrightarrow> length (cbor off len data) \<le> 368"
  shows "\<exists>p'. BLE_txImage cbor (Some (file, Some (length file))) slot p = (BleOk, p')"
proof -
  have slot: "(if slot < 0 \<or> slot > 1 then 0 else slot) = 0 \<or> (if slot < 0 \<or> slot > 1 then 0 else slot) = 1"
    by auto
  show ?thesis
    using txImage_loop_answering [where i = 0 and off = 0, OF assms(1) _ assms(2) assms(4) slot _ assms(5)] assms(3)
    by (simp add: BLE_txImage_def Let_def)
qed

definition upload_answer :: bytes where
  "upload_answer = [3, 0, 0, 0, 0, 1, 0, 1]"

lemma good_upload_answer: "good_answer 3 1 1 upload_answer"
  by (simp add: good_answer_def upload_answer_def nmp_answers_def hi8_def lo8_def)

lemma answering_silent_port: "answering (silent_port (concat (map answer_line as))) as"
  by (simp add: answering_def silent_port_def)

theorem upload_succeeds_witness:
  "\<exists>p'. BLE_txImage (\<lambda>off len data. data) (Some ([10, 20, 30], Some (length [10, 20, 30 :: u8]))) 1
      (silent_port (concat (map answer_line [upload_answer]))) = (BleOk, p')"
  by (rule upload_succeeds [OF answering_silent_port]) (simp_all add: good_upload_answer)


text \<open>The reset loop does not use all its five attempts: when the radio answers \<open>ready\<close> to the fifth
  reset and not before, the programmer still reports that there was no response.\<close>

theorem fifth_reset_rejected:
  assumes "\<forall>i < 4. \<not> is_ready ((reset_attempt ^^ Suc i) p)" "is_ready ((reset_attempt ^^ 5) p)"
  shows "BLE_vendorProgram cbor f slot p = (BleFail, BLE_reset ((reset_attempt ^^ 5) p))"
proof -
  have "reset_loop 5 p = (5 - 1 - int 4, (reset_attempt ^^ Suc 4) p)"
    by (rule reset_loop_ready) (use assms in \<open>simp_all add: numeral_eq_Suc\<close>)
  then show ?thesis
    by (simp add: BLE_vendorProgram_def del: funpow.simps)
qed

definition late_radio :: ble_port where
  "late_radio = silent_port (replicate 4 RxTimeout @ map RxByte ready_line @ [RxByte chr_lf])"

theorem fifth_reset_rejected_witness:
  "is_ready ((reset_attempt ^^ 5) late_radio) \<and>
    BLE_vendorProgram (\<lambda>off len data. data) None 0 late_radio = (BleFail, BLE_reset ((reset_attempt ^^ 5) late_radio))"
proof -
  have "list_all (\<lambda>i. \<not> is_ready ((reset_attempt ^^ Suc i) late_radio)) [0, 1, 2, 3]"
    by code_simp
  then have no: "\<forall>i < 4. \<not> is_ready ((reset_attempt ^^ Suc i) late_radio)"
    by (simp add: All_less_Suc numeral_eq_Suc)
  have yes: "is_ready ((reset_attempt ^^ 5) late_radio)"
    by code_simp
  show ?thesis
    using yes fifth_reset_rejected [OF no yes] by blast
qed

end
