(* ===== verification/IrisLib.thy ===== *)
theory IrisLib
  imports Prelude
begin

text \<open>
  The hub's support library, \<^verbatim>\<open>iris-lib/files/irislib.c\<close>, over a file system that maps a path to
  the bytes of the file. C strings are byte lists without the terminating zero. A buffer that
  \<^verbatim>\<open>fscanf\<close> may leave unset is an argument with its previous contents.
\<close>

type_synonym fsys = "string \<Rightarrow> bytes option"

text \<open>The two hub platforms the sources are built for.\<close>

datatype platform = beaglebone_yocto | imxdimagic

section \<open>C strings and scanning\<close>

definition str :: "string \<Rightarrow> bytes" where
  "str s = map of_char s"

text \<open>\<open>cstr buf\<close> is the string at the start of the memory \<open>buf\<close>.\<close>

definition cstr :: "bytes \<Rightarrow> bytes" where
  "cstr buf = takeWhile (\<lambda>c. c \<noteq> 0) buf"

text \<open>\<^verbatim>\<open>strncmp(a, b, n) == 0\<close>\<close>

definition strncmp_eq :: "bytes \<Rightarrow> bytes \<Rightarrow> nat \<Rightarrow> bool" where
  "strncmp_eq a b n \<longleftrightarrow> take n (a @ [0]) = take n (b @ [0])"

text \<open>\<^verbatim>\<open>strstr(hay, needle) != NULL\<close>\<close>

fun strstr :: "bytes \<Rightarrow> bytes \<Rightarrow> bool" where
  "strstr [] needle = (needle = [])"
| "strstr (c # hay) needle = (take (length needle) (c # hay) = needle \<or> strstr hay needle)"

definition is_space :: "u8 \<Rightarrow> bool" where
  "is_space c \<longleftrightarrow> c = 32 \<or> (9 \<le> c \<and> c \<le> 13)"

text \<open>\<^verbatim>\<open>fscanf(f, "%s", ..)\<close>: \<open>None\<close> at the end of the file.\<close>

definition scan_word :: "bytes \<Rightarrow> bytes option" where
  "scan_word bs =
    (let r = dropWhile is_space bs in
     if r = [] then None else Some (cstr (takeWhile (\<lambda>c. \<not> is_space c) r)))"

definition is_digit :: "u8 \<Rightarrow> bool" where
  "is_digit c \<longleftrightarrow> 48 \<le> c \<and> c \<le> 57"

definition digits_val :: "bytes \<Rightarrow> nat" where
  "digits_val ds = foldl (\<lambda>a d. 10 * a + (unat d - 48)) 0 ds"

text \<open>\<^verbatim>\<open>fscanf(f, "%d", ..)\<close>: an optional sign and at least one digit.\<close>

definition scan_int :: "bytes \<Rightarrow> int option" where
  "scan_int bs =
    (let r = dropWhile is_space bs;
         neg = (r \<noteq> [] \<and> hd r = 45);
         r = (if r \<noteq> [] \<and> (hd r = 45 \<or> hd r = 43) then tl r else r);
         ds = takeWhile is_digit r in
     if ds = [] then None else Some (if neg then - int (digits_val ds) else int (digits_val ds)))"

definition atoi :: "bytes \<Rightarrow> int" where
  "atoi b = (case scan_int b of None \<Rightarrow> 0 | Some v \<Rightarrow> v)"

text \<open>\<^verbatim>\<open>printf("%d")\<close>\<close>

fun nat_digits :: "nat \<Rightarrow> bytes" where
  "nat_digits n = (if n < 10 then [] else nat_digits (n div 10)) @ [of_nat (48 + n mod 10)]"

definition dec_str :: "int \<Rightarrow> bytes" where
  "dec_str i = (if i < 0 then 45 # nat_digits (nat (- i)) else nat_digits (nat i))"

declare nat_digits.simps [simp del]

section \<open>Which image, which hardware\<close>

definition exists_file :: "fsys \<Rightarrow> string \<Rightarrow> bool" where
  "exists_file fs p \<longleftrightarrow> fs p \<noteq> None"

definition IRIS_isReleaseImage :: bool where
  "IRIS_isReleaseImage = True"

definition IRIS_isMfgImage :: "fsys \<Rightarrow> bool" where
  "IRIS_isMfgImage fs = exists_file fs ''/usr/bin/serialize''"

definition IRIS_isDevImage :: "fsys \<Rightarrow> bool" where
  "IRIS_isDevImage fs = (\<not> exists_file fs ''/usr/bin/serialize'' \<and> \<not> exists_file fs ''/usr/bin/java'')"

definition IRIS_isSSHEnabled :: "fsys \<Rightarrow> bool" where
  "IRIS_isSSHEnabled fs = exists_file fs ''/var/run/dropbear.pid''"

definition IRIS_isSSHKeyGen :: "fsys \<Rightarrow> bool" where
  "IRIS_isSSHKeyGen fs = (\<not> exists_file fs ''/data/config/dropbear/dropbear_rsa_host_key'')"

definition IRIS_getHardwareVersion :: "fsys \<Rightarrow> int" where
  "IRIS_getHardwareVersion fs =
    (case fs ''/tmp/mfg/config/hwVer'' of
       None \<Rightarrow> 0
     | Some c \<Rightarrow> (case scan_int c of None \<Rightarrow> 0 | Some v \<Rightarrow> v))"

text \<open>The five getters differ in the file only; the result is the return value and the buffer.\<close>

definition get_word_file :: "string \<Rightarrow> fsys \<Rightarrow> bytes \<Rightarrow> bool \<times> bytes" where
  "get_word_file path fs buf =
    (case fs path of
       None \<Rightarrow> (False, [])
     | Some c \<Rightarrow> (True, case scan_word c of None \<Rightarrow> buf | Some w \<Rightarrow> w))"

definition IRIS_getFirmwareVersion :: "fsys \<Rightarrow> bytes \<Rightarrow> bool \<times> bytes" where
  "IRIS_getFirmwareVersion = get_word_file ''/tmp/version''"

definition IRIS_getModel :: "fsys \<Rightarrow> bytes \<Rightarrow> bool \<times> bytes" where
  "IRIS_getModel = get_word_file ''/tmp/mfg/config/model''"

definition IRIS_getHubID :: "fsys \<Rightarrow> bytes \<Rightarrow> bool \<times> bytes" where
  "IRIS_getHubID = get_word_file ''/tmp/mfg/config/hubID''"

definition IRIS_getMACAddr1 :: "fsys \<Rightarrow> bytes \<Rightarrow> bool \<times> bytes" where
  "IRIS_getMACAddr1 = get_word_file ''/tmp/mfg/config/macAddr1''"

definition IRIS_getMACAddr2 :: "fsys \<Rightarrow> bytes \<Rightarrow> bool \<times> bytes" where
  "IRIS_getMACAddr2 = get_word_file ''/tmp/mfg/config/macAddr2''"

text \<open>The uninitialised local buffer \<^verbatim>\<open>model[32]\<close> is the argument \<open>model0\<close>.\<close>

definition IRIS_isHwFlowControlSupported :: "fsys \<Rightarrow> bytes \<Rightarrow> bool" where
  "IRIS_isHwFlowControlSupported fs model0 =
    (let (ok, model) = IRIS_getModel fs model0 in
     if ok \<and> \<not> strncmp_eq model (str ''IH200'') 5 then True
     else IRIS_getHardwareVersion fs \<ge> 2)"

definition IRIS_isBatteryVoltageDetectionSupported :: "fsys \<Rightarrow> bytes \<Rightarrow> bool" where
  "IRIS_isBatteryVoltageDetectionSupported fs model0 =
    (let (ok, model) = IRIS_getModel fs model0 in
     if ok \<and> \<not> strncmp_eq model (str ''IH200'') 5 then True
     else IRIS_getHardwareVersion fs \<ge> 3)"

text \<open>The control file is read into a zeroed buffer of 128 bytes. (On an empty file the code also looks
  at the byte before the buffer, which does not change the result.)\<close>

definition IRIS_isLTEConnected :: "fsys \<Rightarrow> bool" where
  "IRIS_isLTEConnected fs =
    (case fs ''/tmp/lteControl'' of
       None \<Rightarrow> False
     | Some c \<Rightarrow>
         (let data = cstr (take 127 c);
              data = (if data \<noteq> [] \<and> last data = 10 then butlast data else data)
          in strncmp_eq data (str ''connect'') 7))"

section \<open>LED mode file\<close>

abbreviation (input) LED_MODE_FILE :: string where "LED_MODE_FILE \<equiv> ''/tmp/ledMode''"

text \<open>\<open>can_write\<close> says which files \<^verbatim>\<open>fopen(.., "w")\<close> can open.\<close>

definition IRIS_setLedMode :: "(string \<Rightarrow> bool) \<Rightarrow> bytes \<Rightarrow> fsys \<Rightarrow> fsys" where
  "IRIS_setLedMode can_write mode fs =
    (if can_write LED_MODE_FILE then fs(LED_MODE_FILE \<mapsto> mode) else fs)"

text \<open>\<^verbatim>\<open>fgets\<close> reads up to and including a newline, at most \<open>n - 1\<close> bytes, and leaves the buffer
  alone at the end of the file.\<close>

definition fgets_line :: "bytes \<Rightarrow> nat \<Rightarrow> bytes" where
  "fgets_line c n =
    take (n - 1) (takeWhile (\<lambda>b. b \<noteq> 10) c @ (if 10 \<in> set c then [10] else []))"

definition IRIS_getLedMode :: "fsys \<Rightarrow> bytes \<Rightarrow> nat \<Rightarrow> bytes" where
  "IRIS_getLedMode fs mode n =
    (case fs LED_MODE_FILE of
       None \<Rightarrow> mode
     | Some c \<Rightarrow> if c = [] then mode else cstr (fgets_line c n))"

section \<open>Copying a file\<close>

text \<open>\<open>sendfile dst data\<close> is the count \<^verbatim>\<open>sendfile\<close> returns (or -1) and the bytes the destination holds
  afterwards where the copy was written, which on a failing medium need not be those of the source. The
  destination is opened without truncation, so the copy replaces a prefix of what is there.\<close>

type_synonym sendfile = "string \<Rightarrow> bytes \<Rightarrow> int \<times> bytes"

definition IRIS_copyFile :: "(string \<Rightarrow> bool) \<Rightarrow> sendfile \<Rightarrow> string \<Rightarrow> string \<Rightarrow> fsys \<Rightarrow> int \<times> fsys" where
  "IRIS_copyFile can_write sendfile src dst fs =
    (case fs src of
       None \<Rightarrow> (-1, fs)
     | Some data \<Rightarrow>
         if \<not> can_write dst then (-1, fs)
         else (let (count, stored) = sendfile dst data;
                   old = (case fs dst of None \<Rightarrow> [] | Some d \<Rightarrow> d) in
           (if count = int (length data) then 0 else count,
            fs(dst \<mapsto> stored @ drop (length stored) old))))"

section \<open>Serial port settings\<close>

datatype iflag = IGNBRK | BRKINT | ISTRIP | INLCR | INPCK | IGNCR | ICRNL | IMAXBEL | IXON | IXOFF | IXANY
datatype cflag = PARENB | PARODD | CSTOPB | CSIZE_BITS | CS8 | CLOCAL | CREAD | CRTSCTS

record termios =
  c_iflag :: "iflag set"
  c_cflag :: "cflag set"
  c_lflag :: nat
  c_oflag :: nat
  ospeed :: nat
  ispeed :: nat
  vmin :: nat
  vtime :: nat
  vstart :: "nat option"
  vstop :: "nat option"

definition IRIS_initSerialPort :: "nat \<Rightarrow> nat \<Rightarrow> termios \<Rightarrow> termios" where
  "IRIS_initSerialPort baud mode tty =
    (let tty = tty\<lparr>ospeed := baud, ispeed := baud,
           c_cflag := (c_cflag tty - {PARENB, PARODD} - {CSTOPB} - {CSIZE_BITS}) \<union> {CS8, CLOCAL, CREAD},
           c_iflag := c_iflag tty - {IGNBRK}, c_lflag := 0, c_oflag := 0\<rparr> in
     if mode \<noteq> 0 then
       (let tty = tty\<lparr>c_iflag := c_iflag tty - {BRKINT, ISTRIP, INLCR, INPCK, IGNCR, ICRNL, IMAXBEL, IXON, IXOFF, IXANY}\<rparr>;
            tty = (if mode = 1
                   then tty\<lparr>c_iflag := c_iflag tty \<union> {IXON}, vstart := Some 17, vstop := Some 19,
                            c_cflag := c_cflag tty - {CRTSCTS}\<rparr>
                   else tty\<lparr>c_cflag := c_cflag tty \<union> {CRTSCTS}\<rparr>)
        in tty\<lparr>vmin := 1, vtime := 0\<rparr>)
     else tty\<lparr>c_iflag := c_iflag tty - {IXON, IXOFF, IXANY}, vmin := 1, vtime := 5,
              c_cflag := c_cflag tty - {CRTSCTS}\<rparr>)"

section \<open>Sound, network interfaces, watchdog\<close>

text \<open>What the helper commands print: \<open>first_line cmd\<close> is the first line of the output of the command,
  \<open>None\<close> without output, and \<open>popen_ok\<close> whether the pipe could be opened. The commands run are
  returned as a list.\<close>

definition playAudio :: "bool \<Rightarrow> (string \<Rightarrow> string option) \<Rightarrow> string \<Rightarrow> string list" where
  "playAudio popen_ok first_line filename =
    (if popen_ok \<and> first_line ''pidof /usr/bin/play'' = None
     then [''/usr/bin/play '' @ filename @ '' > /dev/null 2>&1''] else [])"

definition IRIS_playAudio :: "bool \<Rightarrow> bool \<Rightarrow> (string \<Rightarrow> string option) \<Rightarrow> fsys \<Rightarrow> string \<Rightarrow> string list" where
  "IRIS_playAudio thread_ok popen_ok first_line fs filename =
    (if exists_file fs filename \<and> thread_ok then playAudio popen_ok first_line filename else [])"

definition IRIS_isIntfIPUp :: "bool \<Rightarrow> (string \<Rightarrow> string option) \<Rightarrow> string \<Rightarrow> bool" where
  "IRIS_isIntfIPUp popen_ok first_line intf =
    (popen_ok \<and> first_line (''ifconfig '' @ intf @ '' | grep \"inet addr\"'') \<noteq> None)"

definition IRIS_isIntfConnected :: "bool \<Rightarrow> (string \<Rightarrow> string option) \<Rightarrow> string \<Rightarrow> bool" where
  "IRIS_isIntfConnected popen_ok first_line intf =
    (popen_ok \<and> first_line (''ip link show '' @ intf @ '' | grep \"[<,]LOWER_UP[,>]\"'') \<noteq> None)"

definition writeWatchdog :: "bool \<Rightarrow> (string \<Rightarrow> string option) \<Rightarrow> string \<Rightarrow> string list" where
  "writeWatchdog popen_ok first_line data =
    (if \<not> popen_ok \<or> first_line ''/usr/bin/lsof | grep /dev/watchdog0'' = None
     then [''echo '' @ data @ '' > /dev/watchdog0 2> /dev/null''] else [])"

definition startWatchdog :: "bool \<Rightarrow> (string \<Rightarrow> string option) \<Rightarrow> string list" where
  "startWatchdog popen_ok first_line = writeWatchdog popen_ok first_line ''1''"

definition pokeWatchdog :: "bool \<Rightarrow> (string \<Rightarrow> string option) \<Rightarrow> string list" where
  "pokeWatchdog popen_ok first_line = writeWatchdog popen_ok first_line ''A''"

definition stopWatchdog :: "bool \<Rightarrow> (string \<Rightarrow> string option) \<Rightarrow> string list" where
  "stopWatchdog popen_ok first_line = writeWatchdog popen_ok first_line ''V''"

section \<open>Powering down\<close>

text \<open>The charger is told over I2C to stop supplying power, then the main power is cut by writing the GPIO
  until the hub is off; the list ends with the write that is repeated. \<open>dev_ok\<close> and \<open>addr_ok\<close> say whether
  the device opens and takes the slave address, \<open>read_ok\<close> whether its register 1 can be read.\<close>

datatype pd_action = I2cWrite bytes | I2cRead | Shell string | RepeatForever string

definition IRIS_powerDownHub :: "platform \<Rightarrow> bool \<Rightarrow> bool \<Rightarrow> bool \<Rightarrow> pd_action list" where
  "IRIS_powerDownHub p dev_ok addr_ok read_ok =
    (if p \<noteq> imxdimagic \<or> \<not> dev_ok \<or> \<not> addr_ok then []
     else [I2cWrite [4], I2cRead, I2cWrite [1], I2cRead] @
       (if read_ok then [I2cWrite [1, 0x84], I2cRead] else []) @
       [Shell ''echo 106 > /sys/class/gpio/export'', Shell ''echo out > /sys/class/gpio/gpio106/direction'',
        RepeatForever ''echo 0 > /sys/class/gpio/gpio106/value''])"

section \<open>Printing and reading numbers\<close>

lemma nat_digits_digit: "c \<in> set (nat_digits n) \<Longrightarrow> is_digit c"
proof (induction n rule: nat_digits.induct)
  case (1 n)
  have last: "is_digit (of_nat (48 + n mod 10))"
    by (simp add: is_digit_def word_le_nat_alt unat_of_nat del: of_nat_add)
  have "c \<in> set (nat_digits (n div 10)) \<and> \<not> n < 10 \<or> c = of_nat (48 + n mod 10)"
    using 1(2) by (subst (asm) nat_digits.simps) (auto split: if_splits)
  then show ?case
    using 1(1) last by blast
qed

lemma nat_digits_nonempty: "nat_digits n \<noteq> []"
  by (subst nat_digits.simps) simp

lemma digits_val_snoc: "digits_val (ds @ [d]) = 10 * digits_val ds + (unat d - 48)"
  by (simp add: digits_val_def)

lemma digits_val_nat_digits: "digits_val (nat_digits n) = n"
proof (induction n rule: nat_digits.induct)
  case (1 n)
  have last: "unat (of_nat (48 + n mod 10) :: u8) - 48 = n mod 10"
    by (simp add: unat_of_nat del: of_nat_add)
  show ?case
  proof (cases "n < 10")
    case True
    then show ?thesis
      using last by (subst nat_digits.simps) (simp add: digits_val_def del: of_nat_add)
  next
    case False
    then have "digits_val (nat_digits n) = 10 * digits_val (nat_digits (n div 10)) + (unat (of_nat (48 + n mod 10) :: u8) - 48)"
      by (subst nat_digits.simps) (simp only: if_False digits_val_snoc)
    also have "\<dots> = n"
      using 1 [OF False] last by simp
    finally show ?thesis .
  qed
qed

lemma digit_not_space: "is_digit c \<Longrightarrow> \<not> is_space c"
  by (auto simp: is_digit_def is_space_def word_le_nat_alt)

lemma scan_int_dec_str:
  assumes "0 \<le> i" "r = [] \<or> \<not> is_digit (hd r)"
  shows "scan_int (dec_str i @ r) = Some i"
proof -
  let ?ds = "nat_digits (nat i)"
  obtain c cs where ds: "?ds = c # cs"
    using nat_digits_nonempty by (cases ?ds) auto
  then have c: "is_digit c" "\<not> is_space c" "c \<noteq> 45" "c \<noteq> 43"
    using nat_digits_digit [of c "nat i"] digit_not_space by (auto simp: is_digit_def)
  have "takeWhile is_digit (?ds @ r) = ?ds"
    using nat_digits_digit [of _ "nat i"] assms(2) by (subst takeWhile_append2) (auto simp: takeWhile_eq_Nil_iff)
  then show ?thesis
    using assms c ds digits_val_nat_digits [of "nat i"] by (simp add: scan_int_def dec_str_def)
qed

section \<open>Properties\<close>

text \<open>What a return value of the copy tells. Into a file that did not exist, and on a medium that
  stores what is sent, a copy that reports success has either copied the whole source or has sent
  nothing at all: a transfer of no bytes is not told from a complete one.\<close>

theorem copyFile_success:
  assumes "IRIS_copyFile cw sendfile src dst fs = (0, fs')" "fs src = Some data" "fs dst = None"
    and "\<And>d b. snd (sendfile d b) = take (nat (fst (sendfile d b))) b"
  shows "fs' dst = Some data \<or> fst (sendfile dst data) = 0 \<and> fs' dst = Some []"
  using assms(1-3) assms(4) [of dst data]
  by (cases "sendfile dst data") (auto simp: IRIS_copyFile_def split: if_splits)

theorem copyFile_success_witness:
  "\<exists>fs'. IRIS_copyFile (\<lambda>_. True) (\<lambda>d b. (int (length b), b)) ''a'' ''b'' [''a'' \<mapsto> [1, 2, 3]] = (0, fs') \<and>
    fs' ''b'' = Some [1, 2, 3]"
proof -
  obtain fs' where run: "IRIS_copyFile (\<lambda>_. True) (\<lambda>d b. (int (length b), b)) ''a'' ''b'' [''a'' \<mapsto> [1, 2, 3]] = (0, fs')"
    by (simp add: IRIS_copyFile_def)
  show ?thesis
    using run copyFile_success [OF run, of "[1, 2, 3]"] by simp
qed

end
