(* ===== verification/Image.thy ===== *)
theory Image
  imports IrisLib
begin

text \<open>
  Building and validating a signed firmware image: \<^verbatim>\<open>iris-utils/files/build_image.c\<close>,
  \<^verbatim>\<open>build_image.h\<close> and \<^verbatim>\<open>validate_image.c\<close>. The cryptographic commands the programs run
  (\<^verbatim>\<open>openssl\<close>, \<^verbatim>\<open>sha256sum\<close>) are outside the tree and are a record of functions; both
  programs are functions from the file system to an exit code and a file system. Arguments and words are
  taken to fit the fixed command and scan buffers of the programs, except where the text says otherwise.
\<close>

section \<open>Install codes and paths\<close>

abbreviation (input) INSTALL_ARG_ERR :: nat where "INSTALL_ARG_ERR \<equiv> 1"
abbreviation (input) INSTALL_DOWNLOAD_ERR :: nat where "INSTALL_DOWNLOAD_ERR \<equiv> 2"
abbreviation (input) INSTALL_FILE_OPEN_ERR :: nat where "INSTALL_FILE_OPEN_ERR \<equiv> 3"
abbreviation (input) INSTALL_MEMORY_ERR :: nat where "INSTALL_MEMORY_ERR \<equiv> 4"
abbreviation (input) INSTALL_DECRYPT_ERR :: nat where "INSTALL_DECRYPT_ERR \<equiv> 5"
abbreviation (input) INSTALL_HDR_SIG_ERR :: nat where "INSTALL_HDR_SIG_ERR \<equiv> 6"
abbreviation (input) INSTALL_MODEL_ERR :: nat where "INSTALL_MODEL_ERR \<equiv> 7"
abbreviation (input) INSTALL_CUSTOMER_ERR :: nat where "INSTALL_CUSTOMER_ERR \<equiv> 8"
abbreviation (input) INSTALL_FW_DECRYPT_ERR :: nat where "INSTALL_FW_DECRYPT_ERR \<equiv> 9"
abbreviation (input) INSTALL_CKSUM_ERR :: nat where "INSTALL_CKSUM_ERR \<equiv> 10"

abbreviation (input) FW_INSTALL_FILE :: string where "FW_INSTALL_FILE \<equiv> ''/tmp/fw_image.bin''"
abbreviation (input) VERSION_FILE :: string where "VERSION_FILE \<equiv> ''/tmp/version''"
abbreviation (input) MODEL_FILE :: string where "MODEL_FILE \<equiv> ''/tmp/mfg/config/model''"
abbreviation (input) CUSTOMER_FILE :: string where "CUSTOMER_FILE \<equiv> ''/tmp/mfg/config/customer''"
abbreviation (input) HEADER_SIGNED_FILE :: string where "HEADER_SIGNED_FILE \<equiv> ''/tmp/header.signed''"
abbreviation (input) HEADER_FILE :: string where "HEADER_FILE \<equiv> ''/tmp/header.verified''"
abbreviation (input) FW_ENCRYPT_FILE :: string where "FW_ENCRYPT_FILE \<equiv> ''/tmp/firmware.encrypt''"
abbreviation (input) SIGNED_HDR_LEN :: nat where "SIGNED_HDR_LEN \<equiv> 512"
abbreviation (input) HEADER_SIZE :: nat where "HEADER_SIZE \<equiv> 200"

section \<open>The external tools\<close>

text \<open>\<open>None\<close> is a command that fails. \<open>rand_hex n\<close> is the output of the \<open>n\<close>-th \<^verbatim>\<open>openssl rand\<close> of a
  run, \<open>can_write\<close> the files that can be created.\<close>

record tools =
  rsa_sign :: "bytes \<Rightarrow> bytes option"
  rsa_verify :: "bytes \<Rightarrow> bytes option"
  cbc_enc :: "bytes \<Rightarrow> bytes \<Rightarrow> bytes \<Rightarrow> bytes option"
  cbc_dec :: "bytes \<Rightarrow> bytes \<Rightarrow> bytes \<Rightarrow> bytes option"
  sha256sum :: "bytes \<Rightarrow> bytes option"
  rand_hex :: "nat \<Rightarrow> bytes option"
  can_write :: "string \<Rightarrow> bool"

section \<open>The firmware header\<close>

text \<open>\<^verbatim>\<open>fw_header_t\<close> as the fields the programs use. Its layout is 200 bytes, two of them padding at
  the end.\<close>

record fw_header =
  header_version :: u16
  image_size :: u32
  fw_version :: bytes
  fw_model :: bytes
  fw_customer :: bytes
  fw_cksum :: bytes
  fw_key :: bytes
  fw_iv :: bytes

definition be16 :: "u16 \<Rightarrow> bytes" where
  "be16 w = [ucast (drop_bit 8 w), ucast w]"

definition be32 :: "u32 \<Rightarrow> bytes" where
  "be32 w = [ucast (drop_bit 24 w), ucast (drop_bit 16 w), ucast (drop_bit 8 w), ucast w]"

text \<open>A character array of \<open>n\<close> bytes holding the string \<open>s\<close>, in memory that was zeroed before.\<close>

definition char_field :: "nat \<Rightarrow> bytes \<Rightarrow> bytes" where
  "char_field n s = take n (s @ replicate n 0)"

definition header_bytes :: "fw_header \<Rightarrow> bytes" where
  "header_bytes h =
    be16 (header_version h) @ [0, 0] @ be32 (image_size h) @
    char_field 24 (fw_version h) @ char_field 16 (fw_model h) @ char_field 16 (fw_customer h) @
    char_field 66 (fw_cksum h) @ char_field 34 (fw_key h) @ char_field 34 (fw_iv h) @ [0, 0]"

text \<open>What the validation reads from the 200 bytes: strings that start at the offset of a field and end at
  the first zero, whichever field that is in, and the 64 bytes of the checksum.\<close>

definition header_of_bytes :: "bytes \<Rightarrow> fw_header" where
  "header_of_bytes b =
    \<lparr>header_version = word_of_nat (be_val (take 2 b)), image_size = word_of_nat (be_val (take 4 (drop 4 b))),
     fw_version = cstr (drop 8 b), fw_model = cstr (drop 32 b), fw_customer = cstr (drop 48 b),
     fw_cksum = take 64 (drop 64 b), fw_key = cstr (drop 130 b), fw_iv = cstr (drop 164 b)\<rparr>"

section \<open>Building an image\<close>

definition DEFAULT_MODEL :: "platform \<Rightarrow> bytes" where
  "DEFAULT_MODEL p = (case p of beaglebone_yocto \<Rightarrow> str ''IH200'' | imxdimagic \<Rightarrow> str ''IH304'')"

definition DEFAULT_CUSTOMER :: bytes where
  "DEFAULT_CUSTOMER = str ''IRIS''"

definition CUSTOMER_ALL :: bytes where
  "CUSTOMER_ALL = str ''ALL''"

definition validate_model :: "platform \<Rightarrow> bytes option \<Rightarrow> bytes option" where
  "validate_model p model =
    (case model of
       None \<Rightarrow> Some (DEFAULT_MODEL p)
     | Some m \<Rightarrow> if strncmp_eq m (DEFAULT_MODEL p) (length (DEFAULT_MODEL p)) then Some (DEFAULT_MODEL p) else None)"

definition validate_customer :: "bytes option \<Rightarrow> bytes option" where
  "validate_customer customer =
    (case customer of
       None \<Rightarrow> Some DEFAULT_CUSTOMER
     | Some c \<Rightarrow>
         if strncmp_eq c CUSTOMER_ALL (length CUSTOMER_ALL) then Some c
         else if strncmp_eq c DEFAULT_CUSTOMER (length DEFAULT_CUSTOMER + 1) then Some DEFAULT_CUSTOMER
         else None)"

text \<open>\<^verbatim>\<open>"v%d.%d.%d.%03d%s"\<close> and the file name with the constants of \<^verbatim>\<open>irisversion.h\<close>.\<close>

definition build_version :: bytes where
  "build_version = str ''v3.0.1.029''"

definition build_output :: "string \<Rightarrow> string" where
  "build_output pre = pre @ ''_3.0.1.029.bin''"

text \<open>\<^verbatim>\<open>snprintf(dst, n, "%s", s)\<close>\<close>

definition snprintf_s :: "nat \<Rightarrow> bytes \<Rightarrow> bytes" where
  "snprintf_s n s = take (n - 1) s"

datatype bi_opt = BiHelp | BiModel bytes | BiPrefix string | BiCustomer bytes | BiUnknown

record bi_args =
  modelarg :: "bytes option"
  prefixarg :: "string option"
  customerarg :: "bytes option"

fun bi_options :: "bi_opt list \<Rightarrow> bi_args \<Rightarrow> nat + bi_args" where
  "bi_options [] a = Inr a"
| "bi_options (BiHelp # opts) a = Inl 0"
| "bi_options (BiModel m # opts) a = bi_options opts (a\<lparr>modelarg := Some m\<rparr>)"
| "bi_options (BiPrefix p # opts) a = bi_options opts (a\<lparr>prefixarg := Some p\<rparr>)"
| "bi_options (BiCustomer c # opts) a = bi_options opts (a\<lparr>customerarg := Some c\<rparr>)"
| "bi_options (BiUnknown # opts) a = Inl 1"

text \<open>The header of a build. Checksum, key and initialization vector are the words the commands print; a
  word that does not fit its field with its zero would overrun the field, and is no header here.\<close>

definition build_header :: "tools \<Rightarrow> bytes \<Rightarrow> bytes \<Rightarrow> bytes \<Rightarrow> fw_header option" where
  "build_header t model customer data =
    (case Option.bind (sha256sum t data) scan_word of None \<Rightarrow> None | Some ck \<Rightarrow>
    (case Option.bind (rand_hex t 0) scan_word of None \<Rightarrow> None | Some key \<Rightarrow>
    (case Option.bind (rand_hex t 1) scan_word of None \<Rightarrow> None | Some iv \<Rightarrow>
       if length ck < 66 \<and> length key < 34 \<and> length iv < 34
       then Some \<lparr>header_version = 0, image_size = of_nat (length data),
              fw_version = snprintf_s 24 build_version, fw_model = snprintf_s 16 model,
              fw_customer = snprintf_s 16 customer, fw_cksum = ck, fw_key = key, fw_iv = iv\<rparr>
       else None)))"

text \<open>The files the build leaves in the working directory: header, signature, encrypted image, and
  their concatenation. The result is false when a command fails or a file cannot be written; the
  temporary files are then left behind.\<close>

definition build_files :: "tools \<Rightarrow> fw_header \<Rightarrow> string \<Rightarrow> string \<Rightarrow> fsys \<Rightarrow> bool \<times> fsys" where
  "build_files t h path out fs =
    (if \<not> can_write t ''header.aes'' then (False, fs)
     else (let fs = fs(''header.aes'' \<mapsto> header_bytes h) in
       case rsa_sign t (header_bytes h) of None \<Rightarrow> (False, fs) | Some sig \<Rightarrow>
       (let fs = fs(''header.signed'' \<mapsto> sig) in
       case Option.bind (fs path) (cbc_enc t (fw_key h) (fw_iv h)) of None \<Rightarrow> (False, fs) | Some enc \<Rightarrow>
       (let fs = fs(''image.encrypted'' \<mapsto> enc) in
        if \<not> can_write t out then (False, fs)
        else (True, (fs(out \<mapsto> sig @ enc))
          (''header.aes'' := None, ''header.signed'' := None, ''image.encrypted'' := None))))))"

definition build_image_main :: "platform \<Rightarrow> tools \<Rightarrow> bi_opt list \<Rightarrow> string option \<Rightarrow> fsys \<Rightarrow> nat \<times> fsys" where
  "build_image_main p t opts filearg fs =
    (case bi_options opts \<lparr>modelarg = None, prefixarg = None, customerarg = None\<rparr> of Inl code \<Rightarrow> (code, fs) | Inr a \<Rightarrow>
    (case filearg of None \<Rightarrow> (1, fs) | Some path \<Rightarrow>
    (case validate_model p (modelarg a) of None \<Rightarrow> (1, fs) | Some model \<Rightarrow>
    (case validate_customer (customerarg a) of None \<Rightarrow> (1, fs) | Some customer \<Rightarrow>
    (case fs path of None \<Rightarrow> (1, fs) | Some data \<Rightarrow>
    (case build_header t model customer data of None \<Rightarrow> (1, fs) | Some h \<Rightarrow>
       (case build_files t h path (build_output (case prefixarg a of None \<Rightarrow> ''hubOS'' | Some q \<Rightarrow> q)) fs of
          (ok, fs') \<Rightarrow> (if ok then 0 else 1, fs'))))))))"

section \<open>Validating an image\<close>

datatype vi_opt = ViHelp | ViMfg | ViSkip | ViUnknown

fun vi_options :: "vi_opt list \<Rightarrow> bool \<times> bool \<Rightarrow> nat + bool \<times> bool" where
  "vi_options [] a = Inr a"
| "vi_options (ViHelp # opts) a = Inl 0"
| "vi_options (ViMfg # opts) a = vi_options opts (True, snd a)"
| "vi_options (ViSkip # opts) a = vi_options opts (fst a, True)"
| "vi_options (ViUnknown # opts) a = Inl INSTALL_ARG_ERR"

text \<open>Each stage of \<open>main\<close> gives an error code or a value, with the file system. \<open>vi_read_header\<close>
  extracts the signed header, has its signature verified and reads it. A mapping of an empty file fails;
  behind the end of a shorter file than the header, the mapped page reads as zeros.\<close>

definition vi_read_header :: "tools \<Rightarrow> bytes \<Rightarrow> fsys \<Rightarrow> (nat + fw_header) \<times> fsys" where
  "vi_read_header t img fs =
    (if img = [] then (Inl INSTALL_MEMORY_ERR, fs)
     else if \<not> can_write t HEADER_SIGNED_FILE then (Inl INSTALL_DECRYPT_ERR, fs)
     else (let sig = take SIGNED_HDR_LEN (img @ replicate SIGNED_HDR_LEN 0);
               fs = fs(HEADER_SIGNED_FILE \<mapsto> sig) in
       (case rsa_verify t sig of
          None \<Rightarrow> (Inl INSTALL_HDR_SIG_ERR, fs)
        | Some hdr \<Rightarrow>
            (let fs = fs(HEADER_FILE \<mapsto> hdr) in
             if length hdr < HEADER_SIZE then (Inl INSTALL_DECRYPT_ERR, fs)
             else (Inr (header_of_bytes (take HEADER_SIZE hdr)), fs)))))"

text \<open>The first word of a file of the hub; a missing and an empty file are both errors.\<close>

definition vi_config :: "fsys \<Rightarrow> string \<Rightarrow> bytes option" where
  "vi_config fs path = Option.bind (fs path) scan_word"

text \<open>\<open>vi_same_version\<close> is \<open>None\<close> when the version file cannot be read.\<close>

definition vi_same_version :: "bool \<Rightarrow> fw_header \<Rightarrow> fsys \<Rightarrow> bool option" where
  "vi_same_version skip h fs =
    (if skip then Some False
     else map_option (\<lambda>v. strncmp_eq v (fw_version h) (length (fw_version h))) (vi_config fs VERSION_FILE))"

text \<open>The error code of the model and customer checks, 0 when both pass.\<close>

definition vi_hub_checks :: "fw_header \<Rightarrow> fsys \<Rightarrow> nat" where
  "vi_hub_checks h fs =
    (case vi_config fs MODEL_FILE of None \<Rightarrow> INSTALL_DECRYPT_ERR | Some model \<Rightarrow>
     if \<not> strncmp_eq model (fw_model h) 4 then INSTALL_MODEL_ERR
     else (case vi_config fs CUSTOMER_FILE of None \<Rightarrow> INSTALL_DECRYPT_ERR | Some customer \<Rightarrow>
       if \<not> strncmp_eq CUSTOMER_ALL (fw_customer h) (length (fw_customer h)) \<and>
          \<not> strncmp_eq customer (fw_customer h) (length (fw_customer h))
       then INSTALL_CUSTOMER_ERR else 0))"

text \<open>Decryption and checksum, with the error code or 0. A file shorter than the signed header gives
  \<^verbatim>\<open>fwrite\<close> a count that has wrapped around and that it cannot deliver. The checksum that was read is
  compared with the 64 bytes of the header; \<open>ck0\<close> is what the local buffer held before.\<close>

definition vi_decrypt :: "tools \<Rightarrow> bytes \<Rightarrow> bytes \<Rightarrow> fw_header \<Rightarrow> fsys \<Rightarrow> nat \<times> fsys" where
  "vi_decrypt t ck0 img h fs =
    (if \<not> can_write t FW_ENCRYPT_FILE then (INSTALL_DECRYPT_ERR, fs)
     else if length img < SIGNED_HDR_LEN then (INSTALL_DECRYPT_ERR, fs(FW_ENCRYPT_FILE \<mapsto> []))
     else (let enc = drop SIGNED_HDR_LEN img; fs = fs(FW_ENCRYPT_FILE \<mapsto> enc) in
       case cbc_dec t (fw_key h) (fw_iv h) enc of
         None \<Rightarrow> (INSTALL_FW_DECRYPT_ERR, fs)
       | Some data \<Rightarrow>
           (let fs = fs(FW_INSTALL_FILE \<mapsto> data) in
            case Option.bind (sha256sum t data) scan_word of
              None \<Rightarrow> (INSTALL_DECRYPT_ERR, fs)
            | Some ck \<Rightarrow>
                if take 64 (ck @ [0] @ drop (length ck + 1) ck0) \<noteq> fw_cksum h
                then (INSTALL_CKSUM_ERR, fs) else (0, fs))))"

definition vi_remove_temp :: "fsys \<Rightarrow> fsys" where
  "vi_remove_temp fs = fs(FW_ENCRYPT_FILE := None, HEADER_SIGNED_FILE := None, HEADER_FILE := None)"

text \<open>\<^verbatim>\<open>echo mode > LED_MODE_FILE\<close>\<close>

definition echo_led :: "(string \<Rightarrow> bool) \<Rightarrow> string \<Rightarrow> fsys \<Rightarrow> fsys" where
  "echo_led cw mode fs = IRIS_setLedMode cw (str mode @ [10]) fs"

definition vi_error_exit :: "tools \<Rightarrow> nat \<Rightarrow> fsys \<Rightarrow> nat \<times> fsys" where
  "vi_error_exit t res fs =
    (res, vi_remove_temp ((echo_led (can_write t) ''upgrade-decrypt-err'' fs)(FW_INSTALL_FILE := None)))"

text \<open>Decryption, checks and clean-up after the header was read.\<close>

definition vi_install :: "tools \<Rightarrow> bytes \<Rightarrow> bytes \<Rightarrow> fw_header \<Rightarrow> fsys \<Rightarrow> nat \<times> fsys" where
  "vi_install t ck0 img h fs =
    (case vi_decrypt t ck0 img h fs of
       (res, fs) \<Rightarrow> if res \<noteq> 0 then vi_error_exit t res fs else (0, vi_remove_temp fs))"

definition vi_hub :: "tools \<Rightarrow> bytes \<Rightarrow> bool \<Rightarrow> bytes \<Rightarrow> fw_header \<Rightarrow> fsys \<Rightarrow> nat \<times> fsys" where
  "vi_hub t ck0 skip img h fs =
    (case vi_same_version skip h fs of
       None \<Rightarrow> vi_error_exit t INSTALL_DECRYPT_ERR fs
     | Some same \<Rightarrow>
         if same then (0, fs(FW_INSTALL_FILE := None))
         else if vi_hub_checks h fs \<noteq> 0 then vi_error_exit t (vi_hub_checks h fs) fs
         else vi_install t ck0 img h fs)"

definition validate_image_main :: "tools \<Rightarrow> bytes \<Rightarrow> vi_opt list \<Rightarrow> string option \<Rightarrow> fsys \<Rightarrow> nat \<times> fsys" where
  "validate_image_main t ck0 opts filearg fs =
    (case vi_options opts (False, False) of Inl code \<Rightarrow> (code, fs) | Inr (mfgMode, skip) \<Rightarrow>
    (case filearg of None \<Rightarrow> (INSTALL_ARG_ERR, fs) | Some path \<Rightarrow>
    (case fs path of None \<Rightarrow> (INSTALL_FILE_OPEN_ERR, fs) | Some img \<Rightarrow>
       (case vi_read_header t img (echo_led (can_write t) ''upgrade-decrypt'' fs) of
          (Inl res, fs) \<Rightarrow> vi_error_exit t res fs
        | (Inr h, fs) \<Rightarrow> if mfgMode then vi_install t ck0 img h fs else vi_hub t ck0 skip img h fs))))"

section \<open>The header as a codec\<close>

definition header_ok :: "fw_header \<Rightarrow> bool" where
  "header_ok h \<longleftrightarrow>
    0 \<notin> set (fw_version h) \<and> length (fw_version h) < 24 \<and>
    0 \<notin> set (fw_model h) \<and> length (fw_model h) < 16 \<and>
    0 \<notin> set (fw_customer h) \<and> length (fw_customer h) < 16 \<and>
    length (fw_cksum h) = 64 \<and>
    0 \<notin> set (fw_key h) \<and> length (fw_key h) < 34 \<and>
    0 \<notin> set (fw_iv h) \<and> length (fw_iv h) < 34"

lemma length_char_field [len_simps]: "length (char_field n s) = n"
  by (simp add: char_field_def)

lemma cstr_char_field:
  assumes "0 \<notin> set s" "length s < n"
  shows "cstr (char_field n s @ rest) = s"
proof -
  have "char_field n s @ rest = s @ 0 # replicate (n - length s - 1) 0 @ rest"
    using assms(2) by (simp add: char_field_def min_def flip: replicate_Suc append_Cons)
  then show ?thesis
    using assms(1) by (simp add: cstr_def takeWhile_append)
qed

lemma cstr_no_zero: "0 \<notin> set (cstr s)"
  by (auto simp: cstr_def dest: set_takeWhileD)

lemma digit_step: "256 * (n div 256) + n mod 256 = (n :: nat)"
  by simp

lemma be_val_be16: "word_of_nat (be_val (be16 w)) = w"
proof -
  have "unat w < 65536"
    using unsigned_less [of w] by simp
  then have "unat w div 256 mod 256 = unat w div 256"
    by (simp add: less_mult_imp_div_less)
  then have "be_val (be16 w) = unat w"
    unfolding be16_def be_val_def
    by (simp add: unsigned_ucast_eq unsigned_drop_bit_eq take_bit_eq_mod) (simp add: drop_bit_eq_div digit_step)
  then show ?thesis by simp
qed

lemma be_val_be32: "word_of_nat (be_val (be32 w)) = w"
proof -
  define n where "n = unat w"
  have "n < 256 * 16777216"
    using unsigned_less [of w] by (simp add: n_def)
  then have top: "n div 16777216 mod 256 = n div 16777216"
    by (simp add: less_mult_imp_div_less)
  have split: "n div 65536 = n div 256 div 256" "n div 16777216 = n div 256 div 256 div 256"
    by (simp_all flip: div_mult2_eq)
  have "be_val (be32 w) = 256 * (256 * (256 * (n div 16777216) + n div 65536 mod 256) + n div 256 mod 256) + n mod 256"
    using top
    unfolding be32_def be_val_def n_def
    by (simp add: unsigned_ucast_eq unsigned_drop_bit_eq take_bit_eq_mod) (simp add: drop_bit_eq_div)
  also have "\<dots> = n"
    unfolding split by (simp only: digit_step)
  finally show ?thesis by (simp add: n_def)
qed

lemma header_length [len_simps]: "length (header_bytes h) = 200"
  by (simp add: header_bytes_def be16_def be32_def len_simps)

lemma header_codec:
  assumes "header_ok h"
  shows "header_of_bytes (header_bytes h) = h"
proof -
  have lens: "length (be16 (header_version h)) = 2" "length (be32 (image_size h)) = 4"
    by (simp_all add: be16_def be32_def)
  have ck: "take 64 (char_field 66 (fw_cksum h)) = fw_cksum h"
    using assms by (simp add: char_field_def header_ok_def)
  show ?thesis
    using assms
    by (intro fw_header.equality)
      (simp_all add: header_of_bytes_def header_bytes_def lens len_simps cstr_char_field ck
        be_val_be16 be_val_be32 header_ok_def)
qed

definition read_header :: "bytes \<Rightarrow> fw_header option" where
  "read_header b = (if length b < 200 then None else Some (header_of_bytes (take 200 b)))"

interpretation hdr: codec header_bytes read_header header_ok
  by unfold_locales (simp add: read_header_def header_codec len_simps)

section \<open>Laws of the external tools\<close>

text \<open>What the programs rely on: verification recovers what was signed and a signature has the length of
  the key (4096 bits), decryption recovers what was encrypted, a checksum is a word of 64 characters.\<close>

definition tools_ok :: "tools \<Rightarrow> bool" where
  "tools_ok t \<longleftrightarrow>
    (\<forall>b s. rsa_sign t b = Some s \<longrightarrow> length s = 512 \<and> rsa_verify t s = Some b) \<and>
    (\<forall>k iv d e. cbc_enc t k iv d = Some e \<longrightarrow> cbc_dec t k iv e = Some d) \<and>
    (\<forall>d out. sha256sum t d = Some out \<longrightarrow> (\<exists>ck. scan_word out = Some ck \<and> length ck = 64))"

lemma scan_word_no_zero: "scan_word b = Some w \<Longrightarrow> 0 \<notin> set w"
  by (auto simp: scan_word_def Let_def cstr_no_zero split: if_splits)

lemma build_header_ok:
  assumes "tools_ok t" "build_header t model customer data = Some h" "0 \<notin> set model" "0 \<notin> set customer"
  shows "header_ok h"
  using assms
  by (auto simp: build_header_def header_ok_def tools_ok_def snprintf_s_def build_version_def str_def
    scan_word_no_zero bind_eq_Some_conv dest!: in_set_takeD dest: scan_word_no_zero split: option.splits if_splits)
    (metis option.inject)

lemma build_header_fields:
  assumes "build_header t model customer data = Some h"
  shows "fw_model h = take 15 model" "fw_customer h = take 15 customer" "fw_version h = build_version"
    "\<exists>out. sha256sum t data = Some out \<and> scan_word out = Some (fw_cksum h)"
  using assms
  by (auto simp: build_header_def snprintf_s_def build_version_def str_def bind_eq_Some_conv
    split: option.splits if_splits)

lemma build_files_result:
  assumes "tools_ok t" "build_files t h path out fs = (True, fs')"
    "path \<notin> {''header.aes'', ''header.signed'', ''image.encrypted''}"
    "out \<notin> {''header.aes'', ''header.signed'', ''image.encrypted''}"
  shows "\<exists>sig enc data. fs path = Some data \<and> fs' out = Some (sig @ enc) \<and> length sig = 512 \<and>
    rsa_verify t sig = Some (header_bytes h) \<and> cbc_dec t (fw_key h) (fw_iv h) enc = Some data"
  using assms
  by (auto simp: build_files_def Let_def tools_ok_def bind_eq_Some_conv split: option.splits if_splits) blast

lemma build_output_not_temp: "build_output pre \<notin> {''header.aes'', ''header.signed'', ''image.encrypted''}"
proof -
  have "last (build_output pre) = CHR ''n''" "last (butlast (build_output pre)) = CHR ''i''"
    by (simp_all add: build_output_def butlast_append)
  then show ?thesis by (auto simp: build_output_def)
qed

section \<open>Validation\<close>

lemma vi_error_exit_clean:
  "vi_error_exit t res fs = (code, fs') \<Longrightarrow>
    code = res \<and> fs' FW_INSTALL_FILE = None \<and> fs' FW_ENCRYPT_FILE = None \<and> fs' HEADER_SIGNED_FILE = None \<and>
    fs' HEADER_FILE = None \<and> (can_write t LED_MODE_FILE \<longrightarrow> fs' LED_MODE_FILE = Some (str ''upgrade-decrypt-err'' @ [10]))"
  unfolding vi_error_exit_def vi_remove_temp_def echo_led_def IRIS_setLedMode_def by clarsimp

definition vi_files :: "string set" where
  "vi_files = {FW_INSTALL_FILE, FW_ENCRYPT_FILE, HEADER_SIGNED_FILE, HEADER_FILE, LED_MODE_FILE}"

lemma echo_led_frame: "p \<notin> vi_files \<Longrightarrow> echo_led cw m fs p = fs p"
  by (simp add: echo_led_def IRIS_setLedMode_def vi_files_def)

lemma vi_error_exit_frame: "p \<notin> vi_files \<Longrightarrow> snd (vi_error_exit t res fs) p = fs p"
  using echo_led_frame by (simp add: vi_error_exit_def vi_remove_temp_def vi_files_def)

lemma vi_read_header_frame: "p \<notin> vi_files \<Longrightarrow> snd (vi_read_header t img fs) p = fs p"
  by (simp add: vi_read_header_def Let_def vi_files_def split: option.splits)

lemma vi_decrypt_frame: "p \<notin> vi_files \<Longrightarrow> snd (vi_decrypt t ck0 img h fs) p = fs p"
  by (simp add: vi_decrypt_def Let_def vi_files_def split: option.splits)

lemma vi_install_frame:
  assumes "p \<notin> vi_files"
  shows "snd (vi_install t ck0 img h fs) p = fs p"
  using vi_decrypt_frame [OF assms, of t ck0 img h fs] vi_error_exit_frame [OF assms] assms
  by (auto simp: vi_install_def vi_remove_temp_def vi_files_def split: prod.splits)

lemma vi_hub_frame: "p \<notin> vi_files \<Longrightarrow> snd (vi_hub t ck0 skip img h fs) p = fs p"
  by (auto simp: vi_hub_def vi_install_frame vi_error_exit_frame split: option.splits) (simp_all add: vi_files_def)

lemma validate_frame:
  assumes "p \<notin> vi_files"
  shows "snd (validate_image_main t ck0 opts filearg fs) p = fs p"
proof -
  let ?fs = "echo_led (can_write t) ''upgrade-decrypt'' fs"
  have *: "?fs p = fs p"
    using assms by (rule echo_led_frame)
  show ?thesis
    using vi_read_header_frame [OF assms, of t _ ?fs] vi_error_exit_frame [OF assms] vi_install_frame [OF assms]
      vi_hub_frame [OF assms]
    by (auto simp: validate_image_main_def * split: sum.splits option.splits prod.splits) (metis * snd_conv)+
qed

lemma vi_read_header_signed:
  assumes "length sig = 512" "rsa_verify t sig = Some (header_bytes h)" "header_ok h" "can_write t HEADER_SIGNED_FILE"
  shows "vi_read_header t (sig @ enc) fs = (Inr h, fs(HEADER_SIGNED_FILE \<mapsto> sig, HEADER_FILE \<mapsto> header_bytes h))"
proof -
  have "sig \<noteq> []"
    using assms(1) by auto
  then show ?thesis
    using assms by (simp add: vi_read_header_def Let_def len_simps header_codec)
qed

lemma vi_install_good:
  assumes "length sig = 512" "cbc_dec t (fw_key h) (fw_iv h) enc = Some data"
    "sha256sum t data = Some out" "scan_word out = Some (fw_cksum h)" "length (fw_cksum h) = 64"
    "can_write t FW_ENCRYPT_FILE"
  shows "\<exists>fs'. vi_install t ck0 (sig @ enc) h fs = (0, fs') \<and> fs' FW_INSTALL_FILE = Some data"
  using assms by (simp add: vi_install_def vi_decrypt_def Let_def vi_remove_temp_def)

lemma vi_same_version_iff:
  "vi_same_version False h fs = Some True \<longleftrightarrow>
    (\<exists>v. vi_config fs VERSION_FILE = Some v \<and> strncmp_eq v (fw_version h) (length (fw_version h)))"
  by (auto simp: vi_same_version_def)

lemma strncmp_eq_prefix:
  "0 \<notin> set b \<Longrightarrow> strncmp_eq a b (length b) \<longleftrightarrow> (\<exists>r. a = b @ r)"
proof -
  assume nz: "0 \<notin> set b"
  show ?thesis
  proof
    assume "strncmp_eq a b (length b)"
    then have eq: "take (length b) (a @ [0]) = b"
      by (simp add: strncmp_eq_def)
    have "length b \<le> length a"
    proof (rule ccontr)
      assume "\<not> length b \<le> length a"
      then have "0 \<in> set (take (length b) (a @ [0]))"
        by (simp add: take_Cons')
      then show False
        using nz eq by (metis Un_iff set_append)
    qed
    then have "take (length b) a = b"
      using eq by simp
    then show "\<exists>r. a = b @ r"
      by (metis append_take_drop_id)
  next
    assume "\<exists>r. a = b @ r"
    then show "strncmp_eq a b (length b)"
      by (auto simp: strncmp_eq_def)
  qed
qed

lemma strncmp_eq_refl [simp]: "strncmp_eq a a n"
  by (simp add: strncmp_eq_def)

lemma DEFAULT_MODEL_simps [simp]:
  "length (DEFAULT_MODEL p) = 5" "0 \<notin> set (DEFAULT_MODEL p)"
  by (cases p; simp add: DEFAULT_MODEL_def str_def)+

lemma validate_model_Some: "validate_model p m = Some model \<Longrightarrow> model = DEFAULT_MODEL p"
  by (auto simp: validate_model_def split: option.splits if_splits)

lemma vi_hub_checks_pass:
  assumes "vi_config fs MODEL_FILE = Some m" "strncmp_eq m (fw_model h) 4" "vi_config fs CUSTOMER_FILE = Some c"
    "fw_customer h = CUSTOMER_ALL \<or> fw_customer h = c"
  shows "vi_hub_checks h fs = 0"
  using assms by (auto simp: vi_hub_checks_def)

lemma vi_config_frame: "(\<And>p. p \<notin> vi_files \<Longrightarrow> fs' p = fs p) \<Longrightarrow> q \<notin> vi_files \<Longrightarrow> vi_config fs' q = vi_config fs q"
  by (simp add: vi_config_def)

lemma build_image_success:
  assumes "tools_ok t" "build_image_main p t opts (Some path) fs = (0, fs1)"
    "bi_options opts \<lparr>modelarg = None, prefixarg = None, customerarg = None\<rparr> = Inr a"
    "path \<notin> {''header.aes'', ''header.signed'', ''image.encrypted''}"
  shows "\<exists>h sig enc data customer out. validate_customer (customerarg a) = Some customer \<and>
    build_header t (DEFAULT_MODEL p) customer data = Some h \<and> fs path = Some data \<and>
    fs1 (build_output (case prefixarg a of None \<Rightarrow> ''hubOS'' | Some q \<Rightarrow> q)) = Some (sig @ enc) \<and> length sig = 512 \<and>
    rsa_verify t sig = Some (header_bytes h) \<and> cbc_dec t (fw_key h) (fw_iv h) enc = Some data"
proof -
  let ?out = "build_output (case prefixarg a of None \<Rightarrow> ''hubOS'' | Some q \<Rightarrow> q)"
  obtain model customer data h where run: "validate_model p (modelarg a) = Some model"
      "validate_customer (customerarg a) = Some customer" "fs path = Some data"
      "build_header t model customer data = Some h" "build_files t h path ?out fs = (True, fs1)"
    using assms(2,3) by (auto simp: build_image_main_def split: option.splits prod.splits if_splits)
  have "model = DEFAULT_MODEL p"
    using run(1) by (rule validate_model_Some)
  then show ?thesis
    using run build_files_result [OF assms(1) run(5) assms(4) build_output_not_temp] by auto
qed

lemma round_trip:
  assumes "tools_ok t"
    and "build_image_main p t opts (Some path) fs = (0, fs1)"
    and "bi_options opts \<lparr>modelarg = None, prefixarg = None, customerarg = None\<rparr> = Inr a"
    and "path \<notin> {''header.aes'', ''header.signed'', ''image.encrypted''}"
    and "validate_customer (customerarg a) = Some customer" "length customer < 16" "0 \<notin> set customer"
    and "hub img = fs1 (build_output (case prefixarg a of None \<Rightarrow> ''hubOS'' | Some q \<Rightarrow> q))" "img \<notin> vi_files"
    and "vi_config hub MODEL_FILE = Some m" "strncmp_eq m (DEFAULT_MODEL p) 4"
    and "vi_config hub CUSTOMER_FILE = Some c" "customer = CUSTOMER_ALL \<or> customer = c"
    and "vi_config hub VERSION_FILE = Some v" "\<not> strncmp_eq v build_version (length build_version)"
    and "can_write t HEADER_SIGNED_FILE" "can_write t FW_ENCRYPT_FILE"
  shows "\<exists>hub'. validate_image_main t ck0 [] (Some img) hub = (0, hub') \<and> hub' FW_INSTALL_FILE = fs path"
proof -
  obtain h sig enc data where h: "build_header t (DEFAULT_MODEL p) customer data = Some h" "fs path = Some data"
      "hub img = Some (sig @ enc)" "length sig = 512" "rsa_verify t sig = Some (header_bytes h)"
      "cbc_dec t (fw_key h) (fw_iv h) enc = Some data"
    using build_image_success [OF assms(1-4)] assms(5,8) by auto
  have ok: "header_ok h"
    using build_header_ok [OF assms(1) h(1)] assms(7) by simp
  obtain out where fields: "fw_model h = take 15 (DEFAULT_MODEL p)" "fw_customer h = customer" "fw_version h = build_version"
      "sha256sum t data = Some out" "scan_word out = Some (fw_cksum h)"
    using build_header_fields [OF h(1)] assms(6) by auto
  let ?fs0 = "echo_led (can_write t) ''upgrade-decrypt'' hub"
  let ?fs = "?fs0(HEADER_SIGNED_FILE \<mapsto> sig, HEADER_FILE \<mapsto> header_bytes h)"
  have frame: "?fs q = hub q" if "q \<notin> vi_files" for q
    using echo_led_frame [OF that] that by (simp add: vi_files_def)
  have cfg: "vi_config ?fs MODEL_FILE = Some m" "vi_config ?fs CUSTOMER_FILE = Some c" "vi_config ?fs VERSION_FILE = Some v"
    using assms(10,12,14) vi_config_frame [of ?fs hub, OF frame] by (simp_all add: vi_files_def)
  have model: "take 15 (DEFAULT_MODEL p) = DEFAULT_MODEL p"
    by simp
  have "vi_hub_checks h ?fs = 0"
    by (rule vi_hub_checks_pass [OF cfg(1) _ cfg(2)]) (use fields model assms(11,13) in auto)
  moreover have "vi_same_version False h ?fs = Some False"
    using cfg(3) fields(3) assms(15) by (simp add: vi_same_version_def)
  moreover obtain fs' where "vi_install t ck0 (sig @ enc) h ?fs = (0, fs')" "fs' FW_INSTALL_FILE = Some data"
    using vi_install_good [OF h(4,6) fields(4,5) _ assms(17)] ok by (auto simp: header_ok_def)
  ultimately show ?thesis
    using h vi_read_header_signed [OF h(4,5) ok assms(16)] by (simp add: validate_image_main_def vi_hub_def)
qed

text \<open>C7: a firmware archive packed by \<^verbatim>\<open>build_image\<close> and given to \<^verbatim>\<open>validate_image\<close> on a hub of the same
  model family and customer (or built for all customers) that does not run this version yet is accepted,
  and the install file it writes is the archive, byte for byte.\<close>

theorem build_validate_round_trip:
  assumes "tools_ok t"
    and "build_image_main p t opts (Some path) fs = (0, fs1)"
    and "bi_options opts \<lparr>modelarg = None, prefixarg = None, customerarg = None\<rparr> = Inr a"
    and "path \<notin> {''header.aes'', ''header.signed'', ''image.encrypted''}"
    and "validate_customer (customerarg a) = Some customer" "length customer < 16" "0 \<notin> set customer"
    and "hub img = fs1 (build_output (case prefixarg a of None \<Rightarrow> ''hubOS'' | Some q \<Rightarrow> q))" "img \<notin> vi_files"
    and "vi_config hub MODEL_FILE = Some m" "strncmp_eq m (DEFAULT_MODEL p) 4"
    and "vi_config hub CUSTOMER_FILE = Some c" "customer = CUSTOMER_ALL \<or> customer = c"
    and "vi_config hub VERSION_FILE = Some v" "\<not> strncmp_eq v build_version (length build_version)"
    and "can_write t HEADER_SIGNED_FILE" "can_write t FW_ENCRYPT_FILE"
  shows "\<exists>hub'. validate_image_main t ck0 [] (Some img) hub = (0, hub') \<and> hub' FW_INSTALL_FILE = fs path"
  using assms by (rule round_trip)

lemma vi_read_header_Inr:
  "vi_read_header t img fs = (Inr h, fs1) \<Longrightarrow>
    \<exists>hdr. rsa_verify t (take 512 (img @ replicate 512 0)) = Some hdr \<and> h = header_of_bytes (take 200 hdr)"
  by (auto simp: vi_read_header_def Let_def split: if_splits option.splits)

lemma vi_install_0:
  assumes "vi_install t ck0 img h fs = (0, fs')" "tools_ok t"
  shows "512 \<le> length img \<and> (\<exists>data out. cbc_dec t (fw_key h) (fw_iv h) (drop 512 img) = Some data \<and>
    fs' FW_INSTALL_FILE = Some data \<and> sha256sum t data = Some out \<and> scan_word out = Some (fw_cksum h))"
proof -
  obtain fs2 where dec: "vi_decrypt t ck0 img h fs = (0, fs2)" "fs' = vi_remove_temp fs2"
    using assms(1) by (auto simp: vi_install_def split: prod.splits if_splits dest!: vi_error_exit_clean)
  then obtain data out ck where *: "512 \<le> length img" "cbc_dec t (fw_key h) (fw_iv h) (drop 512 img) = Some data"
      "fs2 FW_INSTALL_FILE = Some data" "sha256sum t data = Some out" "scan_word out = Some ck"
      "take 64 (ck @ [0] @ drop (length ck + 1) ck0) = fw_cksum h"
    by (auto simp: vi_decrypt_def Let_def bind_eq_Some_conv split: if_splits option.splits)
  then have "length ck = 64"
    using assms(2) unfolding tools_ok_def by (metis option.inject)
  then show ?thesis
    using * dec(2) by (auto simp: vi_remove_temp_def)
qed

lemma vi_hub_0:
  assumes "vi_hub t ck0 skip img h fs = (0, fs')" "fs' FW_INSTALL_FILE \<noteq> None"
  shows "vi_hub_checks h fs = 0 \<and> vi_install t ck0 img h fs = (0, fs')"
  using assms by (auto simp: vi_hub_def split: option.splits if_splits dest!: vi_error_exit_clean)

lemma vi_hub_checks_0:
  assumes "vi_hub_checks h fs = 0"
  shows "\<exists>m c. vi_config fs MODEL_FILE = Some m \<and> strncmp_eq m (fw_model h) 4 \<and> vi_config fs CUSTOMER_FILE = Some c \<and>
    (strncmp_eq CUSTOMER_ALL (fw_customer h) (length (fw_customer h)) \<or>
     strncmp_eq c (fw_customer h) (length (fw_customer h)))"
  using assms by (auto simp: vi_hub_checks_def split: option.splits if_splits)

text \<open>C9: whenever the validation of an existing file fails, the install file and the temporary files are
  gone and the error is shown on the LEDs: nothing is left to be installed.\<close>

theorem validate_failure_leaves_nothing:
  assumes "validate_image_main t ck0 opts (Some img) fs = (code, fs')" "code \<noteq> 0"
    and "vi_options opts (False, False) = Inr a" "fs img \<noteq> None"
  shows "fs' FW_INSTALL_FILE = None \<and> fs' FW_ENCRYPT_FILE = None \<and> fs' HEADER_SIGNED_FILE = None \<and>
    fs' HEADER_FILE = None \<and>
    (can_write t LED_MODE_FILE \<longrightarrow> fs' LED_MODE_FILE = Some (str ''upgrade-decrypt-err'' @ [10]))"
  using assms
  by (auto simp: validate_image_main_def vi_hub_def vi_install_def dest!: vi_error_exit_clean
    split: prod.splits sum.splits option.splits if_splits)

text \<open>What a hub may rely on when it accepts an image: a valid signature, the file being the decrypted rest
  of the image, its checksum, and the model and customer of the header.\<close>

definition accepted :: "tools \<Rightarrow> fsys \<Rightarrow> bytes \<Rightarrow> bytes \<Rightarrow> bool" where
  "accepted t fs img data \<longleftrightarrow> (\<exists>hdr out m c. rsa_verify t (take 512 img) = Some hdr \<and>
    (let h = header_of_bytes (take 200 hdr) in
      cbc_dec t (fw_key h) (fw_iv h) (drop 512 img) = Some data \<and>
      sha256sum t data = Some out \<and> scan_word out = Some (fw_cksum h) \<and>
      vi_config fs MODEL_FILE = Some m \<and> strncmp_eq m (fw_model h) 4 \<and>
      vi_config fs CUSTOMER_FILE = Some c \<and>
      (strncmp_eq CUSTOMER_ALL (fw_customer h) (length (fw_customer h)) \<or>
       strncmp_eq c (fw_customer h) (length (fw_customer h)))))"

lemma accepted_sound:
  assumes "validate_image_main t ck0 opts (Some path) fs = (0, fs')" "fs' FW_INSTALL_FILE = Some data"
    and "vi_options opts (False, False) = Inr (False, skip)" "fs path = Some img" "tools_ok t"
  shows "accepted t fs img data"
proof -
  let ?fs0 = "echo_led (can_write t) ''upgrade-decrypt'' fs"
  obtain h fs1 where run: "vi_read_header t img ?fs0 = (Inr h, fs1)" "vi_hub t ck0 skip img h fs1 = (0, fs')"
    using assms(1,3,4) assms(2)
    by (auto simp: validate_image_main_def split: prod.splits sum.splits dest!: vi_error_exit_clean)
  note hub = vi_hub_0 [OF run(2)]
  note inst = vi_install_0 [OF _ assms(5), of ck0 img h fs1 fs']
  obtain hdr where hdr: "rsa_verify t (take 512 (img @ replicate 512 0)) = Some hdr" "h = header_of_bytes (take 200 hdr)"
    using vi_read_header_Inr [OF run(1)] by blast
  have frame: "fs1 q = fs q" if "q \<notin> vi_files" for q
    using vi_read_header_frame [OF that, of t img ?fs0] echo_led_frame [OF that] run(1) by simp
  have cfg: "vi_config fs1 MODEL_FILE = vi_config fs MODEL_FILE" "vi_config fs1 CUSTOMER_FILE = vi_config fs CUSTOMER_FILE"
    by (rule vi_config_frame [OF frame]; simp add: vi_files_def)+
  show ?thesis
    using hub inst hdr vi_hub_checks_0 [of h fs1] assms(2) unfolding cfg Let_def accepted_def by auto
qed

text \<open>C8: an install file left by a successful validation (on a hub, not in manufacturing mode) passed
  every check: the header carries a valid signature, the file is the decrypted rest of the image, its
  SHA256 checksum is the one in the header, and model and customer of the header suit the hub.\<close>

theorem validate_accepts_sound:
  assumes "validate_image_main t ck0 opts (Some path) fs = (0, fs')" "fs' FW_INSTALL_FILE = Some data"
    and "vi_options opts (False, False) = Inr (False, skip)" "fs path = Some img" "tools_ok t"
  shows "\<exists>hdr out m c. rsa_verify t (take 512 img) = Some hdr \<and>
    (let h = header_of_bytes (take 200 hdr) in
      cbc_dec t (fw_key h) (fw_iv h) (drop 512 img) = Some data \<and>
      sha256sum t data = Some out \<and> scan_word out = Some (fw_cksum h) \<and>
      vi_config fs MODEL_FILE = Some m \<and> strncmp_eq m (fw_model h) 4 \<and>
      vi_config fs CUSTOMER_FILE = Some c \<and>
      (strncmp_eq CUSTOMER_ALL (fw_customer h) (length (fw_customer h)) \<or>
       strncmp_eq c (fw_customer h) (length (fw_customer h))))"
  using accepted_sound [OF assms] unfolding accepted_def .

text \<open>The version check calls the hub's version the same as the image's exactly when the hub's
  version string starts with the image's. A hub that runs a special build, whose version has a suffix,
  therefore skips the release of the same number.\<close>

theorem same_version_iff_prefix:
  assumes "0 \<notin> set (fw_version h)"
  shows "vi_same_version False h fs = Some True \<longleftrightarrow> (\<exists>suffix. vi_config fs VERSION_FILE = Some (fw_version h @ suffix))"
  using strncmp_eq_prefix [OF assms] by (auto simp: vi_same_version_iff)

section \<open>Concrete runs\<close>

text \<open>An instance of the tools that satisfies their laws.\<close>

definition sample_tools :: tools where
  "sample_tools =
    \<lparr>rsa_sign = (\<lambda>b. if length b = 200 then Some (b @ replicate 312 0) else None),
     rsa_verify = (\<lambda>s. Some (take 200 s)),
     cbc_enc = (\<lambda>k iv d. Some (rev d)), cbc_dec = (\<lambda>k iv e. Some (rev e)),
     sha256sum = (\<lambda>d. Some (replicate 64 (if even (length d) then 97 else 98))),
     rand_hex = (\<lambda>n. Some (replicate 32 (if n = 0 then 48 else 49))),
     can_write = (\<lambda>_. True)\<rparr>"

lemma scan_word_replicate [simp]:
  "\<lbrakk> \<not> is_space c; c \<noteq> 0; 0 < n \<rbrakk> \<Longrightarrow> scan_word (replicate n c) = Some (replicate n c)"
  by (cases n) (simp_all add: scan_word_def cstr_def)

lemma sample_tools_ok: "tools_ok sample_tools"
  by (auto simp: tools_ok_def sample_tools_def is_space_def)

definition sample_fw :: fsys where
  "sample_fw = [''fw.tgz'' \<mapsto> [1, 2, 3]]"

definition sample_hub :: "bytes option \<Rightarrow> fsys" where
  "sample_hub img = (Map.empty(MODEL_FILE \<mapsto> str ''IH300'', CUSTOMER_FILE \<mapsto> str ''IRIS'',
     VERSION_FILE \<mapsto> str ''v2.0.0.001''))(''/tmp/up.bin'' := img)"

lemma sample_hub_config:
  "vi_config (sample_hub img) MODEL_FILE = Some (str ''IH300'')"
  "vi_config (sample_hub img) CUSTOMER_FILE = Some (str ''IRIS'')"
  "vi_config (sample_hub img) VERSION_FILE = Some (str ''v2.0.0.001'')"
  by (simp_all add: vi_config_def sample_hub_def scan_word_def is_space_def str_def cstr_def)

lemma sample_build:
  "\<exists>fs1. build_image_main imxdimagic sample_tools [] (Some ''fw.tgz'') sample_fw = (0, fs1)"
  by (simp add: build_image_main_def validate_model_def validate_customer_def sample_fw_def build_header_def
    sample_tools_def is_space_def build_files_def Let_def len_simps)

theorem build_validate_round_trip_witness:
  "\<exists>fs1. build_image_main imxdimagic sample_tools [] (Some ''fw.tgz'') sample_fw = (0, fs1) \<and>
    (\<exists>hub'. validate_image_main sample_tools [] [] (Some ''/tmp/up.bin'') (sample_hub (fs1 ''hubOS_3.0.1.029.bin'')) = (0, hub') \<and>
      hub' FW_INSTALL_FILE = Some [1, 2, 3])"
proof -
  obtain fs1 where run: "build_image_main imxdimagic sample_tools [] (Some ''fw.tgz'') sample_fw = (0, fs1)"
    using sample_build by blast
  let ?hub = "sample_hub (fs1 ''hubOS_3.0.1.029.bin'')"
  have "\<exists>hub'. validate_image_main sample_tools [] [] (Some ''/tmp/up.bin'') ?hub = (0, hub') \<and>
      hub' FW_INSTALL_FILE = sample_fw ''fw.tgz''"
    by (rule build_validate_round_trip [OF sample_tools_ok run, where customer = "str ''IRIS''" and
        a = "\<lparr>modelarg = None, prefixarg = None, customerarg = None\<rparr>", OF _ _ _ _ _ _ _
        sample_hub_config(1) _ sample_hub_config(2) _ sample_hub_config(3)])
      (simp_all add: validate_customer_def DEFAULT_CUSTOMER_def str_def build_output_def sample_hub_def vi_files_def
        strncmp_eq_def DEFAULT_MODEL_def build_version_def sample_tools_def)
  then show ?thesis
    using run by (simp add: sample_fw_def)
qed

text \<open>An image whose signature cannot be verified.\<close>

lemma sample_bad_signature:
  "fst (validate_image_main (sample_tools\<lparr>rsa_verify := \<lambda>_. None\<rparr>) [] [] (Some ''/tmp/up.bin'') (sample_hub (Some [7]))) = 6"
  by (simp add: validate_image_main_def sample_hub_def echo_led_def IRIS_setLedMode_def sample_tools_def
    vi_read_header_def Let_def vi_error_exit_def)

theorem validate_failure_leaves_nothing_witness:
  "\<exists>fs'. validate_image_main (sample_tools\<lparr>rsa_verify := \<lambda>_. None\<rparr>) [] [] (Some ''/tmp/up.bin'') (sample_hub (Some [7])) = (6, fs') \<and>
    fs' FW_INSTALL_FILE = None \<and> fs' LED_MODE_FILE = Some (str ''upgrade-decrypt-err'' @ [10])"
proof -
  let ?t = "sample_tools\<lparr>rsa_verify := \<lambda>_. None\<rparr>"
  obtain fs' where run: "validate_image_main ?t [] [] (Some ''/tmp/up.bin'') (sample_hub (Some [7])) = (6, fs')"
    using sample_bad_signature by (metis prod.collapse)
  have "fs' FW_INSTALL_FILE = None \<and> fs' FW_ENCRYPT_FILE = None \<and> fs' HEADER_SIGNED_FILE = None \<and>
    fs' HEADER_FILE = None \<and>
    (can_write ?t LED_MODE_FILE \<longrightarrow> fs' LED_MODE_FILE = Some (str ''upgrade-decrypt-err'' @ [10]))"
    by (rule validate_failure_leaves_nothing [OF run]) (simp_all add: sample_hub_def)
  then show ?thesis
    using run by (simp add: sample_tools_def)
qed

text \<open>A signed image, built by hand around a sample header.\<close>

definition sample_header :: fw_header where
  "sample_header = \<lparr>header_version = 0, image_size = 3, fw_version = build_version, fw_model = str ''IH304'',
     fw_customer = str ''IRIS'', fw_cksum = replicate 64 98, fw_key = replicate 32 48, fw_iv = replicate 32 49\<rparr>"

lemma sample_header_ok: "header_ok sample_header"
  by (simp add: header_ok_def sample_header_def build_version_def str_def)

definition sample_image :: bytes where
  "sample_image = (header_bytes sample_header @ replicate 312 0) @ [3, 2, 1]"

lemma sample_validate:
  "\<exists>fs'. validate_image_main sample_tools [] [ViSkip] (Some ''/tmp/up.bin'') (sample_hub (Some sample_image)) = (0, fs') \<and>
    fs' FW_INSTALL_FILE = Some [1, 2, 3]"
proof -
  let ?hub = "sample_hub (Some sample_image)" and ?sig = "header_bytes sample_header @ replicate 312 0"
  let ?fs = "(echo_led (can_write sample_tools) ''upgrade-decrypt'' ?hub)
    (HEADER_SIGNED_FILE \<mapsto> ?sig, HEADER_FILE \<mapsto> header_bytes sample_header)"
  have "vi_read_header sample_tools sample_image (echo_led (can_write sample_tools) ''upgrade-decrypt'' ?hub) =
      (Inr sample_header, ?fs)"
    unfolding sample_image_def
    by (rule vi_read_header_signed) (simp_all add: len_simps sample_header_ok, simp_all add: sample_tools_def len_simps)
  moreover have "\<exists>fs'. vi_install sample_tools [] sample_image sample_header ?fs = (0, fs') \<and> fs' FW_INSTALL_FILE = Some [1, 2, 3]"
    unfolding sample_image_def
    by (rule vi_install_good [where out = "replicate 64 98"]) (simp_all add: len_simps sample_tools_def sample_header_def is_space_def)
  moreover have "vi_hub_checks sample_header ?fs = 0"
    using sample_hub_config [of "Some sample_image"]
    by (simp add: vi_hub_checks_def vi_config_def echo_led_def IRIS_setLedMode_def sample_header_def strncmp_eq_def str_def
      CUSTOMER_ALL_def)
  ultimately show ?thesis
    by (simp add: validate_image_main_def vi_hub_def vi_same_version_def sample_hub_def)
qed

theorem validate_accepts_sound_witness:
  "\<exists>fs' hdr. validate_image_main sample_tools [] [ViSkip] (Some ''/tmp/up.bin'') (sample_hub (Some sample_image)) = (0, fs') \<and>
    rsa_verify sample_tools (take 512 sample_image) = Some hdr \<and> fw_model (header_of_bytes (take 200 hdr)) = str ''IH304''"
proof -
  obtain fs' where run: "validate_image_main sample_tools [] [ViSkip] (Some ''/tmp/up.bin'') (sample_hub (Some sample_image)) = (0, fs')"
      "fs' FW_INSTALL_FILE = Some [1, 2, 3]"
    using sample_validate by blast
  have "\<exists>hdr out m c. rsa_verify sample_tools (take 512 sample_image) = Some hdr \<and>
    (let h = header_of_bytes (take 200 hdr) in
      cbc_dec sample_tools (fw_key h) (fw_iv h) (drop 512 sample_image) = Some [1, 2, 3] \<and>
      sha256sum sample_tools [1, 2, 3] = Some out \<and> scan_word out = Some (fw_cksum h) \<and>
      vi_config (sample_hub (Some sample_image)) MODEL_FILE = Some m \<and> strncmp_eq m (fw_model h) 4 \<and>
      vi_config (sample_hub (Some sample_image)) CUSTOMER_FILE = Some c \<and>
      (strncmp_eq CUSTOMER_ALL (fw_customer h) (length (fw_customer h)) \<or>
       strncmp_eq c (fw_customer h) (length (fw_customer h))))"
    by (rule validate_accepts_sound [OF run]) (simp_all add: sample_hub_def sample_tools_ok)
  then obtain hdr where "rsa_verify sample_tools (take 512 sample_image) = Some hdr" by blast
  moreover have "rsa_verify sample_tools (take 512 sample_image) = Some (header_bytes sample_header)"
    by (simp add: sample_tools_def sample_image_def len_simps)
  moreover have "fw_model (header_of_bytes (take 200 (header_bytes sample_header))) = str ''IH304''"
    using header_codec [OF sample_header_ok] by (simp add: len_simps) (simp add: sample_header_def)
  ultimately show ?thesis
    using run(1) by auto
qed

theorem same_version_iff_prefix_witness:
  "vi_same_version False sample_header [VERSION_FILE \<mapsto> str ''v3.0.1.029fix7''] = Some True"
  using same_version_iff_prefix [of sample_header "[VERSION_FILE \<mapsto> str ''v3.0.1.029fix7'']"]
  by (simp add: sample_header_def build_version_def str_def vi_config_def scan_word_def is_space_def cstr_def)

end
