(* ===== verification/FwInstall.thy ===== *)
theory FwInstall
  imports Image
begin

text \<open>
  Installing an unpacked firmware archive into one of the two boot slots,
  \<^verbatim>\<open>iris-utils/files/fwinstall.c\<close>. The file system also holds the storage the program writes: the
  files of a kernel partition are those under its mount point, and a root file system partition or the
  boot flash is the contents of its device file. File modes and owners, the pokes of the watchdog and the
  (empty) mount point directories are not modelled.
\<close>

section \<open>Environment\<close>

text \<open>What the program learns from the system: \<open>untar\<close> gives the members of an archive (relative to
  the working directory), \<open>sums_ok\<close> the verdict of \<^verbatim>\<open>sha256sum -c\<close> on the unpacked files, \<open>mounts\<close> which
  devices can be mounted, \<open>cmdline\<close> the kernel's command line, \<open>link1\<close> and \<open>link2\<close> the partitions behind
  the two root file system devices. \<open>copy\<close>, \<open>dev_write\<close> and \<open>flash\<close> give what copying a file, writing
  a block to a device and \<^verbatim>\<open>dd\<close> to the boot flash leave on the medium. \<open>radio_ok\<close> is the verdict of a
  command that programs a radio.\<close>

record fwenv =
  plat :: platform
  untar :: "bytes \<Rightarrow> (string \<times> bytes) list option"
  sums_ok :: "fsys \<Rightarrow> bool"
  mounts :: "string \<Rightarrow> bool"
  cmdline :: "bytes option"
  link1 :: bytes
  link2 :: bytes
  writable :: "string \<Rightarrow> bool"
  copy :: sendfile
  dev_write :: "nat \<Rightarrow> bytes \<Rightarrow> nat \<times> bytes"
  flash :: "bytes \<Rightarrow> bytes option"
  radio_ok :: "string \<Rightarrow> bool"
  model_buf :: bytes

text \<open>The state: the files and the commands run that act outside of them. A step ends the program with
  an exit code, or goes on.\<close>

record fwstate =
  files :: fsys
  commands :: "string list"

type_synonym fwresult = "nat \<times> fwstate + fwstate"

definition andthen :: "fwresult \<Rightarrow> (fwstate \<Rightarrow> fwresult) \<Rightarrow> fwresult" where
  "andthen r f = (case r of Inl e \<Rightarrow> Inl e | Inr s \<Rightarrow> f s)"

abbreviation (input) INSTALL_IN_PROCESS :: nat where "INSTALL_IN_PROCESS \<equiv> 11"
abbreviation (input) INSTALL_UNPACK_ERR :: nat where "INSTALL_UNPACK_ERR \<equiv> 12"
abbreviation (input) INSTALL_ARCHIVE_CKSUM_ERR :: nat where "INSTALL_ARCHIVE_CKSUM_ERR \<equiv> 13"
abbreviation (input) INSTALL_MOUNT_ERR :: nat where "INSTALL_MOUNT_ERR \<equiv> 14"
abbreviation (input) INSTALL_ZWAVE_ERR :: nat where "INSTALL_ZWAVE_ERR \<equiv> 15"
abbreviation (input) INSTALL_ZIGBEE_ERR :: nat where "INSTALL_ZIGBEE_ERR \<equiv> 16"
abbreviation (input) INSTALL_BLE_ERR :: nat where "INSTALL_BLE_ERR \<equiv> 17"
abbreviation (input) INSTALL_HARD_ERRORS :: nat where "INSTALL_HARD_ERRORS \<equiv> 20"
abbreviation (input) INSTALL_UBOOT_ERR :: nat where "INSTALL_UBOOT_ERR \<equiv> 21"
abbreviation (input) INSTALL_KERNEL_ERR :: nat where "INSTALL_KERNEL_ERR \<equiv> 22"
abbreviation (input) INSTALL_ROOTFS_ERR :: nat where "INSTALL_ROOTFS_ERR \<equiv> 23"

abbreviation (input) INSTALL_LOCK_FILE :: string where "INSTALL_LOCK_FILE \<equiv> ''/var/lock/fwinstall''"
abbreviation (input) TMP_KERNEL1_DIR :: string where "TMP_KERNEL1_DIR \<equiv> ''/tmp/kernel1''"
abbreviation (input) TMP_KERNEL2_DIR :: string where "TMP_KERNEL2_DIR \<equiv> ''/tmp/kernel2''"
abbreviation (input) KERNEL1_DEV :: string where "KERNEL1_DEV \<equiv> ''/dev/kern1''"
abbreviation (input) KERNEL2_DEV :: string where "KERNEL2_DEV \<equiv> ''/dev/kern2''"
abbreviation (input) DEV_ROOTFS1 :: string where "DEV_ROOTFS1 \<equiv> ''/dev/fs1''"
abbreviation (input) DEV_ROOTFS2 :: string where "DEV_ROOTFS2 \<equiv> ''/dev/fs2''"
abbreviation (input) BOOT_DEV :: string where "BOOT_DEV \<equiv> ''/dev/mmcblk0p1''"
abbreviation (input) BOOT_FLASH :: string where "BOOT_FLASH \<equiv> ''/dev/mmcblk2boot0''"
abbreviation (input) UPDATE_DIR :: string where "UPDATE_DIR \<equiv> ''/tmp/update/''"
abbreviation (input) FIRMWARE_DIR :: string where "FIRMWARE_DIR \<equiv> ''/data/firmware/''"
abbreviation (input) READ_BLOCK_SIZE :: nat where "READ_BLOCK_SIZE \<equiv> 1024"
abbreviation (input) IMAGE_VALIDATE_ERR :: nat where "IMAGE_VALIDATE_ERR \<equiv> 2"

text \<open>The names that depend on the platform.\<close>

definition UBOOT_MLO :: "platform \<Rightarrow> string" where
  "UBOOT_MLO p = (case p of beaglebone_yocto \<Rightarrow> ''/tmp/update/MLO-beaglebone'' | imxdimagic \<Rightarrow> ''/tmp/update/u-boot-imxdimagic.imx'')"

definition UBOOT_IMAGE :: "platform \<Rightarrow> string" where
  "UBOOT_IMAGE p = (case p of beaglebone_yocto \<Rightarrow> ''/tmp/update/u-boot-beaglebone.img'' | imxdimagic \<Rightarrow> ''/tmp/update/u-boot-imxdimagic.imx'')"

definition KERNEL_IMAGE :: "platform \<Rightarrow> string" where
  "KERNEL_IMAGE p = (case p of beaglebone_yocto \<Rightarrow> ''/tmp/update/uImage-beaglebone.bin'' | imxdimagic \<Rightarrow> ''/tmp/update/zImage-imxdimagic.bin'')"

definition KERNEL_TMP_IMAGE :: "platform \<Rightarrow> string" where
  "KERNEL_TMP_IMAGE p = (case p of beaglebone_yocto \<Rightarrow> ''/boot/uImage'' | imxdimagic \<Rightarrow> ''/zImage'')"

definition KERNEL_DTB :: "platform \<Rightarrow> string" where
  "KERNEL_DTB p = (case p of beaglebone_yocto \<Rightarrow> ''/tmp/update/uImage-am335x-boneblack.dtb'' | imxdimagic \<Rightarrow> ''/tmp/update/zImage-imx6dl-imagic.dtb'')"

definition KERNEL_TMP_DTB :: "platform \<Rightarrow> string" where
  "KERNEL_TMP_DTB p = (case p of beaglebone_yocto \<Rightarrow> ''/boot/am335x-boneblack.dtb'' | imxdimagic \<Rightarrow> ''/imx6dl-imagic.dtb'')"

definition ROOTFS_FILE :: "platform \<Rightarrow> string" where
  "ROOTFS_FILE p = (case p of beaglebone_yocto \<Rightarrow> ''/tmp/update/core-image-minimal-iris-beaglebone.squashfs''
     | imxdimagic \<Rightarrow> ''/tmp/update/core-image-minimal-iris-imxdimagic.squashfs'')"

section \<open>Helpers of the program\<close>

definition set_led :: "fwenv \<Rightarrow> string \<Rightarrow> fwstate \<Rightarrow> fwstate" where
  "set_led e mode s = s\<lparr>files := IRIS_setLedMode (writable e) (str mode) (files s)\<rparr>"

text \<open>\<^verbatim>\<open>rm -rf /tmp/update\<close>\<close>

definition rm_update :: "fsys \<Rightarrow> fsys" where
  "rm_update fs = (\<lambda>q. if take 12 q = UPDATE_DIR then None else fs q)"

definition cleanup_exit :: "nat \<Rightarrow> fwstate \<Rightarrow> fwresult" where
  "cleanup_exit code s = Inl (code, s\<lparr>files := (rm_update (files s))(INSTALL_LOCK_FILE := None)\<rparr>)"

definition led_exit :: "fwenv \<Rightarrow> string \<Rightarrow> nat \<Rightarrow> fwstate \<Rightarrow> fwresult" where
  "led_exit e mode code s = cleanup_exit code (set_led e mode s)"

text \<open>\<^verbatim>\<open>diff -q a b\<close> succeeds only on two existing files with the same contents.\<close>

definition diff_q :: "fsys \<Rightarrow> string \<Rightarrow> string \<Rightarrow> bool" where
  "diff_q fs a b \<longleftrightarrow> (case fs a of None \<Rightarrow> True | Some x \<Rightarrow> fs b \<noteq> Some x)"

definition stopHubAgent :: "fwstate \<Rightarrow> fwstate" where
  "stopHubAgent s = s\<lparr>commands := commands s @ [''killall irisagentd'', ''killall java'']\<rparr>"

text \<open>True on a mismatch. The blocks read from the device are as many as fit the file completely.\<close>

definition cmpFlashToFile :: "fsys \<Rightarrow> string \<Rightarrow> nat \<Rightarrow> nat \<Rightarrow> string \<Rightarrow> bool" where
  "cmpFlashToFile fs part offset bs filename =
    (case (fs filename, fs part) of
       (Some x, Some d) \<Rightarrow> take (length x div bs * bs) (drop (offset * bs) d) \<noteq> x
     | _ \<Rightarrow> True)"

section \<open>Options, lock, unpacking\<close>

datatype fw_opt = FwHelp | FwKill | FwSkipRadio | FwNoVerify | FwUnknown

record fwargs =
  verify :: bool
  killAgent :: bool
  skipradio :: bool

fun fw_options :: "fw_opt list \<Rightarrow> fwargs \<Rightarrow> nat + fwargs" where
  "fw_options [] a = Inr a"
| "fw_options (FwHelp # opts) a = Inl 0"
| "fw_options (FwKill # opts) a = fw_options opts (a\<lparr>killAgent := True\<rparr>)"
| "fw_options (FwSkipRadio # opts) a = fw_options opts (a\<lparr>skipradio := True\<rparr>)"
| "fw_options (FwNoVerify # opts) a = fw_options opts (a\<lparr>verify := False\<rparr>)"
| "fw_options (FwUnknown # opts) a = Inl INSTALL_ARG_ERR"

fun add_members :: "(string \<times> bytes) list \<Rightarrow> fsys \<Rightarrow> fsys" where
  "add_members [] fs = fs"
| "add_members ((name, data) # ms) fs = add_members ms (fs(''/tmp/'' @ name \<mapsto> data))"

definition fw_unpack :: "fwenv \<Rightarrow> string \<Rightarrow> fwstate \<Rightarrow> fwresult" where
  "fw_unpack e path s =
    (if files s INSTALL_LOCK_FILE \<noteq> None then Inl (INSTALL_IN_PROCESS, s)
     else (let s = s\<lparr>files := (if writable e INSTALL_LOCK_FILE then (files s)(INSTALL_LOCK_FILE \<mapsto> []) else files s)\<rparr>;
               s = set_led e ''upgrade-unpack'' s in
       case Option.bind (files s path) (untar e) of
         None \<Rightarrow> (let s = set_led e ''upgrade-unpack-err'' s in
                Inl (INSTALL_UNPACK_ERR, s\<lparr>files := (files s)(INSTALL_LOCK_FILE := None)\<rparr>))
       | Some ms \<Rightarrow>
           (let s = s\<lparr>files := add_members ms (files s)\<rparr> in
            if sums_ok e (files s) then Inr s
            else (let s = set_led e ''upgrade-unpack-err'' s in
              Inl (INSTALL_ARCHIVE_CKSUM_ERR, s\<lparr>files := rm_update ((files s)(INSTALL_LOCK_FILE := None))\<rparr>)))))"

definition fw_mount :: "fwenv \<Rightarrow> fwstate \<Rightarrow> fwresult" where
  "fw_mount e s =
    (if \<not> mounts e KERNEL1_DEV then led_exit e ''upgrade-unpack-err'' INSTALL_MOUNT_ERR s
     else if \<not> mounts e KERNEL2_DEV then led_exit e ''upgrade-unpack-err'' INSTALL_MOUNT_ERR s
     else Inr s)"

section \<open>The choice of the slot\<close>

definition bootindex :: "fsys \<Rightarrow> string \<Rightarrow> int" where
  "bootindex fs dir =
    (case Option.bind (fs (dir @ ''/bootindex'')) scan_int of None \<Rightarrow> -1 | Some i \<Rightarrow> i)"

definition check_indexes :: "fwenv \<Rightarrow> int \<times> int \<Rightarrow> int \<times> int" where
  "check_indexes e ix =
    (let (index1, index2) = ix in
     case cmdline e of
       None \<Rightarrow> (index1, index2)
     | Some line \<Rightarrow>
         if index1 > index2 \<and> \<not> strstr line (link1 e) then (-1, index2)
         else if index2 > index1 \<and> \<not> strstr line (link2 e) then (index1, -1)
         else (index1, index2))"

record slot =
  bootdir :: string
  rootfsdev :: string
  updateindex :: int

definition choose_slot :: "int \<times> int \<Rightarrow> slot" where
  "choose_slot ix =
    (let (index1, index2) = ix in
     if index1 > index2
     then \<lparr>bootdir = TMP_KERNEL2_DIR, rootfsdev = DEV_ROOTFS2, updateindex = index1 + 1\<rparr>
     else \<lparr>bootdir = TMP_KERNEL1_DIR, rootfsdev = DEV_ROOTFS1, updateindex = index2 + 1\<rparr>)"

definition select_slot :: "fwenv \<Rightarrow> fsys \<Rightarrow> slot" where
  "select_slot e fs = choose_slot (check_indexes e (bootindex fs TMP_KERNEL1_DIR, bootindex fs TMP_KERNEL2_DIR))"

section \<open>Boot loader, kernel, device tree\<close>

text \<open>The sequence that installs one file if it differs: remove, copy, verify. It is the same for the
  two boot loader files, the kernel and the device tree.\<close>

definition install_file :: "fwenv \<Rightarrow> bool \<Rightarrow> string \<Rightarrow> string \<Rightarrow> string \<Rightarrow> nat \<Rightarrow> fwstate \<Rightarrow> fwresult" where
  "install_file e vfy src dst errled code s =
    (if diff_q (files s) src dst then
       (case IRIS_copyFile (writable e) (copy e) src dst ((files s)(dst := None)) of
          (res, fs) \<Rightarrow>
            (let s = s\<lparr>files := fs\<rparr> in
             if res \<noteq> 0 then led_exit e errled code s
             else if vfy \<and> diff_q fs src dst then led_exit e errled code s
             else Inr s))
     else Inr s)"

text \<open>\<^verbatim>\<open>dd of=/dev/mmcblk2boot0 seek=2 bs=512\<close>\<close>

definition dd_flash :: "bytes \<Rightarrow> bytes \<Rightarrow> bytes" where
  "dd_flash stored dev = take 1024 dev @ stored @ drop (1024 + length stored) dev"

definition install_uboot_flash :: "fwenv \<Rightarrow> fwstate \<Rightarrow> fwresult" where
  "install_uboot_flash e s =
    (let img = UBOOT_IMAGE (plat e) in
     if cmpFlashToFile (files s) BOOT_FLASH 2 512 img then
       (case (Option.bind (files s img) (flash e), files s BOOT_FLASH) of
          (Some stored, Some dev) \<Rightarrow>
            (let s = s\<lparr>files := (files s)(BOOT_FLASH \<mapsto> dd_flash stored dev)\<rparr> in
             if cmpFlashToFile (files s) BOOT_FLASH 2 512 img
             then led_exit e ''upgrade-bootloader-err'' INSTALL_UBOOT_ERR s else Inr s)
        | _ \<Rightarrow> led_exit e ''upgrade-bootloader-err'' INSTALL_UBOOT_ERR s)
     else Inr s)"

definition fw_uboot :: "fwenv \<Rightarrow> bool \<Rightarrow> fwstate \<Rightarrow> fwresult" where
  "fw_uboot e vfy s0 =
    (let s = set_led e ''upgrade-bootloader'' s0 in
     if files s (UBOOT_MLO (plat e)) \<noteq> None \<and> files s (UBOOT_IMAGE (plat e)) \<noteq> None then
       (case plat e of
          beaglebone_yocto \<Rightarrow>
            if \<not> mounts e BOOT_DEV then led_exit e ''upgrade-bootloader-err'' INSTALL_UBOOT_ERR s
            else andthen
              (install_file e vfy (UBOOT_MLO (plat e)) ''/tmp/bootupdate/MLO'' ''upgrade-bootloader-err'' INSTALL_UBOOT_ERR s)
              (install_file e vfy (UBOOT_IMAGE (plat e)) ''/tmp/bootupdate/u-boot.img'' ''upgrade-bootloader-err'' INSTALL_UBOOT_ERR)
        | imxdimagic \<Rightarrow> install_uboot_flash e s)
     else Inr s)"

definition fw_kernel :: "fwenv \<Rightarrow> bool \<Rightarrow> slot \<Rightarrow> fwstate \<Rightarrow> fwresult" where
  "fw_kernel e vfy sl s0 =
    (let s = set_led e ''upgrade-kernel'' s0 in
     if files s (KERNEL_IMAGE (plat e)) \<noteq> None
     then install_file e vfy (KERNEL_IMAGE (plat e)) (bootdir sl @ KERNEL_TMP_IMAGE (plat e)) ''upgrade-kernel-err'' INSTALL_KERNEL_ERR s
     else Inr s)"

definition fw_dtb :: "fwenv \<Rightarrow> bool \<Rightarrow> slot \<Rightarrow> fwstate \<Rightarrow> fwresult" where
  "fw_dtb e vfy sl s =
    (if files s (KERNEL_DTB (plat e)) \<noteq> None
     then install_file e vfy (KERNEL_DTB (plat e)) (bootdir sl @ KERNEL_TMP_DTB (plat e)) ''upgrade-kernel-err'' INSTALL_KERNEL_ERR s
     else Inr s)"

section \<open>The root file system\<close>

text \<open>The copy loop: \<open>pos\<close> is the position in both files, the result the value of \<^verbatim>\<open>res\<close> and the device.
  As long as the device agrees with the image nothing is written; from the first block that differs on,
  everything is.\<close>

definition read_at :: "bytes \<Rightarrow> nat \<Rightarrow> nat \<Rightarrow> bytes" where
  "read_at f pos n = take n (drop pos f)"

definition write_at :: "bytes \<Rightarrow> nat \<Rightarrow> bytes \<Rightarrow> bytes" where
  "write_at dev pos stored = take pos dev @ stored @ drop (pos + length stored) dev"

definition readSize :: "bytes \<Rightarrow> nat \<Rightarrow> nat" where
  "readSize src pos = min READ_BLOCK_SIZE (length src - pos)"

function rootfs_copy :: "(nat \<Rightarrow> bytes \<Rightarrow> nat \<times> bytes) \<Rightarrow> bytes \<Rightarrow> nat \<Rightarrow> bool \<Rightarrow> bytes \<Rightarrow> nat \<times> bytes" where
  "rootfs_copy w src pos cmp dev =
    (if length src \<le> pos then (0, dev)
     else if cmp \<and> length (read_at dev pos (readSize src pos)) \<noteq> readSize src pos then (1, dev)
     else if cmp \<and> read_at src pos (readSize src pos) = read_at dev pos (readSize src pos)
       then rootfs_copy w src (pos + readSize src pos) True dev
     else (case w pos (read_at src pos (readSize src pos)) of
       (n, stored) \<Rightarrow>
         if n \<noteq> readSize src pos then (1, write_at dev pos stored)
         else rootfs_copy w src (pos + readSize src pos) False (write_at dev pos stored)))"
  by pat_completeness auto
termination
  by (relation "measure (\<lambda>(w, src, pos, cmp, dev). length src - pos)") (auto simp: readSize_def)

function rootfs_verify :: "bytes \<Rightarrow> bytes \<Rightarrow> nat \<Rightarrow> nat" where
  "rootfs_verify src dev pos =
    (if length src \<le> pos then 0
     else if length (read_at dev pos (readSize src pos)) \<noteq> readSize src pos then 1
     else if read_at src pos (readSize src pos) = read_at dev pos (readSize src pos)
       then rootfs_verify src dev (pos + readSize src pos)
     else IMAGE_VALIDATE_ERR)"
  by pat_completeness auto
termination
  by (relation "measure (\<lambda>(src, dev, pos). length src - pos)") (auto simp: readSize_def)

definition fw_rootfs :: "fwenv \<Rightarrow> bool \<Rightarrow> slot \<Rightarrow> fwstate \<Rightarrow> fwresult" where
  "fw_rootfs e vfy sl s =
    (case files s (ROOTFS_FILE (plat e)) of
       None \<Rightarrow> Inr s
     | Some src \<Rightarrow>
         (case files s (rootfsdev sl) of
            None \<Rightarrow> led_exit e ''upgrade-rootfs-err'' INSTALL_ROOTFS_ERR s
          | Some dev \<Rightarrow>
              (case rootfs_copy (dev_write e) src 0 True dev of
                 (res, dev') \<Rightarrow>
                   (let s = s\<lparr>files := (files s)(rootfsdev sl \<mapsto> dev')\<rparr>;
                        res = (if res = 0 \<and> vfy then rootfs_verify src dev' 0 else res) in
                    if res \<noteq> 0 then led_exit e ''upgrade-rootfs-err'' INSTALL_ROOTFS_ERR s else Inr s))))"

section \<open>Radio firmware\<close>

text \<open>One radio: the state is accompanied by the flag that says whether the agent is still to be
  stopped. The copy at the end is not checked.\<close>

definition install_radio ::
  "fwenv \<Rightarrow> string \<Rightarrow> string \<Rightarrow> string list \<Rightarrow> string \<Rightarrow> nat \<Rightarrow> bool \<Rightarrow> fwstate \<Rightarrow> nat \<times> fwstate + bool \<times> fwstate" where
  "install_radio e firmware led pre prog code kill s =
    (let orig = UPDATE_DIR @ firmware; path = FIRMWARE_DIR @ firmware in
     if files s orig \<noteq> None \<and> diff_q (files s) orig path then
       (let s = (if kill then stopHubAgent s else s);
            s = set_led e led s;
            s = s\<lparr>files := (files s)(path := None), commands := commands s @ pre @ [prog @ firmware]\<rparr> in
        if \<not> radio_ok e (prog @ firmware)
        then (case led_exit e (led @ ''-err'') code s of Inl r \<Rightarrow> Inl r | Inr s \<Rightarrow> Inr (False, s))
        else Inr (False, s\<lparr>files := snd (IRIS_copyFile (writable e) (copy e) orig path (files s))\<rparr>))
     else Inr (kill, s))"

definition fw_zwave :: "fwenv \<Rightarrow> bool \<Rightarrow> fwstate \<Rightarrow> nat \<times> fwstate + bool \<times> fwstate" where
  "fw_zwave e kill s =
    install_radio e ''zwave-firmware.bin'' ''upgrade-zwave'' [] ''zwave_flash -w '' INSTALL_ZWAVE_ERR kill s"

definition fw_zigbee :: "fwenv \<Rightarrow> bool \<Rightarrow> fwstate \<Rightarrow> nat \<times> fwstate + bool \<times> fwstate" where
  "fw_zigbee e kill s =
    install_radio e
      (if IRIS_isHwFlowControlSupported (files s) (model_buf e) then ''zigbee-firmware-hwflow.bin'' else ''zigbee-firmware.bin'')
      ''upgrade-zigbee'' [] ''zigbee_flash -w '' INSTALL_ZIGBEE_ERR kill s"

definition fw_ble :: "fwenv \<Rightarrow> bool \<Rightarrow> fwstate \<Rightarrow> nat \<times> fwstate + bool \<times> fwstate" where
  "fw_ble e kill s =
    install_radio e
      (if IRIS_isHwFlowControlSupported (files s) (model_buf e) then ''ble-firmware-hwflow.bin'' else ''ble-firmware.bin'')
      ''upgrade-bte'' [''killall hciattach > /dev/null 2>&1''] ''ble_prog '' INSTALL_BLE_ERR kill s"

definition fw_radios :: "fwenv \<Rightarrow> fwargs \<Rightarrow> fwstate \<Rightarrow> fwresult" where
  "fw_radios e a s =
    (if skipradio a then Inr s
     else (case fw_zwave e (killAgent a) s of Inl r \<Rightarrow> Inl r | Inr (k, s) \<Rightarrow>
          (case fw_zigbee e k s of Inl r \<Rightarrow> Inl r | Inr (k, s) \<Rightarrow>
          (case fw_ble e k s of Inl r \<Rightarrow> Inl r | Inr (k, s) \<Rightarrow> Inr s))))"

section \<open>Activation of the slot\<close>

definition fw_wrapup :: "fwenv \<Rightarrow> slot \<Rightarrow> fwstate \<Rightarrow> fwresult" where
  "fw_wrapup e sl s =
    (let path = bootdir sl @ ''/bootindex'' in
     if \<not> writable e path then cleanup_exit INSTALL_KERNEL_ERR s
     else Inr (s\<lparr>files := rm_update ((files s)(path \<mapsto> dec_str (updateindex sl) @ [10]))\<rparr>))"

definition fw_install :: "fwenv \<Rightarrow> fwargs \<Rightarrow> slot \<Rightarrow> fwstate \<Rightarrow> fwresult" where
  "fw_install e a sl s =
    andthen (fw_uboot e (verify a) s) (\<lambda>s.
    andthen (fw_kernel e (verify a) sl s) (\<lambda>s.
    andthen (fw_dtb e (verify a) sl s) (\<lambda>s.
    andthen (fw_rootfs e (verify a) sl s) (\<lambda>s.
    andthen (fw_radios e a s) (fw_wrapup e sl)))))"

definition fwinstall_main :: "fwenv \<Rightarrow> fw_opt list \<Rightarrow> string option \<Rightarrow> fwstate \<Rightarrow> nat \<times> fwstate" where
  "fwinstall_main e opts filearg s =
    (case fw_options opts \<lparr>verify = True, killAgent = False, skipradio = False\<rparr> of
       Inl code \<Rightarrow> (code, s)
     | Inr a \<Rightarrow>
    (case filearg of None \<Rightarrow> (INSTALL_ARG_ERR, s) | Some path \<Rightarrow>
       (case andthen (fw_unpack e path s) (\<lambda>s. andthen (fw_mount e s) (\<lambda>s. fw_install e a (select_slot e (files s)) s)) of
          Inl r \<Rightarrow> r
        | Inr s \<Rightarrow> (0, s))))"

declare rootfs_copy.simps [simp del] rootfs_verify.simps [simp del]

section \<open>The root file system loops\<close>

lemma read_at_length [simp]: "length (read_at f pos n) = min n (length f - pos)"
  by (simp add: read_at_def)

lemma readSize_le: "pos < length src \<Longrightarrow> pos + readSize src pos \<le> length src"
  by (simp add: readSize_def)

lemma rootfs_verify_step:
  assumes "rootfs_verify src dev pos = 0" "\<not> length src \<le> pos"
  shows "length (read_at dev pos (readSize src pos)) = readSize src pos"
    "read_at src pos (readSize src pos) = read_at dev pos (readSize src pos)"
    "rootfs_verify src dev (pos + readSize src pos) = 0"
  using assms rootfs_verify.simps [of src dev pos] by (simp_all only: if_False split: if_splits)

lemma same_prefix_step:
  "\<lbrakk> take pos dev = take pos src; read_at src pos n = read_at dev pos n \<rbrakk> \<Longrightarrow> take (pos + n) dev = take (pos + n) src"
  by (simp add: take_add read_at_def)

lemma same_prefix_end:
  assumes "take pos dev = take pos src" "length src \<le> pos"
  shows "take (length src) dev = src"
proof -
  have "take (length src) (take pos dev) = take (length src) (take pos src)"
    by (simp only: assms(1))
  then show ?thesis
    using assms(2) by (simp add: min_def)
qed

lemma rootfs_verify_sound:
  "rootfs_verify src dev pos = 0 \<Longrightarrow> take pos dev = take pos src \<Longrightarrow> take (length src) dev = src"
proof (induction src dev pos rule: rootfs_verify.induct)
  case (1 src dev pos)
  show ?case
  proof (cases "length src \<le> pos")
    case True
    with 1(3) show ?thesis by (rule same_prefix_end)
  next
    case False
    note step = rootfs_verify_step [OF 1(2) False]
    have "\<not> length (read_at dev pos (readSize src pos)) \<noteq> readSize src pos"
      using step(1) by blast
    from 1(1) [OF False this step(2,3) same_prefix_step [OF 1(3) step(2)]]
    show ?thesis .
  qed
qed

lemma write_at_take: "pos \<le> length dev \<Longrightarrow> take (pos + length b) (write_at dev pos b) = take pos dev @ b"
  by (simp add: write_at_def)

lemma write_at_length: "pos + length b \<le> length dev \<Longrightarrow> length (write_at dev pos b) = length dev"
  by (simp add: write_at_def)

lemma write_at_drop: "pos + length b \<le> n \<Longrightarrow> pos + length b \<le> length dev \<Longrightarrow> drop n (write_at dev pos b) = drop n dev"
  by (simp add: write_at_def)

text \<open>On a medium that stores what it is given, the loop leaves the image on the device.\<close>

lemma rootfs_copy_good:
  assumes good: "\<And>p b. w p b = (length b, b)"
  shows "\<lbrakk> length src \<le> length dev; take pos dev = take pos src \<rbrakk> \<Longrightarrow>
    rootfs_copy w src pos cmp dev = (0, src @ drop (length src) dev)"
proof (induction "length src - pos" arbitrary: pos cmp dev rule: less_induct)
  case less
  let ?n = "readSize src pos"
  show ?case
  proof (cases "length src \<le> pos")
    case True
    then have "take (length src) dev = src"
      using less(3) same_prefix_end by blast
    then have "src @ drop (length src) dev = dev"
      by (metis append_take_drop_id)
    then show ?thesis
      using True by (simp add: rootfs_copy.simps)
  next
    case False
    have n: "0 < ?n" "pos + ?n \<le> length src"
      using False by (simp_all add: readSize_def)
    have read: "length (read_at src pos ?n) = ?n" "length (read_at dev pos ?n) = ?n"
      using n less(2) by simp_all
    show ?thesis
    proof (cases "cmp \<and> read_at src pos ?n = read_at dev pos ?n")
      case True
      have "rootfs_copy w src pos cmp dev = rootfs_copy w src (pos + ?n) True dev"
        using False True read by (subst rootfs_copy.simps) simp
      also have "\<dots> = (0, src @ drop (length src) dev)"
      proof (rule less(1))
        show "take (pos + ?n) dev = take (pos + ?n) src"
          using less(3) True by (intro same_prefix_step) simp_all
      qed (use n less(2) in simp_all)
      finally show ?thesis .
    next
      case nf: False
      let ?dev = "write_at dev pos (read_at src pos ?n)"
      have "rootfs_copy w src pos cmp dev = rootfs_copy w src (pos + ?n) False ?dev"
        using False nf read good by (subst rootfs_copy.simps) auto
      also have "\<dots> = (0, src @ drop (length src) ?dev)"
      proof (rule less(1))
        show "take (pos + ?n) ?dev = take (pos + ?n) src"
          using write_at_take [of pos dev "read_at src pos ?n"] read n less(2,3) by (simp add: take_add read_at_def)
      qed (use n less(2) read(1) write_at_length [of pos "read_at src pos ?n" dev] in simp_all)
      also have "drop (length src) ?dev = drop (length src) dev"
        by (rule write_at_drop) (use n less(2) read(1) in simp_all)
      finally show ?thesis .
    qed
  qed
qed

section \<open>What a stage may touch\<close>

text \<open>The contract of a stage of the installation that writes a given set of files: besides those it
  changes at most the LED mode, and when it ends the program it does so with an error code, the lock
  released and the update directory removed. Two stages in sequence satisfy it for the union of their files.\<close>

definition final :: "fwresult \<Rightarrow> fwstate" where
  "final r = (case r of Inl (code, s) \<Rightarrow> s | Inr s \<Rightarrow> s)"

lemma final_simps [simp]: "final (Inl (code, s)) = s" "final (Inr s) = s"
  by (simp_all add: final_def)

lemma andthen_simps [simp]: "andthen (Inl r) f = Inl r" "andthen (Inr s) f = f s"
  by (simp_all add: andthen_def)

definition base_files :: "string set" where
  "base_files = {q. q = LED_MODE_FILE \<or> q = INSTALL_LOCK_FILE \<or> take 12 q = UPDATE_DIR}"

lemma set_led_frame: "q \<notin> base_files \<Longrightarrow> files (set_led e m s) q = files s q"
  by (simp add: set_led_def IRIS_setLedMode_def base_files_def)

lemma rm_update_frame: "q \<notin> base_files \<Longrightarrow> rm_update fs q = fs q"
  by (simp add: rm_update_def base_files_def)

lemma led_exit_contract:
  "q \<notin> base_files \<Longrightarrow> files (final (led_exit e m code s)) q = files s q"
  "led_exit e m code s = Inl (c, s') \<Longrightarrow> c = code \<and> files s' INSTALL_LOCK_FILE = None"
  "led_exit e m code s \<noteq> Inr s'"
proof -
  assume q: "q \<notin> base_files"
  then have "q \<noteq> INSTALL_LOCK_FILE"
    by (simp add: base_files_def)
  then show "files (final (led_exit e m code s)) q = files s q"
    using set_led_frame [OF q] rm_update_frame [OF q] by (simp add: led_exit_def cleanup_exit_def)
qed (auto simp: led_exit_def cleanup_exit_def)

locale install_stage =
  fixes stage :: "fwstate \<Rightarrow> fwresult" and writes :: "string set"
  assumes frame: "q \<notin> writes \<union> base_files \<Longrightarrow> files (final (stage s)) q = files s q"
    and keeps: "stage s = Inr s' \<Longrightarrow> q \<notin> insert LED_MODE_FILE writes \<Longrightarrow> files s' q = files s q"
    and error: "stage s = Inl (code, s') \<Longrightarrow> code \<noteq> 0 \<and> files s' INSTALL_LOCK_FILE = None"

locale stage_seq = one: install_stage stage1 writes1 + two: install_stage stage2 writes2
  for stage1 :: "fwstate \<Rightarrow> fwresult" and writes1 and stage2 :: "fwstate \<Rightarrow> fwresult" and writes2
begin

lemma seq_frame:
  assumes "q \<notin> (writes1 \<union> writes2) \<union> base_files"
  shows "files (final (andthen (stage1 s) stage2)) q = files s q"
proof (cases "stage1 s")
  case (Inl r)
  then show ?thesis
    using assms one.frame [of q s] by simp
next
  case (Inr s1)
  then show ?thesis
    using assms one.frame [of q s] two.frame [of q s1] by simp
qed

lemma seq_keeps:
  assumes "andthen (stage1 s) stage2 = Inr s'" "q \<notin> insert LED_MODE_FILE (writes1 \<union> writes2)"
  shows "files s' q = files s q"
  using assms one.keeps [of s _ q] two.keeps [of _ s' q] by (cases "stage1 s") auto

lemma seq_error:
  assumes "andthen (stage1 s) stage2 = Inl (code, s')"
  shows "code \<noteq> 0 \<and> files s' INSTALL_LOCK_FILE = None"
  using assms one.error [of s code s'] two.error [of _ code s'] by (cases "stage1 s") auto

end

sublocale stage_seq \<subseteq> seq: install_stage "\<lambda>s. andthen (stage1 s) stage2" "writes1 \<union> writes2"
  by unfold_locales (simp_all add: seq_frame seq_keeps seq_error)

section \<open>The stages satisfy the contract\<close>

lemma copyFile_frame: "q \<noteq> dst \<Longrightarrow> snd (IRIS_copyFile w c src dst fs) q = fs q"
  by (simp add: IRIS_copyFile_def split: option.splits prod.splits)

lemma install_file_cases:
  obtains (same) "\<not> diff_q (files s) src dst" "install_file e vfy src dst errled code s = Inr s"
  | (copied) fs where "diff_q (files s) src dst"
      "IRIS_copyFile (writable e) (copy e) src dst ((files s)(dst := None)) = (0, fs)"
      "vfy \<longrightarrow> \<not> diff_q fs src dst" "install_file e vfy src dst errled code s = Inr (s\<lparr>files := fs\<rparr>)"
  | (failed) res fs where "diff_q (files s) src dst"
      "IRIS_copyFile (writable e) (copy e) src dst ((files s)(dst := None)) = (res, fs)"
      "install_file e vfy src dst errled code s = led_exit e errled code (s\<lparr>files := fs\<rparr>)"
proof (cases "diff_q (files s) src dst")
  case False
  then show ?thesis
    by (intro same) (simp_all add: install_file_def)
next
  case True
  obtain res fs where cp: "IRIS_copyFile (writable e) (copy e) src dst ((files s)(dst := None)) = (res, fs)"
    by fastforce
  show ?thesis
  proof (cases "res \<noteq> 0 \<or> vfy \<and> diff_q fs src dst")
    case bad: True
    then show ?thesis
      using True cp by (intro failed) (auto simp: install_file_def Let_def)
  next
    case good: False
    then show ?thesis
      using True cp by (intro copied) (auto simp: install_file_def Let_def)
  qed
qed

text \<open>A result within the contract: the program goes on or ends with an error, and only the files
  written and the LED mode differ.\<close>

definition agree :: "string set \<Rightarrow> fwstate \<Rightarrow> fwstate \<Rightarrow> bool" where
  "agree T s s' \<longleftrightarrow> (\<forall>q. q \<notin> T \<longrightarrow> files s' q = files s q)"

lemma agree_refl [simp]: "agree T s s"
  by (simp add: agree_def)

lemma agree_trans: "\<lbrakk> agree T s s1; agree T s1 s2 \<rbrakk> \<Longrightarrow> agree T s s2"
  by (simp add: agree_def)

lemma agree_mono: "\<lbrakk> agree T s s1; T \<subseteq> T' \<rbrakk> \<Longrightarrow> agree T' s s1"
  by (auto simp: agree_def)

lemma agree_upd: "x \<in> T \<Longrightarrow> agree T s (s\<lparr>files := (files s)(x := v)\<rparr>)"
  by (auto simp: agree_def)

lemma agree_copy: "dst \<in> T \<Longrightarrow> agree T s (s\<lparr>files := snd (IRIS_copyFile w c src dst ((files s)(dst := v)))\<rparr>)"
  by (auto simp: agree_def) (metis copyFile_frame fun_upd_other)

lemma agree_set_led: "agree (insert LED_MODE_FILE T) s (set_led e m s)"
  by (auto simp: agree_def set_led_def IRIS_setLedMode_def)

definition within :: "fwenv \<Rightarrow> string set \<Rightarrow> fwstate \<Rightarrow> fwresult \<Rightarrow> bool" where
  "within e W s r \<longleftrightarrow> (\<exists>s1. agree (insert LED_MODE_FILE W) s s1 \<and>
    (r = Inr s1 \<or> (\<exists>m code. code \<noteq> 0 \<and> r = led_exit e m code s1)))"

lemma within_Inr: "agree (insert LED_MODE_FILE W) s s1 \<Longrightarrow> within e W s (Inr s1)"
  by (auto simp: within_def)

lemma within_exit: "code \<noteq> 0 \<Longrightarrow> agree (insert LED_MODE_FILE W) s s0 \<Longrightarrow> within e W s (led_exit e m code s0)"
  by (auto simp: within_def)

lemma within_from: "agree (insert LED_MODE_FILE W) s s1 \<Longrightarrow> within e W s1 r \<Longrightarrow> within e W s r"
  unfolding within_def using agree_trans by blast

lemma install_stageI:
  assumes "\<And>s. within e W s (stage s)"
  shows "install_stage stage W"
proof
  fix q and s :: fwstate
  assume q: "q \<notin> W \<union> base_files"
  then have "q \<notin> base_files" "q \<notin> insert LED_MODE_FILE W"
    by (auto simp: base_files_def)
  then show "files (final (stage s)) q = files s q"
    using assms [of s] led_exit_contract(1) [of q] by (auto simp: within_def agree_def)
next
  fix q and s s' :: fwstate
  assume *: "stage s = Inr s'" and q: "q \<notin> insert LED_MODE_FILE W"
  then have "agree (insert LED_MODE_FILE W) s s'"
    using assms [of s] by (auto simp: within_def led_exit_def cleanup_exit_def)
  with q show "files s' q = files s q"
    unfolding agree_def by blast
next
  fix s s' :: fwstate and c
  assume "stage s = Inl (c, s')"
  then obtain m code s0 where "code \<noteq> 0" "led_exit e m code s0 = Inl (c, s')"
    using assms(1) [of s] by (auto simp: within_def)
  then show "c \<noteq> 0 \<and> files s' INSTALL_LOCK_FILE = None"
    using led_exit_contract(2) by metis
qed

lemma install_file_within:
  assumes "code \<noteq> 0" "dst \<in> W"
  shows "within e W s (install_file e vfy src dst errled code s)"
proof -
  have cp: "agree (insert LED_MODE_FILE W) s
      (s\<lparr>files := snd (IRIS_copyFile (writable e) (copy e) src dst ((files s)(dst := None)))\<rparr>)"
    using assms(2) by (intro agree_copy) simp
  show ?thesis
    by (rule install_file_cases [of s src dst e vfy errled code])
      (use cp assms(1) in \<open>auto intro: within_Inr within_exit\<close>)
qed

lemma andthen_within:
  assumes "within e W s r" "\<And>s1. within e W s1 (f s1)"
  shows "within e W s (andthen r f)"
proof -
  obtain s1 where s1: "agree (insert LED_MODE_FILE W) s s1" "r = Inr s1 \<or> (\<exists>m code. code \<noteq> 0 \<and> r = led_exit e m code s1)"
    using assms(1) unfolding within_def by blast
  then show ?thesis
    using within_from [OF s1(1) assms(2)] assms(1)
    by (auto simp: led_exit_def cleanup_exit_def)
qed

definition uboot_files :: "string set" where
  "uboot_files = {BOOT_FLASH, ''/tmp/bootupdate/MLO'', ''/tmp/bootupdate/u-boot.img''}"

lemma install_uboot_flash_within: "within e uboot_files s (install_uboot_flash e s)"
proof -
  have "BOOT_FLASH \<in> insert LED_MODE_FILE uboot_files"
    by (simp add: uboot_files_def)
  then show ?thesis
    unfolding install_uboot_flash_def Let_def
    by (auto intro!: within_Inr within_exit agree_upd split: option.split)
qed

interpretation uboot: install_stage "fw_uboot e vfy" uboot_files for e vfy
proof (rule install_stageI [where e = e], rule within_from [OF agree_set_led])
  fix s :: fwstate
  have "''/tmp/bootupdate/MLO'' \<in> uboot_files" "''/tmp/bootupdate/u-boot.img'' \<in> uboot_files"
    by (simp_all add: uboot_files_def)
  then show "within e uboot_files (set_led e ''upgrade-bootloader'' s) (fw_uboot e vfy s)"
    unfolding fw_uboot_def Let_def
    by (auto intro!: within_Inr within_exit install_uboot_flash_within andthen_within install_file_within split: platform.split)
qed

interpretation kernel: install_stage "fw_kernel e vfy sl" "{bootdir sl @ KERNEL_TMP_IMAGE (plat e)}" for e vfy sl
proof (rule install_stageI [where e = e], rule within_from [OF agree_set_led])
  show "within e {bootdir sl @ KERNEL_TMP_IMAGE (plat e)} (set_led e ''upgrade-kernel'' s) (fw_kernel e vfy sl s)" for s
    unfolding fw_kernel_def Let_def by (auto intro!: within_Inr install_file_within)
qed

interpretation dtb: install_stage "fw_dtb e vfy sl" "{bootdir sl @ KERNEL_TMP_DTB (plat e)}" for e vfy sl
  by (rule install_stageI [where e = e]) (auto simp: fw_dtb_def intro!: within_Inr install_file_within)

interpretation rootfs: install_stage "fw_rootfs e vfy sl" "{rootfsdev sl}" for e vfy sl
proof (rule install_stageI [where e = e])
  show "within e {rootfsdev sl} s (fw_rootfs e vfy sl s)" for s
    unfolding fw_rootfs_def Let_def
    by (auto intro!: within_Inr within_exit agree_upd split: option.split prod.split)
qed

definition radio_files :: "string set" where
  "radio_files = {q. take 15 q = FIRMWARE_DIR}"

lemma install_radio_within:
  assumes "code \<noteq> 0"
  shows "(case install_radio e fw led pre prog code kill s of
      Inl r \<Rightarrow> within e radio_files s (Inl r) | Inr (k, s') \<Rightarrow> agree (insert LED_MODE_FILE radio_files) s s')"
proof (cases "files s (UPDATE_DIR @ fw) \<noteq> None \<and> diff_q (files s) (UPDATE_DIR @ fw) (FIRMWARE_DIR @ fw)")
  case False
  then show ?thesis
    by (auto simp: install_radio_def Let_def)
next
  case True
  let ?path = "FIRMWARE_DIR @ fw" and ?T = "insert LED_MODE_FILE radio_files"
  define s1 where "s1 = set_led e led (if kill then stopHubAgent s else s)"
  define s2 where "s2 = s1\<lparr>files := (files s1)(?path := None), commands := commands s1 @ pre @ [prog @ fw]\<rparr>"
  define s3 where "s3 = s2\<lparr>files := snd (IRIS_copyFile (writable e) (copy e) (UPDATE_DIR @ fw) ?path (files s2))\<rparr>"
  have path: "?path \<in> ?T"
    by (simp add: radio_files_def)
  have "agree ?T (if kill then stopHubAgent s else s) s1"
    unfolding s1_def by (rule agree_set_led)
  then have "agree ?T s s1"
    by (auto simp: agree_def stopHubAgent_def split: if_splits)
  moreover have "agree ?T s1 s2"
    using path unfolding agree_def s2_def by auto
  moreover have "agree ?T s2 s3"
    using agree_copy [OF path, of s2 "writable e" "copy e" "UPDATE_DIR @ fw" "files s2 ?path"] unfolding s3_def by simp
  ultimately have a: "agree ?T s s2" "agree ?T s s3"
    using agree_trans by blast+
  have "install_radio e fw led pre prog code kill s =
      (if \<not> radio_ok e (prog @ fw)
       then (case led_exit e (led @ ''-err'') code s2 of Inl r \<Rightarrow> Inl r | Inr s \<Rightarrow> Inr (False, s)) else Inr (False, s3))"
    using True by (simp add: install_radio_def Let_def s1_def s2_def s3_def)
  then show ?thesis
    using a within_exit [OF assms a(1), of e "led @ ''-err''"] by (simp add: led_exit_def cleanup_exit_def)
qed

lemma radio_step_within:
  assumes "case r of Inl x \<Rightarrow> within e W s (Inl x) | Inr (k, s') \<Rightarrow> agree (insert LED_MODE_FILE W) s s'"
    and "\<And>k s'. within e W s' (f k s')"
  shows "within e W s (case r of Inl x \<Rightarrow> Inl x | Inr (k, s') \<Rightarrow> f k s')"
  using assms within_from by (cases r) (auto split: prod.splits)

interpretation radios: install_stage "fw_radios e a" radio_files for e a
proof (rule install_stageI [where e = e])
  fix s :: fwstate
  show "within e radio_files s (fw_radios e a s)"
  proof (cases "skipradio a")
    case True
    then show ?thesis by (simp add: fw_radios_def within_Inr)
  next
    case False
    show ?thesis
      unfolding fw_radios_def fw_zwave_def fw_zigbee_def fw_ble_def if_not_P [OF False]
      by (intro radio_step_within [OF install_radio_within] within_Inr) simp_all
  qed
qed

section \<open>The stages in sequence\<close>

definition fw_prepare :: "fwenv \<Rightarrow> fwargs \<Rightarrow> slot \<Rightarrow> fwstate \<Rightarrow> fwresult" where
  "fw_prepare e a sl s =
    andthen (fw_uboot e (verify a) s) (\<lambda>s.
    andthen (fw_kernel e (verify a) sl s) (\<lambda>s.
    andthen (fw_dtb e (verify a) sl s) (\<lambda>s.
    andthen (fw_rootfs e (verify a) sl s) (fw_radios e a))))"

lemma andthen_assoc: "andthen (andthen r f) g = andthen r (\<lambda>s. andthen (f s) g)"
  by (cases r) simp_all

lemma fw_install_prepare: "fw_install e a sl s = andthen (fw_prepare e a sl s) (fw_wrapup e sl)"
  by (simp add: fw_install_def fw_prepare_def andthen_assoc)

interpretation seq1: stage_seq "fw_rootfs e (verify a) sl" "{rootfsdev sl}" "fw_radios e a" radio_files for e a sl ..

interpretation seq2: stage_seq "fw_dtb e (verify a) sl" "{bootdir sl @ KERNEL_TMP_DTB (plat e)}"
  "\<lambda>s. andthen (fw_rootfs e (verify a) sl s) (fw_radios e a)" "{rootfsdev sl} \<union> radio_files" for e a sl ..

interpretation seq3: stage_seq "fw_kernel e (verify a) sl" "{bootdir sl @ KERNEL_TMP_IMAGE (plat e)}"
  "\<lambda>s. andthen (fw_dtb e (verify a) sl s) (\<lambda>s. andthen (fw_rootfs e (verify a) sl s) (fw_radios e a))"
  "{bootdir sl @ KERNEL_TMP_DTB (plat e)} \<union> ({rootfsdev sl} \<union> radio_files)" for e a sl ..

interpretation seq4: stage_seq "fw_uboot e (verify a)" uboot_files
  "\<lambda>s. andthen (fw_kernel e (verify a) sl s)
     (\<lambda>s. andthen (fw_dtb e (verify a) sl s) (\<lambda>s. andthen (fw_rootfs e (verify a) sl s) (fw_radios e a)))"
  "{bootdir sl @ KERNEL_TMP_IMAGE (plat e)} \<union> ({bootdir sl @ KERNEL_TMP_DTB (plat e)} \<union> ({rootfsdev sl} \<union> radio_files))" for e a sl ..

definition prepare_files :: "fwenv \<Rightarrow> slot \<Rightarrow> string set" where
  "prepare_files e sl = uboot_files \<union> ({bootdir sl @ KERNEL_TMP_IMAGE (plat e)} \<union> ({bootdir sl @ KERNEL_TMP_DTB (plat e)} \<union> ({rootfsdev sl} \<union> radio_files)))"

interpretation prepare: install_stage "fw_prepare e a sl" "prepare_files e sl" for e a sl
  using seq4.seq.install_stage_axioms by (simp add: fw_prepare_def [abs_def] prepare_files_def)

text \<open>The last step is not a stage in this sense: it removes the update directory on success as well.\<close>

lemma fw_wrapup_cases:
  obtains (ok) "writable e (bootdir sl @ ''/bootindex'')"
      "fw_wrapup e sl s = Inr (s\<lparr>files := rm_update ((files s)(bootdir sl @ ''/bootindex'' \<mapsto> dec_str (updateindex sl) @ [10]))\<rparr>)"
  | (failed) s' where "fw_wrapup e sl s = Inl (INSTALL_KERNEL_ERR, s')" "agree base_files s s'" "files s' INSTALL_LOCK_FILE = None"
proof (cases "writable e (bootdir sl @ ''/bootindex'')")
  case True
  then show ?thesis
    by (intro ok) (simp_all add: fw_wrapup_def Let_def)
next
  case False
  have "files (s\<lparr>files := (rm_update (files s))(INSTALL_LOCK_FILE := None)\<rparr>) q = files s q" if "q \<notin> base_files" for q
    using that rm_update_frame [OF that] by (auto simp: base_files_def)
  then show ?thesis
    using False by (intro failed) (auto simp: fw_wrapup_def cleanup_exit_def Let_def agree_def)
qed

section \<open>A whole run\<close>

text \<open>An archive unpacks below the update directory only.\<close>

definition archive_ok :: "fwenv \<Rightarrow> bool" where
  "archive_ok e \<longleftrightarrow> (\<forall>data ms. untar e data = Some ms \<longrightarrow> (\<forall>m\<in>set ms. take 7 (fst m) = ''update/''))"

lemma add_members_frame:
  "\<lbrakk> \<forall>m\<in>set ms. take 7 (fst m) = ''update/''; take 12 q \<noteq> UPDATE_DIR \<rbrakk> \<Longrightarrow> add_members ms fs q = fs q"
proof (induction ms fs rule: add_members.induct)
  case (2 name data ms fs)
  have "q \<noteq> ''/tmp/'' @ name"
    using 2(2,3) by auto
  then have "(fs(''/tmp/'' @ name \<mapsto> data)) q = fs q"
    by (rule fun_upd_other)
  moreover have "add_members ms (fs(''/tmp/'' @ name \<mapsto> data)) q = (fs(''/tmp/'' @ name \<mapsto> data)) q"
    using 2(2,3) by (intro 2(1)) simp_all
  ultimately show ?case
    by (simp only: add_members.simps)
qed simp

lemma agree_led: "agree base_files s (set_led e m s)"
  using set_led_frame by (simp add: agree_def)

lemma agree_lock: "agree base_files s (s\<lparr>files := (files s)(INSTALL_LOCK_FILE := v)\<rparr>)"
  by (rule agree_upd) (simp add: base_files_def)

lemma agree_rm: "agree base_files s (s\<lparr>files := rm_update ((files s)(INSTALL_LOCK_FILE := v))\<rparr>)"
  using rm_update_frame by (auto simp: agree_def base_files_def)

lemma agree_members: "archive_ok e \<Longrightarrow> untar e d = Some ms \<Longrightarrow> agree base_files s (s\<lparr>files := add_members ms (files s)\<rparr>)"
  by (auto simp: agree_def archive_ok_def base_files_def intro!: add_members_frame)

lemma fw_unpack_agree:
  assumes "archive_ok e"
  shows "agree base_files s (final (fw_unpack e path s))"
proof -
  define s1 where "s1 = s\<lparr>files := (if writable e INSTALL_LOCK_FILE then (files s)(INSTALL_LOCK_FILE \<mapsto> []) else files s)\<rparr>"
  define s2 where "s2 = set_led e ''upgrade-unpack'' s1"
  have "agree base_files s s1"
    unfolding s1_def using agree_lock by (cases "writable e INSTALL_LOCK_FILE") simp_all
  then have a2: "agree base_files s s2"
    unfolding s2_def using agree_led agree_trans by blast
  have "agree base_files s (final (fw_unpack e path s))" if "files s INSTALL_LOCK_FILE = None"
  proof (cases "Option.bind (files s2 path) (untar e)")
    case None
    have "final (fw_unpack e path s) =
        (set_led e ''upgrade-unpack-err'' s2)\<lparr>files := (files (set_led e ''upgrade-unpack-err'' s2))(INSTALL_LOCK_FILE := None)\<rparr>"
      using that None unfolding fw_unpack_def Let_def s1_def s2_def by simp
    then show ?thesis
      using agree_trans [OF a2 agree_trans [OF agree_led agree_lock]] by (simp only:)
  next
    case (Some ms)
    define s3 where "s3 = s2\<lparr>files := add_members ms (files s2)\<rparr>"
    obtain d where "untar e d = Some ms"
      using Some by (auto simp: bind_eq_Some_conv)
    then have a3: "agree base_files s s3"
      unfolding s3_def using a2 agree_members [OF assms] agree_trans by blast
    have "final (fw_unpack e path s) = (if sums_ok e (files s3) then s3 else
        (set_led e ''upgrade-unpack-err'' s3)\<lparr>files := rm_update ((files (set_led e ''upgrade-unpack-err'' s3))(INSTALL_LOCK_FILE := None))\<rparr>)"
      using that Some unfolding fw_unpack_def Let_def s1_def s2_def s3_def by simp
    then show ?thesis
      using a3 agree_trans [OF a3 agree_trans [OF agree_led agree_rm]] by (simp only: simp_thms split: if_split)
  qed
  then show ?thesis
    by (cases "files s INSTALL_LOCK_FILE = None") (simp_all add: fw_unpack_def)
qed

lemma set_led_other: "q \<noteq> LED_MODE_FILE \<Longrightarrow> files (set_led e m s) q = files s q"
  by (simp add: set_led_def IRIS_setLedMode_def)

lemma fw_unpack_lock:
  assumes "archive_ok e" "fw_unpack e path s = Inr s'" "writable e INSTALL_LOCK_FILE"
  shows "files s' INSTALL_LOCK_FILE = Some []"
  using assms
  by (auto simp: fw_unpack_def Let_def archive_ok_def set_led_other add_members_frame bind_eq_Some_conv
    split: if_splits option.splits)

lemma fw_unpack_unlock:
  "fw_unpack e path s = Inl (code, s') \<Longrightarrow> files s INSTALL_LOCK_FILE = None \<longrightarrow> files s' INSTALL_LOCK_FILE = None"
  by (auto simp: fw_unpack_def Let_def rm_update_def split: if_splits option.splits)

lemma fw_unpack_code: "fw_unpack e path s = Inl (code, s') \<Longrightarrow> code \<noteq> 0"
  by (auto simp: fw_unpack_def Let_def split: if_splits option.splits)

lemma fw_install_error:
  assumes "fw_install e a sl s = Inl (code, s')"
  shows "code \<noteq> 0 \<and> files s' INSTALL_LOCK_FILE = None"
proof (cases "fw_prepare e a sl s")
  case (Inl r)
  then show ?thesis
    using assms prepare.error [of e a sl s code s'] by (simp add: fw_install_prepare)
next
  case (Inr s1)
  then have "fw_wrapup e sl s1 = Inl (code, s')"
    using assms by (simp add: fw_install_prepare)
  then show ?thesis
    by (cases rule: fw_wrapup_cases [of e sl s1]) auto
qed

interpretation mount: install_stage "fw_mount e" "{}" for e
  by (rule install_stageI [where e = e]) (auto simp: fw_mount_def intro: within_Inr within_exit)

lemma fw_mount_Inr: "fw_mount e s = Inr s' \<Longrightarrow> s' = s"
  by (auto simp: fw_mount_def led_exit_contract(3) split: if_splits)

lemma bootindex_not_base:
  "TMP_KERNEL1_DIR @ ''/bootindex'' \<notin> base_files" "TMP_KERNEL2_DIR @ ''/bootindex'' \<notin> base_files"
  by (simp_all add: base_files_def)

lemma select_slot_agree:
  assumes "agree base_files s s'"
  shows "select_slot e (files s') = select_slot e (files s)"
proof -
  have "files s' q = files s q" if "q \<notin> base_files" for q
    using assms that unfolding agree_def by blast
  then show ?thesis
    using bootindex_not_base unfolding select_slot_def bootindex_def by metis
qed

definition fw_defaults :: fwargs where
  "fw_defaults = \<lparr>verify = True, killAgent = False, skipradio = False\<rparr>"

text \<open>A run either ends before the installation, with an error and no file touched that matters, or it
  is the installation into the selected slot.\<close>

lemma fwinstall_runs:
  assumes "fwinstall_main e opts (Some path) s = (code, s')" "fw_options opts fw_defaults = Inr a" "archive_ok e"
  obtains (early) "code \<noteq> 0" "agree base_files s s'" "files s INSTALL_LOCK_FILE = None \<longrightarrow> files s' INSTALL_LOCK_FILE = None"
  | (failed) s1 where "agree base_files s s1" "fw_install e a (select_slot e (files s)) s1 = Inl (code, s')" "code \<noteq> 0"
  | (finished) s1 where "agree base_files s s1" "fw_install e a (select_slot e (files s)) s1 = Inr s'" "code = 0"
      "fw_unpack e path s = Inr s1"
proof (cases "fw_unpack e path s")
  case (Inl r)
  then have "r = (code, s')"
    using assms(1,2) by (simp add: fwinstall_main_def fw_defaults_def)
  then show ?thesis
    using early Inl fw_unpack_code fw_unpack_agree [OF assms(3), of s path] fw_unpack_unlock by simp
next
  case (Inr s1)
  then have a1: "agree base_files s s1"
    using fw_unpack_agree [OF assms(3), of s path] by simp
  show ?thesis
  proof (cases "fw_mount e s1")
    case m: (Inl r)
    then have r: "r = (code, s')"
      using assms(1,2) Inr by (simp add: fwinstall_main_def fw_defaults_def)
    have "agree base_files s1 s'"
      using mount.frame [of _ e s1] m r by (simp add: agree_def)
    then show ?thesis
      using early a1 agree_trans mount.error [of e s1] m r by blast
  next
    case m: (Inr s2)
    then have "s2 = s1"
      using fw_mount_Inr by blast
    then have "(case fw_install e a (select_slot e (files s)) s1 of Inl r \<Rightarrow> r | Inr s \<Rightarrow> (0, s)) = (code, s')"
      using assms(1,2) Inr m select_slot_agree [OF a1] by (simp add: fwinstall_main_def fw_defaults_def)
    then show ?thesis
      using failed [OF a1] finished [OF a1] Inr fw_install_error [of e a "select_slot e (files s)" s1]
      by (cases "fw_install e a (select_slot e (files s)) s1") auto
  qed
qed

section \<open>The two slots\<close>

definition slot_files :: "slot \<Rightarrow> string set" where
  "slot_files sl = {q. take 13 q = bootdir sl @ ''/'' \<or> q = rootfsdev sl}"

definition other_slot :: "slot \<Rightarrow> slot" where
  "other_slot sl =
    (if bootdir sl = TMP_KERNEL1_DIR then sl\<lparr>bootdir := TMP_KERNEL2_DIR, rootfsdev := DEV_ROOTFS2\<rparr>
     else sl\<lparr>bootdir := TMP_KERNEL1_DIR, rootfsdev := DEV_ROOTFS1\<rparr>)"

definition slot_ok :: "slot \<Rightarrow> bool" where
  "slot_ok sl \<longleftrightarrow> bootdir sl = TMP_KERNEL1_DIR \<and> rootfsdev sl = DEV_ROOTFS1 \<or>
    bootdir sl = TMP_KERNEL2_DIR \<and> rootfsdev sl = DEV_ROOTFS2"

lemma select_slot_ok: "slot_ok (select_slot e fs)"
  by (simp add: select_slot_def choose_slot_def slot_ok_def split: prod.split)

lemma take_13_12: "take 13 q = x \<Longrightarrow> take 12 q = take 12 x"
  by (auto simp: min_def)

lemma take_15_13: "take 15 q = x \<Longrightarrow> take 13 q = take 13 x"
  by (auto simp: min_def)

lemma slot_files_not_base: "q \<in> slot_files sl \<Longrightarrow> slot_ok sl \<Longrightarrow> q \<notin> base_files"
  unfolding slot_files_def base_files_def slot_ok_def
  by (elim disjE conjE CollectE; intro notI; elim CollectE disjE)
    (auto dest: take_13_12)

lemma slot_files_not_radio: "q \<in> slot_files sl \<Longrightarrow> slot_ok sl \<Longrightarrow> q \<notin> radio_files"
  unfolding slot_files_def radio_files_def slot_ok_def by (auto dest: take_15_13)

lemma slot_files_not_uboot: "q \<in> slot_files sl \<Longrightarrow> slot_ok sl \<Longrightarrow> q \<notin> uboot_files"
  unfolding slot_files_def uboot_files_def slot_ok_def by auto

lemma other_slot_ok: "slot_ok sl \<Longrightarrow> slot_ok (other_slot sl)"
  by (auto simp: slot_ok_def other_slot_def)

lemma kernel_paths:
  "take 1 (KERNEL_TMP_IMAGE p) = ''/''" "take 1 (KERNEL_TMP_DTB p) = ''/''"
  "KERNEL_TMP_IMAGE p \<noteq> KERNEL_TMP_DTB p" "KERNEL_TMP_IMAGE p \<noteq> ''/bootindex''" "KERNEL_TMP_DTB p \<noteq> ''/bootindex''"
  by (cases p; simp add: KERNEL_TMP_IMAGE_def KERNEL_TMP_DTB_def)+

lemma in_slot_files: "slot_ok sl \<Longrightarrow> take 1 p = ''/'' \<Longrightarrow> bootdir sl @ p \<in> slot_files sl" "rootfsdev sl \<in> slot_files sl"
  by (auto simp: slot_files_def slot_ok_def)

lemma slot_paths:
  assumes "slot_ok sl"
  shows "{bootdir sl @ KERNEL_TMP_IMAGE p, bootdir sl @ KERNEL_TMP_DTB p, rootfsdev sl, bootdir sl @ ''/bootindex''} \<subseteq> slot_files sl"
  using in_slot_files(1) [OF assms, of "''/bootindex''"] in_slot_files(1) [OF assms kernel_paths(1)]
    in_slot_files(1) [OF assms kernel_paths(2)] in_slot_files(2)
  by simp

lemma slots_disjoint: "slot_ok sl \<Longrightarrow> slot_files sl \<inter> slot_files (other_slot sl) = {}"
  by (auto simp: slot_files_def other_slot_def slot_ok_def)

lemma other_slot_not_written:
  assumes "slot_ok sl" "q \<in> slot_files (other_slot sl)"
  shows "q \<notin> prepare_files e sl \<union> base_files" "q \<noteq> bootdir sl @ ''/bootindex''"
proof -
  have "x \<noteq> q" if "x \<in> slot_files sl" for x
    using assms that slots_disjoint by blast
  then have own: "q \<notin> {bootdir sl @ KERNEL_TMP_IMAGE (plat e), bootdir sl @ KERNEL_TMP_DTB (plat e), rootfsdev sl, bootdir sl @ ''/bootindex''}"
    using slot_paths [OF assms(1), of "plat e"] by blast
  then show "q \<noteq> bootdir sl @ ''/bootindex''"
    by simp
  show "q \<notin> prepare_files e sl \<union> base_files"
    using own slot_files_not_base [OF assms(2)] slot_files_not_radio [OF assms(2)] slot_files_not_uboot [OF assms(2)]
      other_slot_ok [OF assms(1)]
    unfolding prepare_files_def by simp
qed

lemma fw_install_frame:
  assumes "q \<notin> prepare_files e sl \<union> base_files" "q \<noteq> bootdir sl @ ''/bootindex''"
  shows "files (final (fw_install e a sl s)) q = files s q"
proof (cases "fw_prepare e a sl s")
  case (Inl r)
  then show ?thesis
    using prepare.frame [OF assms(1), of a s] by (simp add: fw_install_prepare)
next
  case (Inr s1)
  have s1: "files s1 q = files s q"
    using prepare.frame [OF assms(1), of a s] Inr by simp
  have "files (final (fw_wrapup e sl s1)) q = files s1 q"
    by (cases rule: fw_wrapup_cases [of e sl s1])
      (use assms rm_update_frame [of q] in \<open>auto simp: agree_def\<close>)
  then show ?thesis
    using Inr s1 by (simp add: fw_install_prepare)
qed

lemma fwinstall_frame:
  assumes "fwinstall_main e opts (Some path) s = (code, s')" "fw_options opts fw_defaults = Inr a" "archive_ok e"
    and q: "q \<notin> prepare_files e (select_slot e (files s)) \<union> base_files"
      "q \<noteq> bootdir (select_slot e (files s)) @ ''/bootindex''"
  shows "files s' q = files s q"
proof -
  let ?sl = "select_slot e (files s)"
  have base: "files s1 q = files s q" if "agree base_files s s1" for s1
    using that q(1) unfolding agree_def by blast
  show ?thesis
  proof (rule fwinstall_runs [OF assms(1-3)])
    assume "agree base_files s s'"
    then show ?thesis by (rule base)
  next
    fix s1 assume s1: "agree base_files s s1" "fw_install e a ?sl s1 = Inl (code, s')"
    show ?thesis
      using base [OF s1(1)] s1(2) fw_install_frame [OF q, of a s1] by simp
  next
    fix s1 assume s1: "agree base_files s s1" "fw_install e a ?sl s1 = Inr s'"
    show ?thesis
      using base [OF s1(1)] s1(2) fw_install_frame [OF q, of a s1] by simp
  qed
qed

text \<open>C3: whatever the outcome of an installation, no file of the kernel partition and no byte of the root
  file system partition of the slot that was not selected is changed.\<close>

theorem other_slot_untouched:
  assumes "fwinstall_main e opts (Some path) s = (code, s')" "fw_options opts fw_defaults = Inr a" "archive_ok e"
    and "q \<in> slot_files (other_slot (select_slot e (files s)))"
  shows "files s' q = files s q"
  using other_slot_not_written [OF select_slot_ok assms(4)] by (rule fwinstall_frame [OF assms(1-3)])

lemma bootindex_not_prepared:
  assumes "slot_ok sl" "d \<in> {TMP_KERNEL1_DIR, TMP_KERNEL2_DIR}"
  shows "d @ ''/bootindex'' \<notin> prepare_files e sl \<union> base_files"
proof -
  have in_slot: "bootdir sl @ ''/bootindex'' \<in> slot_files sl"
    using in_slot_files(1) [OF assms(1)] by simp
  consider "d = bootdir sl" | "d = bootdir (other_slot sl)"
    using assms by (auto simp: slot_ok_def other_slot_def)
  then show ?thesis
  proof cases
    case 1
    have "rootfsdev sl \<noteq> bootdir sl @ ''/bootindex''"
      using assms(1) by (auto simp: slot_ok_def)
    then show ?thesis
      using 1 kernel_paths(4,5) [THEN not_sym] slot_files_not_base [OF in_slot assms(1)] slot_files_not_radio [OF in_slot assms(1)]
        slot_files_not_uboot [OF in_slot assms(1)]
      unfolding prepare_files_def by simp
  next
    case 2
    then show ?thesis
      using other_slot_not_written(1) [OF assms(1)] in_slot_files(1) [OF other_slot_ok [OF assms(1)]] by simp
  qed
qed

text \<open>C4: an installation that does not succeed leaves the boot index of both slots as it was, so the
  boot loader goes on choosing the slot it chose before.\<close>

theorem failed_install_keeps_bootindex:
  assumes "fwinstall_main e opts (Some path) s = (code, s')" "code \<noteq> 0"
    and "fw_options opts fw_defaults = Inr a" "archive_ok e"
    and "d \<in> {TMP_KERNEL1_DIR, TMP_KERNEL2_DIR}"
  shows "files s' (d @ ''/bootindex'') = files s (d @ ''/bootindex'')"
proof -
  let ?sl = "select_slot e (files s)" and ?q = "d @ ''/bootindex''"
  note q = bootindex_not_prepared [OF select_slot_ok assms(5), of e e "files s"]
  have base: "files s2 ?q = files s1 ?q" if "agree base_files s1 s2" for s1 s2
    using that q unfolding agree_def by blast
  show ?thesis
  proof (rule fwinstall_runs [OF assms(1,3,4)])
    assume "agree base_files s s'"
    then show ?thesis by (rule base)
  next
    fix s1 assume s1: "agree base_files s s1" "fw_install e a ?sl s1 = Inl (code, s')"
    show ?thesis
    proof (cases "fw_prepare e a ?sl s1")
      case (Inl r)
      then show ?thesis
        using base [OF s1(1)] s1(2) prepare.frame [OF q, of a s1] by (simp add: fw_install_prepare)
    next
      case (Inr s2)
      then have "files s2 ?q = files s ?q"
        using base [OF s1(1)] prepare.frame [OF q, of a s1] by simp
      moreover have "files s' ?q = files s2 ?q"
        using s1(2) Inr base [of s2 s']
        by (cases rule: fw_wrapup_cases [of e ?sl s2]) (simp_all add: fw_install_prepare)
      ultimately show ?thesis by simp
    qed
  qed (use assms(2) in simp)
qed

section \<open>What a successful run has installed\<close>

lemma add_members_override: "add_members ms fs = fs ++ add_members ms Map.empty"
proof (induction ms arbitrary: fs)
  case (Cons m ms)
  obtain name data where m: "m = (name, data)" by fastforce
  show ?case
    unfolding m add_members.simps
    by (subst Cons.IH, subst (2) Cons.IH) simp
qed simp

lemma fw_unpack_members:
  assumes "fw_unpack e path s = Inr s1" "files s path = Some data" "path \<notin> {LED_MODE_FILE, INSTALL_LOCK_FILE}"
    "untar e data = Some ms" "add_members ms Map.empty q = Some v"
  shows "files s1 q = Some v"
proof -
  obtain fs where "files s1 = add_members ms fs"
    using assms(1-4) by (auto simp: fw_unpack_def Let_def set_led_other split: if_splits)
  then show ?thesis
    using assms(5) by (subst (asm) add_members_override) simp
qed

lemma install_file_done:
  assumes "install_file e True src dst m c s = Inr s'" "files s src = Some k" "src \<noteq> dst"
  shows "files s' dst = Some k"
proof (rule install_file_cases [of s src dst e True m c])
  assume "\<not> diff_q (files s) src dst" "install_file e True src dst m c s = Inr s"
  then show ?thesis
    using assms by (simp add: diff_q_def)
next
  fix fs
  assume *: "IRIS_copyFile (writable e) (copy e) src dst ((files s)(dst := None)) = (0, fs)"
    "True \<longrightarrow> \<not> diff_q fs src dst" "install_file e True src dst m c s = Inr (s\<lparr>files := fs\<rparr>)"
  have "fs src = Some k"
    using copyFile_frame [OF assms(3), of "writable e" "copy e" src "(files s)(dst := None)"] *(1) assms(2,3) by simp
  then show ?thesis
    using * assms(1) by (simp add: diff_q_def)
next
  fix res fs
  assume "install_file e True src dst m c s = led_exit e m c (s\<lparr>files := fs\<rparr>)"
  then show ?thesis
    using assms(1) led_exit_contract(3) by metis
qed

lemma fw_rootfs_done:
  assumes "fw_rootfs e True sl s = Inr s'" "files s (ROOTFS_FILE (plat e)) = Some img"
  shows "\<exists>dev. files s' (rootfsdev sl) = Some dev \<and> take (length img) dev = img"
proof -
  obtain dev where dev: "files s (rootfsdev sl) = Some dev"
    using assms by (cases "files s (rootfsdev sl)") (auto simp: fw_rootfs_def led_exit_contract(3))
  obtain res dev' where run: "rootfs_copy (dev_write e) img 0 True dev = (res, dev')" by fastforce
  have "res = 0 \<and> rootfs_verify img dev' 0 = 0 \<and> s' = s\<lparr>files := (files s)(rootfsdev sl \<mapsto> dev')\<rparr>"
    using assms dev run by (auto simp: fw_rootfs_def Let_def led_exit_contract(3) split: if_splits)
  then show ?thesis
    using rootfs_verify_sound [of img dev' 0] by simp
qed

lemma update_dir_not_written:
  assumes "slot_ok sl" "take 12 q = UPDATE_DIR"
  shows "q \<notin> insert LED_MODE_FILE uboot_files" "q \<noteq> bootdir sl @ KERNEL_TMP_IMAGE p" "q \<noteq> bootdir sl @ KERNEL_TMP_DTB p"
    "q \<noteq> rootfsdev sl"
proof -
  have "q \<notin> slot_files sl"
    using assms slot_files_not_base [of q sl] by (auto simp: base_files_def)
  then show "q \<noteq> bootdir sl @ KERNEL_TMP_IMAGE p" "q \<noteq> bootdir sl @ KERNEL_TMP_DTB p" "q \<noteq> rootfsdev sl"
    using slot_paths [OF assms(1), of p] by auto
  show "q \<notin> insert LED_MODE_FILE uboot_files"
    using assms(2) by (auto simp: uboot_files_def)
qed

lemma update_sources:
  "take 12 (KERNEL_IMAGE p) = UPDATE_DIR" "take 12 (KERNEL_DTB p) = UPDATE_DIR" "take 12 (ROOTFS_FILE p) = UPDATE_DIR"
  by (cases p; simp add: KERNEL_IMAGE_def KERNEL_DTB_def ROOTFS_FILE_def)+

lemma led_not_update: "take 12 q = UPDATE_DIR \<Longrightarrow> q \<noteq> LED_MODE_FILE"
  by auto

lemma slot_file_not_led: "q \<in> slot_files sl \<Longrightarrow> slot_ok sl \<Longrightarrow> q \<notin> insert LED_MODE_FILE radio_files"
  using slot_files_not_base [of q sl] slot_files_not_radio [of q sl] by (auto simp: base_files_def)

lemma fw_prepare_done:
  assumes "fw_prepare e a sl s = Inr s'" "verify a" "slot_ok sl"
  shows "files s (KERNEL_IMAGE (plat e)) = Some k \<Longrightarrow> files s' (bootdir sl @ KERNEL_TMP_IMAGE (plat e)) = Some k"
    "files s (KERNEL_DTB (plat e)) = Some d \<Longrightarrow> files s' (bootdir sl @ KERNEL_TMP_DTB (plat e)) = Some d"
    "files s (ROOTFS_FILE (plat e)) = Some img \<Longrightarrow> \<exists>dev. files s' (rootfsdev sl) = Some dev \<and> take (length img) dev = img"
proof -
  obtain s1 where 1: "fw_uboot e True s = Inr s1"
    using assms(1,2) by (cases "fw_uboot e True s") (auto simp: fw_prepare_def)
  obtain s2 where 2: "fw_kernel e True sl s1 = Inr s2"
    using assms(1,2) 1 by (cases "fw_kernel e True sl s1") (auto simp: fw_prepare_def)
  obtain s3 where 3: "fw_dtb e True sl s2 = Inr s3"
    using assms(1,2) 1 2 by (cases "fw_dtb e True sl s2") (auto simp: fw_prepare_def)
  obtain s4 where 4: "fw_rootfs e True sl s3 = Inr s4" "fw_radios e a s4 = Inr s'"
    using assms(1,2) 1 2 3 by (cases "fw_rootfs e True sl s3") (auto simp: fw_prepare_def)
  have src: "files s1 q = files s q" "files s2 q = files s q" "files s3 q = files s q" if "take 12 q = UPDATE_DIR" for q
  proof -
    note nw = update_dir_not_written [OF assms(3) that] led_not_update [OF that]
    show q1: "files s1 q = files s q"
      using uboot.keeps [OF 1, of q] nw by simp
    show q2: "files s2 q = files s q"
      using kernel.keeps [OF 2, of q] nw q1 by simp
    show "files s3 q = files s q"
      using dtb.keeps [OF 3, of q] nw q2 by simp
  qed
  let ?K = "bootdir sl @ KERNEL_TMP_IMAGE (plat e)" and ?D = "bootdir sl @ KERNEL_TMP_DTB (plat e)" and ?R = "rootfsdev sl"
  have in_slot: "?K \<in> slot_files sl" "?D \<in> slot_files sl" "?R \<in> slot_files sl"
    using slot_paths [OF assms(3), of "plat e"] by auto
  have distinct: "?K \<noteq> ?D" "?K \<noteq> ?R" "?D \<noteq> ?R"
    using kernel_paths(3) assms(3) by (auto simp: slot_ok_def)
  have after: "files s' q = files s4 q" if "q \<in> slot_files sl" for q
    using radios.keeps [OF 4(2), of q] slot_file_not_led [OF that assms(3)] by simp
  have led: "q \<noteq> LED_MODE_FILE" if "q \<in> slot_files sl" for q
    using slot_file_not_led [OF that assms(3)] by simp
  {
    assume "files s (KERNEL_IMAGE (plat e)) = Some k"
    then have "files s1 (KERNEL_IMAGE (plat e)) = Some k"
      using src(1) [OF update_sources(1)] by simp
    then have "files s2 ?K = Some k"
      using 2 install_file_done [of e "KERNEL_IMAGE (plat e)" ?K _ _ "set_led e ''upgrade-kernel'' s1" s2 k]
        update_dir_not_written(2) [OF assms(3) update_sources(1)] led_not_update [OF update_sources(1)]
      by (simp add: fw_kernel_def Let_def set_led_other)
    then show "files s' ?K = Some k"
      using dtb.keeps [OF 3, of ?K] rootfs.keeps [OF 4(1), of ?K] after [OF in_slot(1)] distinct led [OF in_slot(1)] by simp
  }
  {
    assume "files s (KERNEL_DTB (plat e)) = Some d"
    then have "files s2 (KERNEL_DTB (plat e)) = Some d"
      using src(2) [OF update_sources(2)] by simp
    then have "files s3 ?D = Some d"
      using 3 install_file_done [of e "KERNEL_DTB (plat e)" ?D _ _ s2 s3 d]
        update_dir_not_written(3) [OF assms(3) update_sources(2)]
      by (simp add: fw_dtb_def)
    then show "files s' ?D = Some d"
      using rootfs.keeps [OF 4(1), of ?D] after [OF in_slot(2)] distinct led [OF in_slot(2)] by simp
  }
  {
    assume "files s (ROOTFS_FILE (plat e)) = Some img"
    then have "files s3 (ROOTFS_FILE (plat e)) = Some img"
      using src(3) [OF update_sources(3)] by simp
    then show "\<exists>dev. files s' ?R = Some dev \<and> take (length img) dev = img"
      using fw_rootfs_done [OF 4(1)] after [OF in_slot(3)] by simp
  }
qed

lemma fwinstall_finished:
  assumes "fwinstall_main e opts (Some path) s = (0, s')" "fw_options opts fw_defaults = Inr a" "archive_ok e"
    and sl: "sl = select_slot e (files s)"
  obtains s1 s2 where "fw_unpack e path s = Inr s1" "fw_prepare e a sl s1 = Inr s2"
    "\<And>q. q \<in> slot_files sl \<Longrightarrow> files s' q = ((files s2)(bootdir sl @ ''/bootindex'' \<mapsto> dec_str (updateindex sl) @ [10])) q"
    "files s' INSTALL_LOCK_FILE = files s2 INSTALL_LOCK_FILE"
proof (rule fwinstall_runs [OF assms(1-3)])
  fix s1
  assume "fw_install e a (select_slot e (files s)) s1 = Inr s'" and up: "fw_unpack e path s = Inr s1"
  then have "andthen (fw_prepare e a sl s1) (fw_wrapup e sl) = Inr s'"
    by (simp add: fw_install_prepare sl)
  then obtain s2 where 2: "fw_prepare e a sl s1 = Inr s2" "fw_wrapup e sl s2 = Inr s'"
    by (cases "fw_prepare e a sl s1") auto
  have ok: "slot_ok sl"
    by (simp add: sl select_slot_ok)
  have s': "s' = s2\<lparr>files := rm_update ((files s2)(bootdir sl @ ''/bootindex'' \<mapsto> dec_str (updateindex sl) @ [10]))\<rparr>"
    using 2(2) by (cases rule: fw_wrapup_cases [of e sl s2]) auto
  have "rm_update fs q = fs q" if "q \<in> slot_files sl" for q fs
    using slot_files_not_base [OF that ok] by (rule rm_update_frame)
  moreover have "files s' INSTALL_LOCK_FILE = files s2 INSTALL_LOCK_FILE"
    unfolding s' using ok by (auto simp: rm_update_def slot_ok_def)
  ultimately show ?thesis
    using that [OF up 2(1)] unfolding s' by simp
qed simp_all

text \<open>The slot holds what was unpacked, and its boot index.\<close>

definition slot_holds :: "fwenv \<Rightarrow> slot \<Rightarrow> fsys \<Rightarrow> fsys \<Rightarrow> bool" where
  "slot_holds e sl unpacked fs \<longleftrightarrow>
    fs (bootdir sl @ ''/bootindex'') = Some (dec_str (updateindex sl) @ [10]) \<and>
    (\<forall>k. unpacked (KERNEL_IMAGE (plat e)) = Some k \<longrightarrow> fs (bootdir sl @ KERNEL_TMP_IMAGE (plat e)) = Some k) \<and>
    (\<forall>d. unpacked (KERNEL_DTB (plat e)) = Some d \<longrightarrow> fs (bootdir sl @ KERNEL_TMP_DTB (plat e)) = Some d) \<and>
    (\<forall>img. unpacked (ROOTFS_FILE (plat e)) = Some img \<longrightarrow>
      (\<exists>dev. fs (rootfsdev sl) = Some dev \<and> take (length img) dev = img))"

lemma slot_installed:
  assumes "fwinstall_main e opts (Some path) s = (0, s')" "fw_options opts fw_defaults = Inr a" "verify a" "archive_ok e"
    and "files s path = Some data" "path \<notin> {LED_MODE_FILE, INSTALL_LOCK_FILE}" "untar e data = Some ms"
    and "sl = select_slot e (files s)" "unpacked = add_members ms Map.empty"
  shows "slot_holds e sl unpacked (files s')"
proof -
  obtain s1 s2 where fin: "fw_unpack e path s = Inr s1" "fw_prepare e a sl s1 = Inr s2"
    "\<And>q. q \<in> slot_files sl \<Longrightarrow> files s' q = ((files s2)(bootdir sl @ ''/bootindex'' \<mapsto> dec_str (updateindex sl) @ [10])) q"
    using fwinstall_finished [OF assms(1,2,4,8)] by metis
  have ok: "slot_ok sl"
    by (simp add: assms(8) select_slot_ok)
  have "rootfsdev sl \<noteq> bootdir sl @ ''/bootindex''"
    using ok by (auto simp: slot_ok_def)
  then have files: "files s' (bootdir sl @ ''/bootindex'') = Some (dec_str (updateindex sl) @ [10])"
      "files s' (bootdir sl @ KERNEL_TMP_IMAGE (plat e)) = files s2 (bootdir sl @ KERNEL_TMP_IMAGE (plat e))"
      "files s' (bootdir sl @ KERNEL_TMP_DTB (plat e)) = files s2 (bootdir sl @ KERNEL_TMP_DTB (plat e))"
      "files s' (rootfsdev sl) = files s2 (rootfsdev sl)"
    using fin(3) slot_paths [OF ok, of "plat e"] kernel_paths(4,5) by simp_all
  show ?thesis
    unfolding slot_holds_def files
    using fw_unpack_members [OF fin(1) assms(5-7)] fw_prepare_done [OF fin(2) assms(3) ok] assms(9) by blast
qed

text \<open>C5: when an installation with verification reports success, the kernel and device tree of the
  archive are the files of the selected slot, the root file system partition of that slot starts with the
  image of the archive, whatever the storage did to the writes, and the boot index file of the slot holds
  the new index.\<close>

theorem install_success_installs:
  assumes "fwinstall_main e opts (Some path) s = (0, s')" "fw_options opts fw_defaults = Inr a" "verify a" "archive_ok e"
    and "files s path = Some data" "path \<notin> {LED_MODE_FILE, INSTALL_LOCK_FILE}" "untar e data = Some ms"
    and "sl = select_slot e (files s)" "unpacked = add_members ms Map.empty"
  shows "files s' (bootdir sl @ ''/bootindex'') = Some (dec_str (updateindex sl) @ [10]) \<and>
    (\<forall>k. unpacked (KERNEL_IMAGE (plat e)) = Some k \<longrightarrow> files s' (bootdir sl @ KERNEL_TMP_IMAGE (plat e)) = Some k) \<and>
    (\<forall>d. unpacked (KERNEL_DTB (plat e)) = Some d \<longrightarrow> files s' (bootdir sl @ KERNEL_TMP_DTB (plat e)) = Some d) \<and>
    (\<forall>img. unpacked (ROOTFS_FILE (plat e)) = Some img \<longrightarrow>
      (\<exists>dev. files s' (rootfsdev sl) = Some dev \<and> take (length img) dev = img))"
  using slot_installed [OF assms] unfolding slot_holds_def .

section \<open>The choice of the slot\<close>

text \<open>C24: which slot is overwritten when the kernel command line names the running root partition. A hub
  that runs from slot 2 always installs to slot 1; one that runs from slot 1 installs to slot 2 exactly
  when the boot indexes differ and the running slot has the greater or a non-negative one. With equal or
  missing boot indexes it overwrites the slot it runs from.\<close>

theorem running_slot_choice:
  assumes "cmdline e = Some line" "strstr line (link1 e) \<noteq> strstr line (link2 e)"
    and "index1 = bootindex fs TMP_KERNEL1_DIR" "index2 = bootindex fs TMP_KERNEL2_DIR" "-1 \<le> index1" "-1 \<le> index2"
  shows "(strstr line (link2 e) \<longrightarrow> bootdir (select_slot e fs) = TMP_KERNEL1_DIR) \<and>
    (strstr line (link1 e) \<longrightarrow>
      (bootdir (select_slot e fs) = TMP_KERNEL2_DIR \<longleftrightarrow> index1 \<noteq> index2 \<and> (index2 < index1 \<or> 0 \<le> index1)))"
  using assms by (auto simp: select_slot_def choose_slot_def check_indexes_def)

section \<open>Alternation, lock\<close>

lemma updateindex_above:
  assumes "sl = select_slot e fs" "0 \<le> bootindex fs TMP_KERNEL1_DIR" "0 \<le> bootindex fs TMP_KERNEL2_DIR"
  shows "updateindex sl = bootindex fs (bootdir (other_slot sl)) + 1"
  using assms
  by (auto simp: select_slot_def choose_slot_def check_indexes_def other_slot_def split: option.splits)


lemma fw_options_lock: "files s INSTALL_LOCK_FILE \<noteq> None \<Longrightarrow> fw_options opts fw_defaults = Inr a \<Longrightarrow>
    fwinstall_main e opts (Some path) s = (INSTALL_IN_PROCESS, s)"
  by (simp add: fwinstall_main_def fw_defaults_def fw_unpack_def)

lemma lock_not_written: "slot_ok sl \<Longrightarrow> INSTALL_LOCK_FILE \<notin> insert LED_MODE_FILE (prepare_files e sl)"
  by (cases "plat e") (auto simp: prepare_files_def uboot_files_def radio_files_def slot_ok_def KERNEL_TMP_IMAGE_def KERNEL_TMP_DTB_def)


text \<open>On the platform that keeps the boot loader in the boot flash, an image whose size is not a
  multiple of the block size can be written but never verified: the comparison reads whole blocks only,
  and the installation ends with an error every time.\<close>

theorem unaligned_uboot_fails:
  assumes "plat e = imxdimagic" "files s (UBOOT_IMAGE imxdimagic) = Some img" "length img mod 512 \<noteq> 0"
  shows "\<exists>s'. fw_uboot e vfy s = Inl (INSTALL_UBOOT_ERR, s')"
proof -
  have "take (length img div 512 * 512) b \<noteq> img" for b :: bytes
  proof
    assume "take (length img div 512 * 512) b = img"
    then have "length img \<le> length img div 512 * 512"
      by (metis length_take min.cobounded2)
    then show False
      using assms(3) by (metis add_le_same_cancel1 div_mult_mod_eq le_zero_eq)
  qed
  then have cmp: "cmpFlashToFile fs BOOT_FLASH 2 512 (UBOOT_IMAGE imxdimagic)" if "fs (UBOOT_IMAGE imxdimagic) = Some img" for fs
    using that by (auto simp: cmpFlashToFile_def split: option.splits)
  have present: "files (set_led e m s) (UBOOT_IMAGE imxdimagic) = Some img" "UBOOT_IMAGE imxdimagic \<noteq> BOOT_FLASH"
      "UBOOT_MLO imxdimagic = UBOOT_IMAGE imxdimagic" for m
    using assms(2) by (auto simp: set_led_other UBOOT_IMAGE_def UBOOT_MLO_def)
  show ?thesis
    using assms(1) present cmp
    by (auto simp: fw_uboot_def Let_def install_uboot_flash_def led_exit_def cleanup_exit_def split: option.splits)
qed

section \<open>On working hardware the installation completes\<close>

definition good_env :: "fwenv \<Rightarrow> bool" where
  "good_env e \<longleftrightarrow> (\<forall>d. mounts e d) \<and> (\<forall>q. writable e q) \<and> (\<forall>dst b. copy e dst b = (int (length b), b)) \<and>
    (\<forall>p b. dev_write e p b = (length b, b)) \<and> (\<forall>b. flash e b = Some b) \<and> (\<forall>c. radio_ok e c)"

lemma install_file_good:
  assumes "good_env e" "files s src = Some k" "src \<noteq> dst"
  shows "\<exists>s'. install_file e vfy src dst m c s = Inr s'"
  using assms by (simp add: install_file_def good_env_def IRIS_copyFile_def diff_q_def Let_def)

lemma fw_kernel_good: "good_env e \<Longrightarrow> slot_ok sl \<Longrightarrow> \<exists>s'. fw_kernel e vfy sl s = Inr s'"
  using install_file_good [of e "set_led e ''upgrade-kernel'' s" "KERNEL_IMAGE (plat e)" _ "bootdir sl @ KERNEL_TMP_IMAGE (plat e)"]
    update_dir_not_written(2) [OF _ update_sources(1)]
  by (auto simp: fw_kernel_def Let_def)

lemma fw_dtb_good: "good_env e \<Longrightarrow> slot_ok sl \<Longrightarrow> \<exists>s'. fw_dtb e vfy sl s = Inr s'"
  using install_file_good [of e s "KERNEL_DTB (plat e)" _ "bootdir sl @ KERNEL_TMP_DTB (plat e)"]
    update_dir_not_written(3) [OF _ update_sources(2)]
  by (auto simp: fw_dtb_def)

lemma rootfs_verify_complete: "take (length src) dev = src \<Longrightarrow> rootfs_verify src dev pos = 0"
proof (induction "length src - pos" arbitrary: pos rule: less_induct)
  case less
  show ?case
  proof (cases "length src \<le> pos")
    case True
    then show ?thesis by (simp add: rootfs_verify.simps)
  next
    case False
    let ?n = "readSize src pos"
    have n: "0 < ?n" "pos + ?n \<le> length src"
      using False by (simp_all add: readSize_def)
    have "read_at src pos ?n = read_at (take (length src) dev) pos ?n"
      using less(2) by simp
    also have "\<dots> = read_at dev pos ?n"
      using n by (simp add: read_at_def drop_take min_def)
    finally have same: "read_at src pos ?n = read_at dev pos ?n" .
    then have "length (read_at dev pos ?n) = ?n"
      using n by (metis add_diff_cancel_left' diff_le_mono min.absorb1 read_at_length)
    then have "rootfs_verify src dev pos = rootfs_verify src dev (pos + ?n)"
      using False same by (subst rootfs_verify.simps) simp
    also have "\<dots> = 0"
      using n less by simp
    finally show ?thesis .
  qed
qed

lemma fw_rootfs_good:
  assumes "good_env e"
    and "\<And>img. files s (ROOTFS_FILE (plat e)) = Some img \<Longrightarrow> \<exists>dev. files s (rootfsdev sl) = Some dev \<and> length img \<le> length dev"
  shows "\<exists>s'. fw_rootfs e vfy sl s = Inr s'"
proof (cases "files s (ROOTFS_FILE (plat e))")
  case None
  then show ?thesis by (simp add: fw_rootfs_def)
next
  case (Some img)
  then obtain dev where dev: "files s (rootfsdev sl) = Some dev" "length img \<le> length dev"
    using assms(2) by blast
  have "rootfs_copy (dev_write e) img 0 True dev = (0, img @ drop (length img) dev)"
    by (rule rootfs_copy_good) (use assms(1) dev in \<open>simp_all add: good_env_def\<close>)
  then show ?thesis
    using Some dev rootfs_verify_complete [of img "img @ drop (length img) dev" 0] by (simp add: fw_rootfs_def Let_def)
qed

lemma install_radio_good: "good_env e \<Longrightarrow> \<exists>k s'. install_radio e fw led pre prog code kill s = Inr (k, s')"
  by (auto simp: install_radio_def Let_def good_env_def)

lemma fw_radios_good:
  assumes "good_env e"
  shows "\<exists>s'. fw_radios e a s = Inr s'"
proof -
  have "\<exists>k' s'. fw_zwave e k s = Inr (k', s')" "\<exists>k' s'. fw_zigbee e k s = Inr (k', s')"
      "\<exists>k' s'. fw_ble e k s = Inr (k', s')" for k s
    unfolding fw_zwave_def fw_zigbee_def fw_ble_def by (rule install_radio_good [OF assms])+
  note radio = this
  obtain k1 s1 where 1: "fw_zwave e (killAgent a) s = Inr (k1, s1)"
    using radio(1) by blast
  obtain k2 s2 where 2: "fw_zigbee e k1 s1 = Inr (k2, s2)"
    using radio(2) by blast
  obtain k3 s3 where "fw_ble e k2 s2 = Inr (k3, s3)"
    using radio(3) by blast
  then show ?thesis
    by (simp add: fw_radios_def 1 2)
qed

lemma uboot_flash_good:
  assumes "good_env e" "plat e = imxdimagic" "files s (UBOOT_IMAGE imxdimagic) = Some img" "length img mod 512 = 0"
    "files s BOOT_FLASH = Some dev" "1024 \<le> length dev"
  shows "\<exists>s'. install_uboot_flash e s = Inr s'"
proof -
  have "length img div 512 * 512 = length img"
    using assms(4) by (metis add.right_neutral div_mult_mod_eq)
  moreover have "UBOOT_IMAGE imxdimagic \<noteq> BOOT_FLASH"
    by (simp add: UBOOT_IMAGE_def)
  ultimately have "\<not> cmpFlashToFile ((files s)(BOOT_FLASH \<mapsto> dd_flash img dev)) BOOT_FLASH 2 512 (UBOOT_IMAGE imxdimagic)"
    using assms(3,6) by (simp add: cmpFlashToFile_def dd_flash_def)
  then show ?thesis
    using assms by (simp add: install_uboot_flash_def Let_def good_env_def)
qed

lemma fw_uboot_good:
  assumes "good_env e"
    and imx: "\<And>img. \<lbrakk> plat e = imxdimagic; files s (UBOOT_IMAGE imxdimagic) = Some img \<rbrakk> \<Longrightarrow>
      length img mod 512 = 0 \<and> (\<exists>dev. files s BOOT_FLASH = Some dev \<and> 1024 \<le> length dev)"
  shows "\<exists>s'. fw_uboot e vfy s = Inr s'"
proof (cases "plat e")
  case imxdimagic
  then show ?thesis
    using uboot_flash_good [OF assms(1) imxdimagic, of "set_led e ''upgrade-bootloader'' s"] imx
    by (force simp: fw_uboot_def Let_def set_led_other UBOOT_MLO_def UBOOT_IMAGE_def)
next
  case beaglebone_yocto
  let ?s = "set_led e ''upgrade-bootloader'' s" and ?M = "UBOOT_MLO beaglebone_yocto" and ?U = "UBOOT_IMAGE beaglebone_yocto"
  have paths: "?M \<noteq> ''/tmp/bootupdate/MLO''" "?U \<noteq> ''/tmp/bootupdate/MLO''" "?U \<noteq> ''/tmp/bootupdate/u-boot.img''"
    by (simp_all add: UBOOT_MLO_def UBOOT_IMAGE_def)
  show ?thesis
  proof (cases "files ?s ?M \<noteq> None \<and> files ?s ?U \<noteq> None")
    case True
    then obtain x y where xy: "files ?s ?M = Some x" "files ?s ?U = Some y" by blast
    obtain s1 where s1: "install_file e vfy ?M ''/tmp/bootupdate/MLO'' ''upgrade-bootloader-err'' INSTALL_UBOOT_ERR ?s = Inr s1"
      using install_file_good [OF assms(1) xy(1) paths(1)] by blast
    have "within e {''/tmp/bootupdate/MLO''} ?s (Inr s1)"
      using install_file_within [of INSTALL_UBOOT_ERR "''/tmp/bootupdate/MLO''" "{''/tmp/bootupdate/MLO''}" e ?s vfy ?M "''upgrade-bootloader-err''"] s1
      by simp
    then have "files s1 ?U = Some y"
      using xy(2) paths(2) unfolding within_def agree_def
      by (auto simp: led_exit_def cleanup_exit_def UBOOT_IMAGE_def)
    then obtain s2 where "install_file e vfy ?U ''/tmp/bootupdate/u-boot.img'' ''upgrade-bootloader-err'' INSTALL_UBOOT_ERR s1 = Inr s2"
      using install_file_good [OF assms(1) _ paths(3)] by blast
    then show ?thesis
      using s1 True beaglebone_yocto assms(1) by (simp add: fw_uboot_def Let_def good_env_def)
  next
    case False
    then show ?thesis
      using beaglebone_yocto by (auto simp: fw_uboot_def Let_def)
  qed
qed

lemma fw_prepare_good:
  assumes "good_env e" "slot_ok sl"
    and root: "\<And>img. files s (ROOTFS_FILE (plat e)) = Some img \<Longrightarrow> \<exists>dev. files s (rootfsdev sl) = Some dev \<and> length img \<le> length dev"
    and imx: "\<And>img. \<lbrakk> plat e = imxdimagic; files s (UBOOT_IMAGE imxdimagic) = Some img \<rbrakk> \<Longrightarrow>
      length img mod 512 = 0 \<and> (\<exists>dev. files s BOOT_FLASH = Some dev \<and> 1024 \<le> length dev)"
  shows "\<exists>s'. fw_prepare e a sl s = Inr s'"
proof -
  obtain s1 where 1: "fw_uboot e (verify a) s = Inr s1"
    using fw_uboot_good [OF assms(1) imx] by blast
  obtain s2 where 2: "fw_kernel e (verify a) sl s1 = Inr s2"
    using fw_kernel_good [OF assms(1,2)] by blast
  obtain s3 where 3: "fw_dtb e (verify a) sl s2 = Inr s3"
    using fw_dtb_good [OF assms(1,2)] by blast
  have keep: "files s3 q = files s q"
    if "q \<notin> insert LED_MODE_FILE uboot_files" "q \<noteq> bootdir sl @ KERNEL_TMP_IMAGE (plat e)" "q \<noteq> bootdir sl @ KERNEL_TMP_DTB (plat e)" for q
    using that uboot.keeps [OF 1, of q] kernel.keeps [OF 2, of q] dtb.keeps [OF 3, of q] by simp
  have "files s3 (ROOTFS_FILE (plat e)) = files s (ROOTFS_FILE (plat e))"
    using update_dir_not_written [OF assms(2) update_sources(3)] by (intro keep)
  moreover have "files s3 (rootfsdev sl) = files s (rootfsdev sl)"
    by (rule keep) (use assms(2) in \<open>auto simp: slot_ok_def uboot_files_def\<close>)
  ultimately obtain s4 where "fw_rootfs e (verify a) sl s3 = Inr s4"
    using fw_rootfs_good [OF assms(1), of s3 sl] root by metis
  then show ?thesis
    using 1 2 3 fw_radios_good [OF assms(1), of a s4] by (simp add: fw_prepare_def)
qed

lemma fw_unpack_good:
  assumes "files s INSTALL_LOCK_FILE = None" "files s path = Some data" "path \<notin> {LED_MODE_FILE, INSTALL_LOCK_FILE}"
    "untar e data = Some ms" "\<And>fs. sums_ok e fs"
  shows "\<exists>s1. fw_unpack e path s = Inr s1 \<and>
    (\<forall>q. q \<notin> {LED_MODE_FILE, INSTALL_LOCK_FILE} \<longrightarrow> files s1 q = (files s ++ add_members ms Map.empty) q)"
proof -
  define s1 where "s1 = set_led e ''upgrade-unpack'' (s\<lparr>files := (if writable e INSTALL_LOCK_FILE then (files s)(INSTALL_LOCK_FILE \<mapsto> []) else files s)\<rparr>)"
  have s1: "files s1 q = files s q" if "q \<notin> {LED_MODE_FILE, INSTALL_LOCK_FILE}" for q
    using that by (simp add: s1_def set_led_other)
  have "fw_unpack e path s = Inr (s1\<lparr>files := add_members ms (files s1)\<rparr>)"
    using assms s1 [OF assms(3)] unfolding fw_unpack_def Let_def s1_def by simp
  moreover have "add_members ms (files s1) q = (files s ++ add_members ms Map.empty) q" if "q \<notin> {LED_MODE_FILE, INSTALL_LOCK_FILE}" for q
    using s1 [OF that] by (subst add_members_override) (simp add: map_add_def split: option.split)
  ultimately show ?thesis by simp
qed

lemma completes:
  assumes "good_env e" "archive_ok e" "fw_options opts fw_defaults = Inr a"
    and "files s INSTALL_LOCK_FILE = None" "files s path = Some data" "path \<notin> {LED_MODE_FILE, INSTALL_LOCK_FILE}"
    and "untar e data = Some ms" "\<And>fs. sums_ok e fs"
    and "unpacked = files s ++ add_members ms Map.empty" "sl = select_slot e (files s)"
    and "\<And>img. unpacked (ROOTFS_FILE (plat e)) = Some img \<Longrightarrow> \<exists>dev. files s (rootfsdev sl) = Some dev \<and> length img \<le> length dev"
    and "\<And>img. \<lbrakk> plat e = imxdimagic; unpacked (UBOOT_IMAGE imxdimagic) = Some img \<rbrakk> \<Longrightarrow>
      length img mod 512 = 0 \<and> (\<exists>dev. files s BOOT_FLASH = Some dev \<and> 1024 \<le> length dev)"
  shows "\<exists>s'. fwinstall_main e opts (Some path) s = (0, s')"
proof -
  obtain s1 where up: "fw_unpack e path s = Inr s1"
      "\<And>q. q \<notin> {LED_MODE_FILE, INSTALL_LOCK_FILE} \<Longrightarrow> files s1 q = unpacked q"
    using fw_unpack_good [OF assms(4-8)] assms(9) by blast
  have agree: "agree base_files s s1"
    using fw_unpack_agree [OF assms(2), of s path] up(1) by simp
  have ok: "slot_ok sl"
    by (simp add: assms(10) select_slot_ok)
  have dev: "files s1 (rootfsdev sl) = files s (rootfsdev sl)"
    using agree slot_files_not_base [OF in_slot_files(2) ok] unfolding agree_def by blast
  have boot: "files s1 BOOT_FLASH = files s BOOT_FLASH"
    using agree unfolding agree_def by (simp add: base_files_def)
  have root: "files s1 (ROOTFS_FILE (plat e)) = unpacked (ROOTFS_FILE (plat e))"
    by (rule up(2)) (cases "plat e"; simp add: ROOTFS_FILE_def)
  have img: "files s1 (UBOOT_IMAGE imxdimagic) = unpacked (UBOOT_IMAGE imxdimagic)"
    by (rule up(2)) (simp add: UBOOT_IMAGE_def)
  obtain s2 where "fw_prepare e a sl s1 = Inr s2"
    using fw_prepare_good [OF assms(1) ok, of s1 a] assms(11,12) unfolding root img dev boot by blast
  then have "\<exists>s'. fw_install e a sl s1 = Inr s'"
    using assms(1) by (cases rule: fw_wrapup_cases [of e sl s2]) (simp_all add: fw_install_prepare good_env_def fw_wrapup_def Let_def)
  then show ?thesis
    using up(1) assms(1,3) select_slot_agree [OF agree, of e]
    by (auto simp: fwinstall_main_def fw_defaults_def fw_mount_def good_env_def assms(10))
qed


section \<open>A concrete hub\<close>

text \<open>A hub that runs from slot 1 (boot index 3) and an archive with a kernel and a root file system.\<close>

definition sample_members :: "(string \<times> bytes) list" where
  "sample_members = [(''update/zImage-imxdimagic.bin'', [9, 8]),
     (''update/core-image-minimal-iris-imxdimagic.squashfs'', [1, 2, 3])]"

definition sample_env :: fwenv where
  "sample_env = \<lparr>plat = imxdimagic, untar = (\<lambda>d. if d = [42] then Some sample_members else None),
     sums_ok = (\<lambda>_. True), mounts = (\<lambda>_. True), cmdline = Some (str ''root=/dev/p2 ro''),
     link1 = str ''/dev/p2'', link2 = str ''/dev/p4'', writable = (\<lambda>_. True),
     copy = (\<lambda>_ b. (int (length b), b)), dev_write = (\<lambda>_ b. (length b, b)), flash = Some,
     radio_ok = (\<lambda>_. True), model_buf = []\<rparr>"

definition sample_state :: fwstate where
  "sample_state = \<lparr>files = [FW_INSTALL_FILE \<mapsto> [42], DEV_ROOTFS1 \<mapsto> [5, 5, 5, 5], DEV_ROOTFS2 \<mapsto> [1, 7, 7, 7],
     ''/tmp/kernel1/bootindex'' \<mapsto> str ''3'', ''/tmp/kernel2/bootindex'' \<mapsto> str ''2''], commands = []\<rparr>"

lemma sample_run: "fst (fwinstall_main sample_env [] (Some FW_INSTALL_FILE) sample_state) = 0"
  by code_simp

lemma sample_archive_ok: "archive_ok sample_env"
  by (simp add: archive_ok_def sample_env_def sample_members_def)

lemma sample_select:
  "select_slot sample_env (files sample_state) = \<lparr>bootdir = TMP_KERNEL2_DIR, rootfsdev = DEV_ROOTFS2, updateindex = 4\<rparr>"
  by code_simp

lemma sample_options: "fw_options [] fw_defaults = Inr fw_defaults"
  by simp

definition sample_result :: fwstate where
  "sample_result = snd (fwinstall_main sample_env [] (Some FW_INSTALL_FILE) sample_state)"

lemma sample_main: "fwinstall_main sample_env [] (Some FW_INSTALL_FILE) sample_state = (0, sample_result)"
  using sample_run by (simp add: sample_result_def prod_eq_iff)

theorem other_slot_untouched_witness:
  "files (snd (fwinstall_main sample_env [] (Some FW_INSTALL_FILE) sample_state)) DEV_ROOTFS1 = Some [5, 5, 5, 5]"
proof -
  have "files sample_state DEV_ROOTFS1 = Some [5, 5, 5, 5]"
    by (simp add: sample_state_def)
  then show ?thesis
    using other_slot_untouched [OF sample_main sample_options sample_archive_ok, of DEV_ROOTFS1]
    unfolding sample_select by (simp add: slot_files_def other_slot_def sample_main)
qed

lemma sample_failure:
  "fst (fwinstall_main (sample_env\<lparr>dev_write := \<lambda>_ b. (length b, map (\<lambda>_. 0) b)\<rparr>) [] (Some FW_INSTALL_FILE) sample_state) = INSTALL_ROOTFS_ERR"
  by code_simp

theorem failed_install_keeps_bootindex_witness:
  "\<exists>s'. fwinstall_main (sample_env\<lparr>dev_write := \<lambda>_ b. (length b, map (\<lambda>_. 0) b)\<rparr>) [] (Some FW_INSTALL_FILE) sample_state =
      (INSTALL_ROOTFS_ERR, s') \<and> files s' ''/tmp/kernel2/bootindex'' = Some (str ''2'')"
proof -
  let ?e = "sample_env\<lparr>dev_write := \<lambda>_ b. (length b, map (\<lambda>_. 0) b)\<rparr>"
  define s' where "s' = snd (fwinstall_main ?e [] (Some FW_INSTALL_FILE) sample_state)"
  have run: "fwinstall_main ?e [] (Some FW_INSTALL_FILE) sample_state = (INSTALL_ROOTFS_ERR, s')"
    using sample_failure by (simp add: s'_def prod_eq_iff)
  have "archive_ok ?e"
    using sample_archive_ok by (simp add: archive_ok_def)
  then have "files s' (TMP_KERNEL2_DIR @ ''/bootindex'') = files sample_state (TMP_KERNEL2_DIR @ ''/bootindex'')"
    by (intro failed_install_keeps_bootindex [OF run _ sample_options]) simp_all
  moreover have "files sample_state ''/tmp/kernel2/bootindex'' = Some (str ''2'')"
    by (simp add: sample_state_def)
  ultimately show ?thesis
    using run by simp
qed

theorem install_success_installs_witness:
  "\<exists>s'. fwinstall_main sample_env [] (Some FW_INSTALL_FILE) sample_state = (0, s') \<and>
    files s' ''/tmp/kernel2/bootindex'' = Some (str ''4'' @ [10]) \<and> files s' ''/tmp/kernel2/zImage'' = Some [9, 8] \<and>
    (\<exists>dev. files s' DEV_ROOTFS2 = Some dev \<and> take 3 dev = [1, 2, 3])"
proof -
  have "dec_str 4 = str ''4''"
    by code_simp
  moreover have "files sample_state FW_INSTALL_FILE = Some [42]" "untar sample_env [42] = Some sample_members"
    "plat sample_env = imxdimagic"
    by (simp_all add: sample_state_def sample_env_def)
  moreover have "add_members sample_members Map.empty (KERNEL_IMAGE imxdimagic) = Some [9, 8]"
    "add_members sample_members Map.empty (ROOTFS_FILE imxdimagic) = Some [1, 2, 3]"
    by code_simp+
  ultimately show ?thesis
    using install_success_installs [OF sample_main sample_options _ sample_archive_ok, of "[42]" sample_members, OF _ _ _ _ sample_select [symmetric] refl]
      sample_main
    by (simp add: fw_defaults_def KERNEL_TMP_IMAGE_def numeral_3_eq_3)
qed

theorem running_slot_choice_witness:
  "bootdir (select_slot sample_env (files sample_state)) = TMP_KERNEL2_DIR"
proof -
  have "cmdline sample_env = Some (str ''root=/dev/p2 ro'')" "strstr (str ''root=/dev/p2 ro'') (link1 sample_env)"
      "\<not> strstr (str ''root=/dev/p2 ro'') (link2 sample_env)"
      "(3 :: int) = bootindex (files sample_state) TMP_KERNEL1_DIR" "(2 :: int) = bootindex (files sample_state) TMP_KERNEL2_DIR"
    by code_simp+
  then show ?thesis
    using running_slot_choice [of sample_env "str ''root=/dev/p2 ro''" 3 "files sample_state" 2] by simp
qed



theorem unaligned_uboot_fails_witness:
  "\<exists>s'. fw_uboot sample_env True (sample_state\<lparr>files := [UBOOT_IMAGE imxdimagic \<mapsto> [1, 2, 3]]\<rparr>) = Inl (INSTALL_UBOOT_ERR, s')"
  by (rule unaligned_uboot_fails [where img = "[1, 2, 3]"]) (simp_all add: sample_env_def)


end
