(* ===== verification/Update.thy ===== *)
theory Update
  imports FwInstall
begin

text \<open>
  The two programs that fetch, validate and install a firmware image: the command
  \<^verbatim>\<open>iris-utils/files/update.c\<close> and one pass of the daemon \<^verbatim>\<open>auto_updated.c\<close>. Both run \<^verbatim>\<open>validate_image\<close>
  and \<^verbatim>\<open>fwinstall\<close> as commands, so their models compose those of the theories before. The programs that
  transfer a file are a parameter.
\<close>

section \<open>Commands\<close>

text \<open>A shell runs a command line on the files and gives its exit code. The value of \<^verbatim>\<open>system\<close> is the wait
  status, with the exit code in its second byte; \<^verbatim>\<open>exit\<close> hands on the lowest byte of its argument.\<close>

type_synonym shell = "string \<Rightarrow> fsys \<Rightarrow> nat \<times> fsys"

definition wait_status :: "nat \<Rightarrow> nat" where
  "wait_status code = code mod 256 * 256"

definition exit_status :: "nat \<Rightarrow> nat" where
  "exit_status res = res mod 256"

text \<open>A command line that is put together in a buffer of 256 characters.\<close>

definition cmd_buf :: "string \<Rightarrow> string" where
  "cmd_buf s = take 255 s"

text \<open>Validation of a file and, if it succeeded and left a file to install, its installation: the two
  results, the second one only if the installer ran.\<close>

definition check_install ::
  "(string \<Rightarrow> fsys \<Rightarrow> nat \<times> fsys) \<Rightarrow> (string \<Rightarrow> fwstate \<Rightarrow> nat \<times> fwstate) \<Rightarrow> string \<Rightarrow> fwstate \<Rightarrow>
    nat \<times> nat option \<times> fwstate" where
  "check_install check install path s =
    (case check path (files s) of (v, fs) \<Rightarrow>
      (let s = s\<lparr>files := fs\<rparr> in
       if wait_status v \<noteq> 0 \<or> fs FW_INSTALL_FILE = None then (wait_status v, None, s)
       else (case install FW_INSTALL_FILE s of (code, s) \<Rightarrow> (wait_status v, Some (wait_status code), s))))"

section \<open>The command\<close>

abbreviation (input) TMP_FILE :: string where "TMP_FILE \<equiv> ''/tmp/upload.bin''"

datatype up_opt = UpHelp | UpForce | UpKill | UpCred string | UpUnknown

record up_args =
  up_force :: bool
  up_kill :: bool
  up_cred :: "string option"

fun up_options :: "up_opt list \<Rightarrow> up_args \<Rightarrow> nat + up_args" where
  "up_options [] a = Inr a"
| "up_options (UpHelp # opts) a = Inl 0"
| "up_options (UpForce # opts) a = up_options opts (a\<lparr>up_force := True\<rparr>)"
| "up_options (UpKill # opts) a = up_options opts (a\<lparr>up_kill := True\<rparr>)"
| "up_options (UpCred c # opts) a = up_options opts (a\<lparr>up_cred := Some c\<rparr>)"
| "up_options (UpUnknown # opts) a = Inl INSTALL_ARG_ERR"

definition up_filename :: "string \<Rightarrow> string" where
  "up_filename url =
    (if take 16 url = ''file://localhost'' then drop 16 url
     else if length url > 7 \<and> url ! 7 = CHR ''/'' then drop 7 url
     else drop 6 url)"

definition fetch_cmd :: "string option \<Rightarrow> string \<Rightarrow> string" where
  "fetch_cmd cred url =
    cmd_buf (if take 7 url = ''file://'' then ''ln -s '' @ up_filename url @ '' '' @ TMP_FILE
      else (case cred of
          Some c \<Rightarrow> ''curl -s -k -u '' @ c @ '' '' @ url @ '' -o '' @ TMP_FILE
        | None \<Rightarrow> ''curl -s '' @ url @ '' -o '' @ TMP_FILE))"

text \<open>The end of the program: a wait after an error, the LED mode restored, the files removed. The result
  is the exit status, the seconds waited and the state.\<close>

definition up_finish :: "fwenv \<Rightarrow> nat \<Rightarrow> nat \<Rightarrow> bytes \<Rightarrow> fwstate \<Rightarrow> nat \<times> nat \<times> fwstate" where
  "up_finish e res ledDelay ledMode s =
    (exit_status res, if res \<noteq> 0 then ledDelay else 0,
     s\<lparr>files := (IRIS_setLedMode (writable e) ledMode (files s))(FW_INSTALL_FILE := None, TMP_FILE := None)\<rparr>)"

definition up_ledDelay :: "nat option \<Rightarrow> nat" where
  "up_ledDelay inst = (case inst of Some res \<Rightarrow> if res \<noteq> 0 \<and> res \<ge> INSTALL_HARD_ERRORS then 10 else 3 | None \<Rightarrow> 3)"

definition hub_check :: "tools \<Rightarrow> bytes \<Rightarrow> bool \<Rightarrow> string \<Rightarrow> fsys \<Rightarrow> nat \<times> fsys" where
  "hub_check t ck0 force path fs = validate_image_main t ck0 (if force then [ViSkip] else []) (Some path) fs"

definition hub_install :: "fwenv \<Rightarrow> bool \<Rightarrow> string \<Rightarrow> fwstate \<Rightarrow> nat \<times> fwstate" where
  "hub_install e kill path s = fwinstall_main e (if kill then [FwKill] else []) (Some path) s"

definition up_run :: "tools \<Rightarrow> bytes \<Rightarrow> fwenv \<Rightarrow> up_args \<Rightarrow> fwstate \<Rightarrow> nat \<times> nat \<times> fwstate" where
  "up_run t ck0 e a s =
    (case check_install (hub_check t ck0 (up_force a)) (hub_install e (up_kill a)) TMP_FILE s of
       (v, inst, s') \<Rightarrow> up_finish e (case inst of Some res \<Rightarrow> res | None \<Rightarrow> v) (up_ledDelay inst) (IRIS_getLedMode (files s) [] 128) s')"

definition update_main ::
  "tools \<Rightarrow> bytes \<Rightarrow> fwenv \<Rightarrow> shell \<Rightarrow> up_opt list \<Rightarrow> string option \<Rightarrow> fwstate \<Rightarrow> nat \<times> nat \<times> fwstate" where
  "update_main t ck0 e sh opts urlarg s =
    (case up_options opts \<lparr>up_force = False, up_kill = False, up_cred = None\<rparr> of
       Inl code \<Rightarrow> (code, 0, s)
     | Inr a \<Rightarrow>
    (case urlarg of None \<Rightarrow> (INSTALL_ARG_ERR, 0, s) | Some url \<Rightarrow>
       (case sh (fetch_cmd (up_cred a) url) ((files s)(FW_INSTALL_FILE := None, TMP_FILE := None)) of
          (code, fs) \<Rightarrow>
            if wait_status code \<noteq> 0 then (INSTALL_DOWNLOAD_ERR, 0, s\<lparr>files := fs\<rparr>)
            else up_run t ck0 e a (s\<lparr>files := fs\<rparr>))))"

section \<open>The daemon\<close>

abbreviation (input) UPDATE_TMP_FILE :: string where "UPDATE_TMP_FILE \<equiv> ''/tmp/auto_update.bin''"
abbreviation (input) UPDATE_SKIP_FILE :: string where "UPDATE_SKIP_FILE \<equiv> ''/data/config/update_skip''"
abbreviation (input) MAX_RETRIES :: nat where "MAX_RETRIES \<equiv> 5"

subsection \<open>The version in a file name\<close>

text \<open>\<^verbatim>\<open>%d\<close> and \<^verbatim>\<open>%s\<close> of \<^verbatim>\<open>sscanf\<close>, with the text that follows.\<close>

definition scan_int_rest :: "bytes \<Rightarrow> (int \<times> bytes) option" where
  "scan_int_rest b =
    (case scan_int b of
       None \<Rightarrow> None
     | Some v \<Rightarrow>
         (let r = dropWhile is_space b;
              r = (if r \<noteq> [] \<and> (hd r = 45 \<or> hd r = 43) then tl r else r) in
          Some (v, dropWhile is_digit r)))"

definition scan_word_rest :: "bytes \<Rightarrow> (bytes \<times> bytes) option" where
  "scan_word_rest b =
    (case scan_word b of
       None \<Rightarrow> None
     | Some w \<Rightarrow> Some (w, dropWhile (\<lambda>c. \<not> is_space c) (dropWhile is_space b)))"

text \<open>Numbers are stored until one cannot be read; the variables behind it keep what they held.\<close>

fun scan_ints :: "int list \<Rightarrow> bytes \<Rightarrow> int list \<times> bytes option" where
  "scan_ints [] b = ([], Some b)"
| "scan_ints (old # olds) b =
    (case scan_int_rest b of
       None \<Rightarrow> (old # olds, None)
     | Some (v, r) \<Rightarrow> (case scan_ints olds r of (vs, rest) \<Rightarrow> (v # vs, rest)))"

record fw_numbers =
  numbers :: "int list"
  suffix :: bytes

definition scan_numbers :: "fw_numbers \<Rightarrow> bytes \<Rightarrow> fw_numbers" where
  "scan_numbers old b =
    (case scan_ints (numbers old) b of
       (vs, None) \<Rightarrow> old\<lparr>numbers := vs\<rparr>
     | (vs, Some r) \<Rightarrow> \<lparr>numbers = vs, suffix = (case scan_word r of None \<Rightarrow> suffix old | Some w \<Rightarrow> w)\<rparr>)"

definition file_numbers :: "fw_numbers \<Rightarrow> string \<Rightarrow> fw_numbers" where
  "file_numbers old filename =
    (let version = str (map (\<lambda>c. if c = CHR ''_'' \<or> c = CHR ''.'' then CHR '' '' else c) filename);
         r = drop 5 version;
         n = (if length version > 6 \<and> is_digit (version ! 6) then scan_numbers old r
              else (case scan_word_rest r of None \<Rightarrow> old | Some (type, r) \<Rightarrow> scan_numbers old r)) in
     if strncmp_eq (str ''bin'') (suffix n) 32 then n\<lparr>suffix := []\<rparr> else n)"

definition is_current :: "fw_numbers \<Rightarrow> bool" where
  "is_current n \<longleftrightarrow> numbers n = [3, 0, 1, 29] \<and> strncmp_eq [] (suffix n) 32"

subsection \<open>One pass\<close>

datatype auto_result = TryAgain | Rebooting

text \<open>The download, at most \<open>n\<close> times; \<open>sh n\<close> is the shell at the attempt with \<open>n\<close> further ones.\<close>

fun auto_download :: "(nat \<Rightarrow> shell) \<Rightarrow> string \<Rightarrow> nat \<Rightarrow> fsys \<Rightarrow> bool \<times> fsys" where
  "auto_download sh cmd 0 fs = (False, fs)"
| "auto_download sh cmd (Suc n) fs =
    (case sh n cmd fs of
       (code, fs) \<Rightarrow> if wait_status code = 0 \<and> fs UPDATE_TMP_FILE \<noteq> None then (True, fs) else auto_download sh cmd n fs)"

definition auto_install :: "tools \<Rightarrow> bytes \<Rightarrow> fwenv \<Rightarrow> fwstate \<Rightarrow> auto_result \<times> fwstate" where
  "auto_install t ck0 e s =
    (let ledMode = IRIS_getLedMode (files s) [] 128 in
     case check_install (hub_check t ck0 True) (hub_install e False) UPDATE_TMP_FILE s of
       (v, inst, s) \<Rightarrow>
         if inst = Some 0 then (Rebooting, s\<lparr>commands := commands s @ [''hub_restart now'']\<rparr>)
         else (TryAgain, s\<lparr>files := (IRIS_setLedMode (writable e) ledMode (files s))
                 (UPDATE_TMP_FILE := None, FW_INSTALL_FILE := None)\<rparr>))"

text \<open>\<open>base\<close> is the command up to the address of the server, with its credentials; \<open>opened\<close> says whether one
  of the attempts to run the query succeeded, \<open>line\<close> is the line it printed, \<open>old\<close> what the local variables
  hold. The line is read into a buffer of 128 characters.\<close>

definition auto_filename :: "string \<Rightarrow> string" where
  "auto_filename line = (let l = take 127 line in if l \<noteq> [] \<and> last l = CHR 0x0A then butlast l else l)"

definition auto_pass ::
  "tools \<Rightarrow> bytes \<Rightarrow> fwenv \<Rightarrow> (nat \<Rightarrow> shell) \<Rightarrow> string \<Rightarrow> bool \<Rightarrow> string \<Rightarrow> fw_numbers \<Rightarrow> fwstate \<Rightarrow> auto_result \<times> fwstate" where
  "auto_pass t ck0 e sh base opened line old s =
    (if files s UPDATE_SKIP_FILE \<noteq> None \<or> \<not> opened then (TryAgain, s)
     else if take 5 line \<noteq> ''hubOS'' then (TryAgain, s)
     else if is_current (file_numbers old (auto_filename line)) then (TryAgain, s)
     else
       (case auto_download sh (cmd_buf (base @ auto_filename line @ '' -o '' @ UPDATE_TMP_FILE)) MAX_RETRIES
               ((files s)(UPDATE_TMP_FILE := None)) of
          (got, fs) \<Rightarrow>
            if got then auto_install t ck0 e (s\<lparr>files := fs\<rparr>)
            else (TryAgain, s\<lparr>files := fs(UPDATE_TMP_FILE := None, FW_INSTALL_FILE := None)\<rparr>)))"

section \<open>Validate, then install\<close>

text \<open>What the two programs rely on: a check changes its scratch files only, and a file it leaves to be
  installed comes from an image that \<open>trusts\<close> accepts. Then the installer runs on such a file only, and
  nothing else changes unless it runs.\<close>

locale image_check =
  fixes check :: "string \<Rightarrow> fsys \<Rightarrow> nat \<times> fsys"
    and trusts :: "fsys \<Rightarrow> bytes \<Rightarrow> bytes \<Rightarrow> bool"
  assumes check_frame: "p \<notin> vi_files \<Longrightarrow> snd (check path fs) p = fs p"
    and check_code: "fst (check path fs) < 256"
    and check_sound: "fst (check path fs) = 0 \<Longrightarrow> snd (check path fs) FW_INSTALL_FILE = Some data \<Longrightarrow>
      \<exists>img. fs path = Some img \<and> trusts fs img data"
begin

lemma not_installed:
  assumes "check_install check install path s = (v, None, s')" "p \<notin> vi_files"
  shows "files s' p = files s p"
  using assms check_frame [OF assms(2), of path "files s"]
  by (auto simp: check_install_def Let_def split: prod.splits if_splits)

lemma installed:
  assumes "check_install check install path s = (v, Some r, s')"
  obtains img data where "files s path = Some img" "trusts (files s) img data"
proof -
  obtain w fs where chk: "check path (files s) = (w, fs)"
    by fastforce
  have "wait_status w = 0" "fs FW_INSTALL_FILE \<noteq> None"
    using assms by (auto simp: check_install_def chk Let_def split: if_splits)
  then obtain data where "w = 0" "fs FW_INSTALL_FILE = Some data"
    using check_code [of path "files s"] chk by (auto simp: wait_status_def)
  then show ?thesis
    using check_sound [of path "files s" data] chk that by auto
qed

lemma change_is_trusted:
  assumes "check_install check install path s = (v, inst, s')" "p \<notin> vi_files" "files s' p \<noteq> files s p"
  obtains img data where "files s path = Some img" "trusts (files s) img data"
  using assms not_installed [of install path s v s' p] installed [of install path s v _ s']
  by (cases inst) auto

end

lemma vi_read_header_code: "vi_read_header t img fs = (Inl res, fs') \<Longrightarrow> res \<le> 10"
  by (auto simp: vi_read_header_def Let_def split: if_splits option.splits)

lemma vi_decrypt_code: "fst (vi_decrypt t ck0 img h fs) \<le> 10"
  by (simp add: vi_decrypt_def Let_def split: option.splits)

lemma vi_install_code: "fst (vi_install t ck0 img h fs) \<le> 10"
  using vi_decrypt_code [of t ck0 img h fs]
  by (auto simp: vi_install_def vi_error_exit_def split: prod.splits)

lemma vi_hub_code: "fst (vi_hub t ck0 skip img h fs) \<le> 10"
proof -
  have "vi_hub_checks h fs \<le> 10"
    by (auto simp: vi_hub_checks_def split: option.splits)
  then show ?thesis
    using vi_install_code by (auto simp: vi_hub_def vi_error_exit_def split: option.splits)
qed

lemma hub_check_code: "fst (hub_check t ck0 force path fs) \<le> 10"
  using vi_install_code vi_hub_code
  by (auto simp: hub_check_def validate_image_main_def vi_error_exit_def dest: vi_read_header_code
      split: option.splits prod.splits sum.splits)

lemma hub_check_sound:
  assumes "tools_ok t" "fst (hub_check t ck0 force path fs) = 0"
    "snd (hub_check t ck0 force path fs) FW_INSTALL_FILE = Some data"
  shows "\<exists>img. fs path = Some img \<and> accepted t fs img data"
proof -
  have run: "validate_image_main t ck0 (if force then [ViSkip] else []) (Some path) fs =
      (0, snd (hub_check t ck0 force path fs))"
    using assms(2) by (simp add: hub_check_def prod_eq_iff)
  then have "fs path \<noteq> None"
    by (cases "fs path") (auto simp: validate_image_main_def split: if_splits)
  then obtain img where img: "fs path = Some img"
    by blast
  have opts: "vi_options (if force then [ViSkip] else []) (False, False) = Inr (False, force)"
    by simp
  show ?thesis
    using accepted_sound [OF run assms(3) opts img assms(1)] img by blast
qed

interpretation hub: image_check "hub_check t ck0 force" "\<lambda>fs img data. tools_ok t \<longrightarrow> accepted t fs img data"
  for t ck0 force
proof
  fix p path fs data
  show "p \<notin> vi_files \<Longrightarrow> snd (hub_check t ck0 force path fs) p = fs p"
    by (simp add: hub_check_def validate_frame)
  show "fst (hub_check t ck0 force path fs) < 256"
    using hub_check_code [of t ck0 force path fs] by simp
  assume ok: "fst (hub_check t ck0 force path fs) = 0" "snd (hub_check t ck0 force path fs) FW_INSTALL_FILE = Some data"
  have "fs path \<noteq> None"
    using ok(1) by (cases "fs path") (auto simp: hub_check_def validate_image_main_def split: if_splits)
  then show "\<exists>img. fs path = Some img \<and> (tools_ok t \<longrightarrow> accepted t fs img data)"
    using hub_check_sound [OF _ ok] by auto
qed

section \<open>Only trusted images are installed\<close>

lemma up_finish_frame: "p \<notin> {LED_MODE_FILE, FW_INSTALL_FILE, TMP_FILE} \<Longrightarrow>
    up_finish e res d m s = (x, y, s') \<Longrightarrow> files s' p = files s p"
  by (auto simp: up_finish_def IRIS_setLedMode_def)

lemma accepted_frame:
  assumes "fs' MODEL_FILE = fs MODEL_FILE" "fs' CUSTOMER_FILE = fs CUSTOMER_FILE"
  shows "accepted t fs' img data \<longleftrightarrow> accepted t fs img data"
proof -
  have "vi_config fs' MODEL_FILE = vi_config fs MODEL_FILE" "vi_config fs' CUSTOMER_FILE = vi_config fs CUSTOMER_FILE"
    using assms by (simp_all add: vi_config_def)
  then show ?thesis
    by (simp add: accepted_def)
qed

lemma up_run_change:
  assumes "up_run t ck0 e a s = (code, d, s')" "tools_ok t" "p \<notin> vi_files \<union> {TMP_FILE}" "files s' p \<noteq> files s p"
  shows "\<exists>img data. files s TMP_FILE = Some img \<and> accepted t (files s) img data"
proof -
  obtain v inst s1 where chk: "check_install (hub_check t ck0 (up_force a)) (hub_install e (up_kill a)) TMP_FILE s = (v, inst, s1)"
    using prod_cases3 by blast
  have "p \<notin> {LED_MODE_FILE, FW_INSTALL_FILE, TMP_FILE}"
    using assms(3) by (simp add: vi_files_def)
  then have "files s' p = files s1 p"
    using assms(1) up_finish_frame by (simp add: up_run_def chk)
  then obtain img data where "files s TMP_FILE = Some img" "tools_ok t \<longrightarrow> accepted t (files s) img data"
    using hub.change_is_trusted [OF chk, of p] assms(3,4) by auto
  then show ?thesis
    using assms(2) by blast
qed

text \<open>C2: whatever is downloaded and whatever goes wrong, an update leaves every file outside of its own
  scratch files as it was, unless the downloaded image carries a valid signature, decrypts to a file with
  the signed checksum and is meant for this model and customer.\<close>

theorem only_trusted_images_installed:
  assumes "update_main t ck0 e sh opts urlarg s = (code, d, s')" "tools_ok t"
    and "\<And>cmd fs q. q \<noteq> TMP_FILE \<Longrightarrow> snd (sh cmd fs) q = fs q"
    and "p \<notin> vi_files \<union> {TMP_FILE}" "files s' p \<noteq> files s p"
  shows "\<exists>url cred img data. urlarg = Some url \<and>
    snd (sh (fetch_cmd cred url) ((files s)(FW_INSTALL_FILE := None, TMP_FILE := None))) TMP_FILE = Some img \<and>
    accepted t (files s) img data"
proof -
  have p: "p \<noteq> FW_INSTALL_FILE" "p \<noteq> TMP_FILE"
    using assms(4) by (auto simp: vi_files_def)
  obtain a url where a: "up_options opts \<lparr>up_force = False, up_kill = False, up_cred = None\<rparr> = Inr a" "urlarg = Some url"
    using assms(1,5) by (auto simp: update_main_def split: sum.splits option.splits)
  let ?fs0 = "(files s)(FW_INSTALL_FILE := None, TMP_FILE := None)"
  obtain c fs where sh: "sh (fetch_cmd (up_cred a) url) ?fs0 = (c, fs)"
    by fastforce
  have frame: "fs q = ?fs0 q" if "q \<noteq> TMP_FILE" for q
    using assms(3) [OF that, of "fetch_cmd (up_cred a) url" ?fs0] sh by simp
  then have same: "fs p = files s p" "fs MODEL_FILE = files s MODEL_FILE" "fs CUSTOMER_FILE = files s CUSTOMER_FILE"
    using p by simp_all
  have "up_run t ck0 e a (s\<lparr>files := fs\<rparr>) = (code, d, s')"
    using assms(1,5) a sh same(1) by (auto simp: update_main_def split: if_splits)
  from up_run_change [OF this assms(2,4)] obtain img data where "fs TMP_FILE = Some img" "accepted t fs img data"
    using assms(5) same(1) by auto
  then show ?thesis
    using a(2) sh accepted_frame [OF same(2,3)] by (metis snd_conv)
qed

text \<open>The same for the daemon.\<close>

lemma auto_install_change:
  assumes "auto_install t ck0 e s = (r, s')" "tools_ok t"
    "p \<notin> vi_files \<union> {UPDATE_TMP_FILE}" "files s' p \<noteq> files s p"
  shows "\<exists>img data. files s UPDATE_TMP_FILE = Some img \<and> accepted t (files s) img data"
proof -
  obtain v inst s1 where chk: "check_install (hub_check t ck0 True) (hub_install e False) UPDATE_TMP_FILE s = (v, inst, s1)"
    using prod_cases3 by blast
  have "p \<notin> {LED_MODE_FILE, FW_INSTALL_FILE, UPDATE_TMP_FILE}"
    using assms(3) by (simp add: vi_files_def)
  then have "files s' p = files s1 p"
    using assms(1) by (auto simp: auto_install_def chk Let_def IRIS_setLedMode_def split: if_splits)
  then obtain img data where "files s UPDATE_TMP_FILE = Some img" "tools_ok t \<longrightarrow> accepted t (files s) img data"
    using hub.change_is_trusted [OF chk, of p] assms(3,4) by auto
  then show ?thesis
    using assms(2) by blast
qed

section \<open>What an update leaves behind\<close>

text \<open>C29: once the image was fetched, an update always ends with its files removed and the LED mode as it was
  before (the first line of the mode file); and with exit status 0, whether the image was installed, refused
  or damaged, since the wait status of the failed command is handed to \<^verbatim>\<open>exit\<close>.\<close>

theorem update_cleans_up:
  assumes "up_options opts \<lparr>up_force = False, up_kill = False, up_cred = None\<rparr> = Inr a"
    and "sh (fetch_cmd (up_cred a) url) ((files s)(FW_INSTALL_FILE := None, TMP_FILE := None)) = (0, fs)"
  shows "\<exists>d s'. update_main t ck0 e sh opts (Some url) s = (0, d, s') \<and>
    files s' FW_INSTALL_FILE = None \<and> files s' TMP_FILE = None \<and>
    (writable e LED_MODE_FILE \<longrightarrow> files s' LED_MODE_FILE = Some (IRIS_getLedMode fs [] 128))"
proof -
  let ?s = "s\<lparr>files := fs\<rparr>"
  have run: "update_main t ck0 e sh opts (Some url) s = up_run t ck0 e a ?s"
    using assms by (simp add: update_main_def wait_status_def)
  obtain v inst s1 where chk: "check_install (hub_check t ck0 (up_force a)) (hub_install e (up_kill a)) TMP_FILE ?s = (v, inst, s1)"
    using prod_cases3 by blast
  define res where "res = (case inst of Some r \<Rightarrow> r | None \<Rightarrow> v)"
  have "\<exists>c. res = wait_status c"
    using chk by (auto simp: check_install_def res_def Let_def split: prod.splits if_splits)
  then have "exit_status res = 0"
    by (auto simp: exit_status_def wait_status_def)
  then show ?thesis
    unfolding run by (simp add: up_run_def chk up_finish_def IRIS_setLedMode_def flip: res_def)
qed

section \<open>From the build to the slot\<close>

text \<open>The hub takes the image: its model and customer match and its version differs.\<close>

definition hub_wants :: "platform \<Rightarrow> bytes \<Rightarrow> fsys \<Rightarrow> bool" where
  "hub_wants p customer fs \<longleftrightarrow>
    (\<exists>m c v. vi_config fs MODEL_FILE = Some m \<and> strncmp_eq m (DEFAULT_MODEL p) 4 \<and>
      vi_config fs CUSTOMER_FILE = Some c \<and> (customer = CUSTOMER_ALL \<or> customer = c) \<and>
      vi_config fs VERSION_FILE = Some v \<and> \<not> strncmp_eq v build_version (length build_version))"

lemma hub_wantsE:
  assumes "hub_wants p customer fs"
  obtains m c v where "vi_config fs MODEL_FILE = Some m" "strncmp_eq m (DEFAULT_MODEL p) 4"
    "vi_config fs CUSTOMER_FILE = Some c" "customer = CUSTOMER_ALL \<or> customer = c"
    "vi_config fs VERSION_FILE = Some v" "\<not> strncmp_eq v build_version (length build_version)"
  using assms unfolding hub_wants_def by (elim exE conjE) (rule that)

text \<open>The storage of the slot takes what the archive holds.\<close>

definition storage_fits :: "fwenv \<Rightarrow> slot \<Rightarrow> fsys \<Rightarrow> fsys \<Rightarrow> bool" where
  "storage_fits e sl unpacked fs \<longleftrightarrow>
    (\<forall>img. unpacked (ROOTFS_FILE (plat e)) = Some img \<longrightarrow>
      (\<exists>dev. fs (rootfsdev sl) = Some dev \<and> length img \<le> length dev)) \<and>
    (\<forall>img. plat e = imxdimagic \<and> unpacked (UBOOT_IMAGE imxdimagic) = Some img \<longrightarrow>
      length img mod 512 = 0 \<and> (\<exists>dev. fs BOOT_FLASH = Some dev \<and> 1024 \<le> length dev))"

definition up_files :: "string set" where
  "up_files = insert TMP_FILE vi_files"

lemma up_files_disjoint:
  "slot_ok sl \<Longrightarrow> q \<in> slot_files sl \<Longrightarrow> q \<notin> up_files"
  "MODEL_FILE \<notin> up_files" "CUSTOMER_FILE \<notin> up_files" "VERSION_FILE \<notin> up_files" "BOOT_FLASH \<notin> up_files"
  "INSTALL_LOCK_FILE \<notin> up_files" "ROOTFS_FILE p \<notin> up_files" "UBOOT_IMAGE p \<notin> up_files"
  "TMP_KERNEL1_DIR @ ''/bootindex'' \<notin> up_files" "TMP_KERNEL2_DIR @ ''/bootindex'' \<notin> up_files"
  by (auto simp: up_files_def vi_files_def slot_files_def slot_ok_def ROOTFS_FILE_def UBOOT_IMAGE_def split: platform.splits)

lemma up_files_frame:
  assumes "\<And>q. q \<notin> up_files \<Longrightarrow> fs' q = fs q"
  shows "hub_wants p customer fs' = hub_wants p customer fs"
    and "select_slot e fs' = select_slot e fs"
    and "slot_ok sl \<Longrightarrow> slot_holds e sl unpacked fs' = slot_holds e sl unpacked fs"
    and "slot_ok sl \<Longrightarrow> storage_fits e sl (fs' ++ ms) fs' = storage_fits e sl (fs ++ ms) fs"
proof -
  have "vi_config fs' q = vi_config fs q" if "q \<notin> up_files" for q
    using assms [OF that] by (simp add: vi_config_def)
  then show "hub_wants p customer fs' = hub_wants p customer fs"
    by (simp add: hub_wants_def up_files_disjoint)
  show "select_slot e fs' = select_slot e fs"
    using assms up_files_disjoint(9,10) unfolding select_slot_def bootindex_def by metis
  have slot: "fs' q = fs q" if "slot_ok sl" "q \<in> slot_files sl" for q
    using assms up_files_disjoint(1) [OF that] .
  show "slot_holds e sl unpacked fs' = slot_holds e sl unpacked fs" if "slot_ok sl"
    using slot [OF that] slot_paths [OF that, of "plat e"] by (simp add: slot_holds_def)
  have "(fs' ++ ms) q = (fs ++ ms) q" if "q \<notin> up_files" for q
    by (cases "ms q") (simp_all add: map_add_def assms that)
  then show "storage_fits e sl (fs' ++ ms) fs' = storage_fits e sl (fs ++ ms) fs" if "slot_ok sl"
    using slot [OF that in_slot_files(2)] assms up_files_disjoint by (simp add: storage_fits_def del: map_add_Some_iff)
qed

lemma hub_install_good:
  assumes "good_env e" "archive_ok e" "\<And>fs. sums_ok e fs" "untar e data = Some ms"
    and "files s INSTALL_LOCK_FILE = None" "files s FW_INSTALL_FILE = Some data"
    and "sl = select_slot e (files s)" "storage_fits e sl (files s ++ add_members ms Map.empty) (files s)"
  shows "\<exists>s'. hub_install e False FW_INSTALL_FILE s = (0, s') \<and> slot_holds e sl (add_members ms Map.empty) (files s')"
proof -
  have fits: "\<exists>dev. files s (rootfsdev sl) = Some dev \<and> length img \<le> length dev"
    if "(files s ++ add_members ms Map.empty) (ROOTFS_FILE (plat e)) = Some img" for img
    using assms(8) that by (simp add: storage_fits_def del: map_add_Some_iff)
  have boot: "length img mod 512 = 0 \<and> (\<exists>dev. files s BOOT_FLASH = Some dev \<and> 1024 \<le> length dev)"
    if "plat e = imxdimagic" "(files s ++ add_members ms Map.empty) (UBOOT_IMAGE imxdimagic) = Some img" for img
    using assms(8) that by (simp add: storage_fits_def del: map_add_Some_iff)
  have opts: "fw_options [] fw_defaults = Inr fw_defaults"
    by simp
  have path: "FW_INSTALL_FILE \<notin> {LED_MODE_FILE, INSTALL_LOCK_FILE}"
    by simp
  obtain s' where run: "fwinstall_main e [] (Some FW_INSTALL_FILE) s = (0, s')"
    using completes [OF assms(1,2) opts assms(5,6) path assms(4,3) refl assms(7) fits boot] by blast
  have "slot_holds e sl (add_members ms Map.empty) (files s')"
    using slot_installed [OF run opts _ assms(2,6) path assms(4,7) refl] by (simp add: fw_defaults_def)
  then show ?thesis
    using run by (simp add: hub_install_def)
qed

lemma release_installed:
  assumes "tools_ok t" "can_write t HEADER_SIGNED_FILE" "can_write t FW_ENCRYPT_FILE"
    and "build_image_main (plat e) t opts (Some path) fs = (0, fs1)" "fs path = Some data"
    and "bi_options opts \<lparr>modelarg = None, prefixarg = None, customerarg = None\<rparr> = Inr a"
    and "path \<notin> {''header.aes'', ''header.signed'', ''image.encrypted''}"
    and "validate_customer (customerarg a) = Some customer" "length customer < 16" "0 \<notin> set customer"
    and "\<And>fs. sh (fetch_cmd None url) fs =
      (0, fs(TMP_FILE := fs1 (build_output (case prefixarg a of None \<Rightarrow> ''hubOS'' | Some q \<Rightarrow> q))))"
    and "hub_wants (plat e) customer (files s)"
    and "good_env e" "archive_ok e" "\<And>fs. sums_ok e fs" "untar e data = Some ms"
    and "files s INSTALL_LOCK_FILE = None" "sl = select_slot e (files s)"
    and "storage_fits e sl (files s ++ add_members ms Map.empty) (files s)"
  shows "\<exists>s'. update_main t ck0 e sh [] (Some url) s = (0, 0, s') \<and> slot_holds e sl (add_members ms Map.empty) (files s')"
proof -
  let ?img = "fs1 (build_output (case prefixarg a of None \<Rightarrow> ''hubOS'' | Some q \<Rightarrow> q))"
  define hub where "hub = (files s)(FW_INSTALL_FILE := None, TMP_FILE := ?img)"
  have hub: "hub q = files s q" if "q \<notin> up_files" for q
    using that by (simp add: hub_def up_files_def vi_files_def)
  have "hub_wants (plat e) customer hub"
    using assms(12) up_files_frame(1) [of hub "files s"] hub by simp
  then obtain m c v where cfg: "vi_config hub MODEL_FILE = Some m" "strncmp_eq m (DEFAULT_MODEL (plat e)) 4"
      "vi_config hub CUSTOMER_FILE = Some c" "customer = CUSTOMER_ALL \<or> customer = c"
      "vi_config hub VERSION_FILE = Some v" "\<not> strncmp_eq v build_version (length build_version)"
    by (rule hub_wantsE)
  have tmp: "hub TMP_FILE = ?img" "TMP_FILE \<notin> vi_files"
    by (simp_all add: hub_def vi_files_def)
  obtain hub' where val: "validate_image_main t ck0 [] (Some TMP_FILE) hub = (0, hub')" "hub' FW_INSTALL_FILE = Some data"
    using round_trip [OF assms(1,4,6-10) tmp cfg assms(2,3)] assms(5) by metis
  have hub': "hub' q = files s q" if "q \<notin> up_files" for q
    using validate_frame [of q t ck0 "[]" "Some TMP_FILE" hub] val(1) hub [OF that] that by (simp add: up_files_def)
  have ok: "slot_ok sl"
    by (simp add: assms(18) select_slot_ok)
  let ?s = "s\<lparr>files := hub'\<rparr>"
  have sl: "sl = select_slot e (files ?s)" "storage_fits e sl (files ?s ++ add_members ms Map.empty) (files ?s)"
    using up_files_frame(2,4) [of hub' "files s"] hub' ok assms(18,19) by simp_all
  obtain s1 where inst: "hub_install e False FW_INSTALL_FILE ?s = (0, s1)" "slot_holds e sl (add_members ms Map.empty) (files s1)"
    using hub_install_good [OF assms(13-16) _ _ sl] val(2) hub' [OF up_files_disjoint(6)] assms(17) by auto
  have chk: "hub_check t ck0 False TMP_FILE hub = (0, hub')"
    using val(1) by (simp add: hub_check_def)
  have run: "update_main t ck0 e sh [] (Some url) s = up_finish e 0 3 (IRIS_getLedMode hub [] 128) s1"
    using assms(11) [of "(files s)(FW_INSTALL_FILE := None, TMP_FILE := None)"] val(2) inst(1)
    by (simp add: update_main_def up_run_def check_install_def chk wait_status_def up_ledDelay_def flip: hub_def)
  define s' where "s' = snd (snd (up_finish e 0 3 (IRIS_getLedMode hub [] 128) s1))"
  have fin: "up_finish e 0 3 (IRIS_getLedMode hub [] 128) s1 = (0, 0, s')"
    by (simp add: up_finish_def exit_status_def s'_def)
  have "files s' q = files s1 q" if "q \<notin> up_files" for q
    using up_finish_frame [OF _ fin, of q] that by (simp add: up_files_def vi_files_def)
  then have "slot_holds e sl (add_members ms Map.empty) (files s')"
    using up_files_frame(3) [of "files s'" "files s1", OF _ ok] inst(2) by blast
  then show ?thesis
    using run fin by simp
qed


section \<open>A release on a concrete hub\<close>

definition release_env :: fwenv where
  "release_env = sample_env\<lparr>untar := \<lambda>d. if d = [1, 2, 3] then Some sample_members else None\<rparr>"

definition release_state :: fwstate where
  "release_state = \<lparr>files = sample_hub None ++ files sample_state, commands = []\<rparr>"

definition release_shell :: "bytes option \<Rightarrow> shell" where
  "release_shell img cmd fs = (0, fs(TMP_FILE := img))"

lemma release_wants: "hub_wants imxdimagic (str ''IRIS'') (files release_state)"
proof -
  have "vi_config (files release_state) q = vi_config (sample_hub None) q" if "q \<in> {MODEL_FILE, CUSTOMER_FILE, VERSION_FILE}" for q
    using that by (auto simp: vi_config_def release_state_def sample_state_def map_add_def)
  then show ?thesis
    using sample_hub_config by (simp add: hub_wants_def DEFAULT_MODEL_def build_version_def strncmp_eq_def str_def)
qed

lemma release_slot: "select_slot release_env (files release_state) = \<lparr>bootdir = TMP_KERNEL2_DIR, rootfsdev = DEV_ROOTFS2, updateindex = 4\<rparr>"
  by code_simp

lemma release_fits:
  "storage_fits release_env \<lparr>bootdir = TMP_KERNEL2_DIR, rootfsdev = DEV_ROOTFS2, updateindex = 4\<rparr>
    (files release_state ++ add_members sample_members Map.empty) (files release_state)"
  by (simp add: storage_fits_def release_env_def sample_env_def release_state_def sample_state_def sample_members_def
      sample_hub_def ROOTFS_FILE_def UBOOT_IMAGE_def map_add_def)

lemma release_run:
  "\<exists>fs1. build_image_main imxdimagic sample_tools [] (Some ''fw.tgz'') sample_fw = (0, fs1) \<and>
    (\<exists>s'. update_main sample_tools [] release_env (release_shell (fs1 ''hubOS_3.0.1.029.bin'')) [] (Some ''http://h/x'') release_state = (0, 0, s') \<and>
      slot_holds release_env \<lparr>bootdir = TMP_KERNEL2_DIR, rootfsdev = DEV_ROOTFS2, updateindex = 4\<rparr> (add_members sample_members Map.empty) (files s'))"
proof -
  obtain fs1 where run: "build_image_main imxdimagic sample_tools [] (Some ''fw.tgz'') sample_fw = (0, fs1)"
    using sample_build by blast
  have plat: "plat release_env = imxdimagic"
    by (simp add: release_env_def sample_env_def)
  have "\<exists>s'. update_main sample_tools [] release_env (release_shell (fs1 ''hubOS_3.0.1.029.bin'')) [] (Some ''http://h/x'') release_state = (0, 0, s') \<and>
      slot_holds release_env \<lparr>bootdir = TMP_KERNEL2_DIR, rootfsdev = DEV_ROOTFS2, updateindex = 4\<rparr> (add_members sample_members Map.empty) (files s')"
    by (rule release_installed [OF sample_tools_ok, where customer = "str ''IRIS''" and data = "[1, 2, 3]" and
        a = "\<lparr>modelarg = None, prefixarg = None, customerarg = None\<rparr>",
        OF _ _ run [folded plat] _ _ _ _ _ _ _ release_wants [folded plat] _ _ _ _ _ release_slot [symmetric] release_fits])
      (simp_all add: sample_tools_def sample_fw_def validate_customer_def DEFAULT_CUSTOMER_def str_def release_shell_def build_output_def
        good_env_def archive_ok_def release_env_def sample_env_def sample_members_def release_state_def sample_hub_def sample_state_def)
  then show ?thesis
    using run by blast
qed


theorem only_trusted_images_installed_witness:
  "\<exists>fs1 img data. fs1 ''hubOS_3.0.1.029.bin'' = Some img \<and> accepted sample_tools (files release_state) img data \<and>
    build_image_main imxdimagic sample_tools [] (Some ''fw.tgz'') sample_fw = (0, fs1)"
proof -
  obtain fs1 s' where run: "build_image_main imxdimagic sample_tools [] (Some ''fw.tgz'') sample_fw = (0, fs1)"
    "update_main sample_tools [] release_env (release_shell (fs1 ''hubOS_3.0.1.029.bin'')) [] (Some ''http://h/x'') release_state = (0, 0, s')"
    "slot_holds release_env \<lparr>bootdir = TMP_KERNEL2_DIR, rootfsdev = DEV_ROOTFS2, updateindex = 4\<rparr> (add_members sample_members Map.empty) (files s')"
    using release_run by blast
  have "dec_str 4 = [52]"
    by code_simp
  then have index: "files s' ''/tmp/kernel2/bootindex'' \<noteq> files release_state ''/tmp/kernel2/bootindex''"
    using run(3) by (simp add: slot_holds_def release_state_def sample_state_def str_def)
  have path: "''/tmp/kernel2/bootindex'' \<notin> vi_files \<union> {TMP_FILE}"
    by (simp add: vi_files_def)
  have "\<exists>url cred img data. Some ''http://h/x'' = Some url \<and>
      snd (release_shell (fs1 ''hubOS_3.0.1.029.bin'') (fetch_cmd cred url)
        ((files release_state)(FW_INSTALL_FILE := None, TMP_FILE := None))) TMP_FILE = Some img \<and>
      accepted sample_tools (files release_state) img data"
    by (rule only_trusted_images_installed [OF run(2) sample_tools_ok _ path index]) (simp add: release_shell_def)
  then show ?thesis
    using run(1) by (auto simp: release_shell_def)
qed

text \<open>A download that is no image: the command still reports success.\<close>

theorem update_cleans_up_witness:
  "\<exists>d s'. update_main sample_tools [] release_env (release_shell (Some [7])) [UpForce] (Some ''http://h/x'') release_state = (0, d, s') \<and>
    files s' TMP_FILE = None \<and> files s' LED_MODE_FILE = Some []"
proof -
  let ?fs = "(files release_state)(FW_INSTALL_FILE := None, TMP_FILE := Some [7])"
  have "up_options [UpForce] \<lparr>up_force = False, up_kill = False, up_cred = None\<rparr> =
      Inr \<lparr>up_force = True, up_kill = False, up_cred = None\<rparr>"
    by simp
  moreover have "writable release_env LED_MODE_FILE"
    by (simp add: release_env_def sample_env_def)
  moreover have "IRIS_getLedMode ?fs [] 128 = []"
    by code_simp
  ultimately show ?thesis
    using update_cleans_up [of "[UpForce]" _ "release_shell (Some [7])" "''http://h/x''" release_state ?fs sample_tools "[]" release_env]
    by (auto simp: release_shell_def)
qed

end
