(* ===== verification/Leds.thy ===== *)
theory Leds
  imports IrisLib
begin

text \<open>
  The LED controller of the hub with separate LEDs, \<^verbatim>\<open>iris-utils/files/ledctrl.c\<close>, and the lookup of a
  mode by its name, which the controller of the LED ring shares. A mode is its number in the enumeration
  \<^verbatim>\<open>leds_mode_t\<close>, an index of the two tables; their last entries, for the unknown mode, are never selected and left out.
\<close>

section \<open>Looking up a mode\<close>

abbreviation (input) MAX_STATE_NAME_LENGTH :: nat where "MAX_STATE_NAME_LENGTH \<equiv> 24"

text \<open>The loop over the names: the index of the first match, or the number of names.\<close>

fun find_mode :: "string list \<Rightarrow> bytes \<Rightarrow> nat" where
  "find_mode [] arg = 0"
| "find_mode (name # names) arg =
    (if strncmp_eq arg (str name) MAX_STATE_NAME_LENGTH then 0 else Suc (find_mode names arg))"

definition strip_newline :: "bytes \<Rightarrow> bytes" where
  "strip_newline arg = (if arg \<noteq> [] \<and> last arg = 10 then butlast arg else arg)"

section \<open>Tables\<close>

datatype led_setting = LED_OFF | LED_ON | LED_0_5HZ | LED_1HZ | LED_2HZ

record led_state =
  green :: led_setting
  yellow :: led_setting
  red :: led_setting

definition led_states :: "led_state list" where
  "led_states =
    [
     \<lparr>green = LED_1HZ, yellow = LED_1HZ, red = LED_1HZ\<rparr>,
     \<lparr>green = LED_1HZ, yellow = LED_1HZ, red = LED_OFF\<rparr>,
     \<lparr>green = LED_1HZ, yellow = LED_OFF, red = LED_OFF\<rparr>,
     \<lparr>green = LED_0_5HZ, yellow = LED_OFF, red = LED_OFF\<rparr>,
     \<lparr>green = LED_0_5HZ, yellow = LED_0_5HZ, red = LED_OFF\<rparr>,
     \<lparr>green = LED_0_5HZ, yellow = LED_ON, red = LED_OFF\<rparr>,
     \<lparr>green = LED_0_5HZ, yellow = LED_0_5HZ, red = LED_OFF\<rparr>,
     \<lparr>green = LED_0_5HZ, yellow = LED_OFF, red = LED_1HZ\<rparr>,
     \<lparr>green = LED_0_5HZ, yellow = LED_0_5HZ, red = LED_1HZ\<rparr>,
     \<lparr>green = LED_ON, yellow = LED_OFF, red = LED_OFF\<rparr>,
     \<lparr>green = LED_ON, yellow = LED_0_5HZ, red = LED_OFF\<rparr>,
     \<lparr>green = LED_ON, yellow = LED_ON, red = LED_OFF\<rparr>,
     \<lparr>green = LED_ON, yellow = LED_0_5HZ, red = LED_OFF\<rparr>,
     \<lparr>green = LED_ON, yellow = LED_OFF, red = LED_1HZ\<rparr>,
     \<lparr>green = LED_ON, yellow = LED_0_5HZ, red = LED_1HZ\<rparr>,
     \<lparr>green = LED_1HZ, yellow = LED_OFF, red = LED_OFF\<rparr>,
     \<lparr>green = LED_1HZ, yellow = LED_0_5HZ, red = LED_OFF\<rparr>,
     \<lparr>green = LED_1HZ, yellow = LED_ON, red = LED_OFF\<rparr>,
     \<lparr>green = LED_1HZ, yellow = LED_0_5HZ, red = LED_OFF\<rparr>,
     \<lparr>green = LED_1HZ, yellow = LED_OFF, red = LED_1HZ\<rparr>,
     \<lparr>green = LED_1HZ, yellow = LED_0_5HZ, red = LED_1HZ\<rparr>,
     \<lparr>green = LED_OFF, yellow = LED_2HZ, red = LED_OFF\<rparr>,
     \<lparr>green = LED_OFF, yellow = LED_2HZ, red = LED_ON\<rparr>,
     \<lparr>green = LED_OFF, yellow = LED_2HZ, red = LED_OFF\<rparr>,
     \<lparr>green = LED_OFF, yellow = LED_2HZ, red = LED_ON\<rparr>,
     \<lparr>green = LED_OFF, yellow = LED_OFF, red = LED_2HZ\<rparr>,
     \<lparr>green = LED_OFF, yellow = LED_OFF, red = LED_ON\<rparr>,
     \<lparr>green = LED_OFF, yellow = LED_OFF, red = LED_2HZ\<rparr>,
     \<lparr>green = LED_OFF, yellow = LED_1HZ, red = LED_ON\<rparr>,
     \<lparr>green = LED_OFF, yellow = LED_OFF, red = LED_2HZ\<rparr>,
     \<lparr>green = LED_1HZ, yellow = LED_1HZ, red = LED_ON\<rparr>,
     \<lparr>green = LED_2HZ, yellow = LED_OFF, red = LED_OFF\<rparr>,
     \<lparr>green = LED_2HZ, yellow = LED_OFF, red = LED_ON\<rparr>,
     \<lparr>green = LED_2HZ, yellow = LED_OFF, red = LED_OFF\<rparr>,
     \<lparr>green = LED_2HZ, yellow = LED_OFF, red = LED_ON\<rparr>,
     \<lparr>green = LED_2HZ, yellow = LED_OFF, red = LED_OFF\<rparr>,
     \<lparr>green = LED_2HZ, yellow = LED_OFF, red = LED_ON\<rparr>,
     \<lparr>green = LED_ON, yellow = LED_ON, red = LED_ON\<rparr>,
     \<lparr>green = LED_OFF, yellow = LED_OFF, red = LED_ON\<rparr>,
     \<lparr>green = LED_OFF, yellow = LED_ON, red = LED_ON\<rparr>,
     \<lparr>green = LED_ON, yellow = LED_ON, red = LED_ON\<rparr>,
     \<lparr>green = LED_ON, yellow = LED_ON, red = LED_ON\<rparr>,
     \<lparr>green = LED_OFF, yellow = LED_OFF, red = LED_OFF\<rparr>]"

definition led_names :: "string list" where
  "led_names =
    [
     ''boot-post'', ''boot-linux'', ''boot-agent'', ''unassoc-conn-pri'', ''unassoc-conn-pri-batt'',
     ''unassoc-conn-backup'', ''unassoc-conn-backup-batt'', ''unassoc-disconn'', ''unassoc-disconn-batt'',
     ''assoc-conn-pri'', ''assoc-conn-pri-batt'', ''assoc-conn-backup'', ''assoc-conn-backup-batt'',
     ''assoc-disconn'', ''assoc-disconn-batt'', ''pairing-conn-pri'', ''pairing-conn-pri-batt'',
     ''pairing-conn-backup'', ''pairing-conn-backup-batt'', ''pairing-disconn'', ''pairing-disconn-batt'',
     ''upgrade-decrypt'', ''upgrade-decrypt-err'', ''upgrade-unpack'', ''upgrade-unpack-err'',
     ''upgrade-bootloader'', ''upgrade-bootloader-err'', ''upgrade-kernel'', ''upgrade-kernel-err'',
     ''upgrade-rootfs'', ''upgrade-rootfs-err'', ''upgrade-zigbee'', ''upgrade-zigbee-err'',
     ''upgrade-zwave'', ''upgrade-zwave-err'', ''upgrade-bte'', ''upgrade-bte-err'', ''shutdown'',
     ''button-reboot'', ''button-soft-reset'', ''button-factory-default'', ''all-on'', ''all-off'']"

section \<open>Setting the LEDs\<close>

text \<open>\<open>can_open\<close> says which files of the LED driver can be written; the result is the list of the
  values written, in order.\<close>

definition sysfs :: "string \<Rightarrow> string \<Rightarrow> string" where
  "sysfs colour attr = ''/sys/class/leds/'' @ colour @ ''/'' @ attr"

definition write_if :: "(string \<Rightarrow> bool) \<Rightarrow> string \<Rightarrow> string \<Rightarrow> (string \<times> string) list" where
  "write_if can_open path v = (if can_open path then [(path, v)] else [])"

definition led_delay :: "led_setting \<Rightarrow> string option" where
  "led_delay s = (case s of LED_0_5HZ \<Rightarrow> Some ''1000'' | LED_1HZ \<Rightarrow> Some ''500'' | LED_2HZ \<Rightarrow> Some ''250'' | _ \<Rightarrow> None)"

definition set_one_led :: "(string \<Rightarrow> bool) \<Rightarrow> string \<Rightarrow> led_setting \<Rightarrow> (string \<times> string) list" where
  "set_one_led can_open colour s =
    write_if can_open (sysfs colour ''brightness'') ''0'' @
    (if s = LED_OFF then []
     else write_if can_open (sysfs colour ''brightness'') ''255'' @
       write_if can_open (sysfs colour ''trigger'') (if led_delay s = None then ''default-on'' else ''timer'') @
       (case led_delay s of
          None \<Rightarrow> []
        | Some d \<Rightarrow> write_if can_open (sysfs colour ''delay_on'') d @ write_if can_open (sysfs colour ''delay_off'') d))"

definition ledctrl_main :: "(string \<Rightarrow> bool) \<Rightarrow> bytes list \<Rightarrow> nat \<times> (string \<times> string) list" where
  "ledctrl_main can_open args =
    (case args of
       [arg] \<Rightarrow>
         (let i = find_mode led_names (strip_newline arg) in
          if i = length led_names then (1, [])
          else (0, set_one_led can_open ''green'' (green (led_states ! i)) @
                   set_one_led can_open ''yellow'' (yellow (led_states ! i)) @
                   set_one_led can_open ''red'' (red (led_states ! i))))
     | _ \<Rightarrow> (1, []))"

section \<open>Names and modes\<close>

lemma of_char_u8_eq: "(of_char c :: u8) = of_char d \<longleftrightarrow> c = d"
proof
  assume "(of_char c :: u8) = of_char d"
  then have "unat (of_nat (of_char c) :: u8) = unat (of_nat (of_char d) :: u8)"
    by (simp add: of_nat_of_char)
  then show "c = d"
    using nat_of_char_less_256 [of c] nat_of_char_less_256 [of d] by (simp add: unat_of_nat)
qed simp

lemma str_append: "str (a @ b) = str a @ str b"
  by (simp add: str_def)

lemma str_eq [simp]: "str a = str b \<longleftrightarrow> a = b"
  using inj_map_eq_map [OF injI, of "of_char :: char \<Rightarrow> u8"] by (simp add: str_def of_char_u8_eq)

text \<open>The part of a name that is compared.\<close>

definition name_key :: "string \<Rightarrow> string" where
  "name_key name = take MAX_STATE_NAME_LENGTH (name @ [CHR 0x00])"

lemma strncmp_str: "strncmp_eq (str a) (str b) MAX_STATE_NAME_LENGTH \<longleftrightarrow> name_key a = name_key b"
proof -
  have "take n (str a @ [0]) = str (take n (a @ [CHR 0x00]))" for n a
    by (simp add: str_def take_map take_Cons')
  then show ?thesis
    by (simp add: strncmp_eq_def name_key_def del: take_append)
qed

text \<open>What a table of names promises: the names differ within the characters that are compared. Then
  every name selects its own mode, and no other.\<close>

locale led_table =
  fixes names :: "string list"
  assumes keys_distinct: "distinct (map name_key names)"
begin

lemma find_mode_name:
  assumes "i < length names"
  shows "find_mode names (str (names ! i)) = i"
proof -
  have "find_mode ns (str (ns ! i)) = i" if "distinct (map name_key ns)" "i < length ns" for ns
    using that
  proof (induction ns arbitrary: i)
    case (Cons n ns)
    then show ?case
      by (cases i) (auto simp: strncmp_str dest: nth_mem intro: rev_image_eqI)
  qed simp
  then show ?thesis
    using keys_distinct assms by blast
qed

lemma find_mode_other:
  assumes "name_key a \<notin> name_key ` set names"
  shows "find_mode names (str a) = length names"
proof -
  have "find_mode ns (str a) = length ns" if "name_key a \<notin> name_key ` set ns" for ns
    using that by (induction ns) (auto simp: strncmp_str)
  then show ?thesis
    using assms by blast
qed

end

interpretation leds: led_table led_names
  by unfold_locales code_simp

lemma strip_newline_name: "a \<noteq> [] \<Longrightarrow> strip_newline (str a @ [10]) = str a"
  by (simp add: strip_newline_def)

lemma strip_newline_none: "CHR 0x0A \<notin> set a \<Longrightarrow> strip_newline (str a) = str a"
proof -
  assume a: "CHR 0x0A \<notin> set a"
  have "str a \<noteq> [] \<Longrightarrow> last (str a) \<noteq> 10"
  proof
    assume ne: "str a \<noteq> []" and "last (str a) = 10"
    then have "of_char (last a) = (of_char (CHR 0x0A) :: u8)"
      by (simp add: str_def last_map)
    then have "last a = CHR 0x0A"
      by (simp only: of_char_u8_eq)
    then show False
      using a ne last_in_set [of a] by (simp add: str_def)
  qed
  then show ?thesis by (auto simp: strip_newline_def)
qed

lemma led_names_plain: "list_all (\<lambda>n. n \<noteq> [] \<and> CHR 0x0A \<notin> set n) led_names"
  by code_simp

lemma led_tables_agree: "length led_states = length led_names"
  by code_simp



end
