(* ===== verification/Ring.thy ===== *)
theory Ring
  imports Leds "HOL-Library.Signed_Division"
begin

text \<open>
  The LED ring of the v3 hub: the selection of a mode, \<^verbatim>\<open>iris-utils/files/ringctrl.c\<close>, and the program
  that drives the ring, \<^verbatim>\<open>ledRing.c\<close>.
\<close>

section \<open>Modes of the ring\<close>

text \<open>The constants of the enumeration the code names.\<close>

abbreviation (input) BOOT_POST :: nat where "BOOT_POST \<equiv> 0"
abbreviation (input) BOOT_LINUX :: nat where "BOOT_LINUX \<equiv> 1"
abbreviation (input) SHUTDOWN :: nat where "SHUTDOWN \<equiv> 37"
abbreviation (input) BUTTON_REBOOT :: nat where "BUTTON_REBOOT \<equiv> 38"
abbreviation (input) BUTTON_SOFT_RESET :: nat where "BUTTON_SOFT_RESET \<equiv> 39"
abbreviation (input) BUTTON_FACTORY_DEFAULT :: nat where "BUTTON_FACTORY_DEFAULT \<equiv> 40"
abbreviation (input) FACTORY_RESET_ACK :: nat where "FACTORY_RESET_ACK \<equiv> 69"
abbreviation (input) TURNING_OFF :: nat where "TURNING_OFF \<equiv> 70"

abbreviation (input) COLOR_OFF :: nat where "COLOR_OFF \<equiv> 0x000000"
abbreviation (input) COLOR_WHITE :: nat where "COLOR_WHITE \<equiv> 0x402010"
abbreviation (input) COLOR_RED :: nat where "COLOR_RED \<equiv> 0x640000"
abbreviation (input) COLOR_GREEN :: nat where "COLOR_GREEN \<equiv> 0x006400"
abbreviation (input) COLOR_BLUE :: nat where "COLOR_BLUE \<equiv> 0x000064"
abbreviation (input) COLOR_BLUE_TICK :: nat where "COLOR_BLUE_TICK \<equiv> 0x000030"
abbreviation (input) COLOR_PURPLE :: nat where "COLOR_PURPLE \<equiv> 0x640064"
abbreviation (input) COLOR_PINK :: nat where "COLOR_PINK \<equiv> 0x64000A"
abbreviation (input) COLOR_TEAL :: nat where "COLOR_TEAL \<equiv> 0x006432"
abbreviation (input) COLOR_YELLOW :: nat where "COLOR_YELLOW \<equiv> 0x401800"

abbreviation (input) RING_OFF :: nat where "RING_OFF \<equiv> 0"
abbreviation (input) RING_BLINK_ONCE_SHORT :: nat where "RING_BLINK_ONCE_SHORT \<equiv> 1"
abbreviation (input) RING_BLINK_ONCE_LONG :: nat where "RING_BLINK_ONCE_LONG \<equiv> 2"
abbreviation (input) RING_BLINK_SLOW :: nat where "RING_BLINK_SLOW \<equiv> 3"
abbreviation (input) RING_BLINK_FAST :: nat where "RING_BLINK_FAST \<equiv> 4"
abbreviation (input) RING_BLINK_TRIPLE :: nat where "RING_BLINK_TRIPLE \<equiv> 5"
abbreviation (input) RING_SOLID :: nat where "RING_SOLID \<equiv> 6"
abbreviation (input) RING_ROTATE_SLOW :: nat where "RING_ROTATE_SLOW \<equiv> 7"
abbreviation (input) RING_ROTATE_FAST :: nat where "RING_ROTATE_FAST \<equiv> 8"
abbreviation (input) RING_PULSE :: nat where "RING_PULSE \<equiv> 9"
abbreviation (input) RING_WAVE :: nat where "RING_WAVE \<equiv> 10"
abbreviation (input) RING_TICK_DOWN :: nat where "RING_TICK_DOWN \<equiv> 11"
abbreviation (input) RING_TICK_UP :: nat where "RING_TICK_UP \<equiv> 12"

text \<open>Colour, operation mode and duration of each mode, and its name.\<close>

definition ring_states :: "(nat \<times> nat \<times> int) list" where
  "ring_states =
    [
     (COLOR_PURPLE, RING_SOLID, 0), (COLOR_PURPLE, RING_SOLID, 0), (COLOR_PURPLE, RING_ROTATE_SLOW, 0),
     (COLOR_OFF, RING_OFF, 0), (COLOR_OFF, RING_OFF, 0), (COLOR_OFF, RING_OFF, 0), (COLOR_OFF, RING_OFF, 0),
     (COLOR_OFF, RING_OFF, 0), (COLOR_OFF, RING_OFF, 0), (COLOR_OFF, RING_OFF, 0), (COLOR_OFF, RING_OFF, 0),
     (COLOR_OFF, RING_OFF, 0), (COLOR_OFF, RING_OFF, 0), (COLOR_OFF, RING_OFF, 0), (COLOR_OFF, RING_OFF, 0),
     (COLOR_GREEN, RING_ROTATE_SLOW, 0), (COLOR_GREEN, RING_ROTATE_SLOW, 0),
     (COLOR_GREEN, RING_ROTATE_SLOW, 0), (COLOR_GREEN, RING_ROTATE_SLOW, 0), (COLOR_BLUE, RING_PULSE, 0),
     (COLOR_BLUE, RING_PULSE, 0), (COLOR_WHITE, RING_ROTATE_SLOW, 10), (COLOR_RED, RING_SOLID, 0),
     (COLOR_WHITE, RING_ROTATE_SLOW, 10), (COLOR_RED, RING_SOLID, 0), (COLOR_WHITE, RING_ROTATE_SLOW, 10),
     (COLOR_RED, RING_SOLID, 0), (COLOR_WHITE, RING_ROTATE_SLOW, 10), (COLOR_RED, RING_SOLID, 0),
     (COLOR_WHITE, RING_ROTATE_SLOW, 10), (COLOR_RED, RING_SOLID, 0), (COLOR_WHITE, RING_ROTATE_SLOW, 10),
     (COLOR_RED, RING_SOLID, 0), (COLOR_WHITE, RING_ROTATE_SLOW, 10), (COLOR_RED, RING_SOLID, 0),
     (COLOR_WHITE, RING_ROTATE_SLOW, 10), (COLOR_RED, RING_SOLID, 0), (COLOR_GREEN, RING_SOLID, 5),
     (COLOR_GREEN, RING_SOLID, 5), (COLOR_GREEN, RING_SOLID, 5), (COLOR_PINK, RING_SOLID, 15),
     (COLOR_WHITE, RING_OFF, 0), (COLOR_OFF, RING_SOLID, 0), (COLOR_BLUE, RING_ROTATE_SLOW, 0),
     (COLOR_BLUE, RING_ROTATE_SLOW, 0), (COLOR_BLUE, RING_ROTATE_SLOW, 120),
     (COLOR_BLUE, RING_ROTATE_SLOW, 0), (COLOR_PINK, RING_ROTATE_SLOW, 0),
     (COLOR_BLUE, RING_ROTATE_SLOW, 60), (COLOR_BLUE, RING_ROTATE_SLOW, 0), (COLOR_PINK, RING_SOLID, 0),
     (COLOR_BLUE, RING_ROTATE_SLOW, 60), (COLOR_BLUE, RING_SOLID, 0), (COLOR_PINK, RING_PULSE, 0),
     (COLOR_BLUE, RING_SOLID, 60), (COLOR_GREEN, RING_BLINK_TRIPLE, 0), (COLOR_PINK, RING_PULSE, 0),
     (COLOR_GREEN, RING_BLINK_TRIPLE, 0), (COLOR_GREEN, RING_BLINK_ONCE_LONG, 0),
     (COLOR_GREEN, RING_SOLID, 5), (COLOR_GREEN, RING_SOLID, 5), (COLOR_YELLOW, RING_SOLID, 5),
     (COLOR_PINK, RING_SOLID, 5), (COLOR_RED, RING_SOLID, 5), (COLOR_YELLOW, RING_SOLID, 5),
     (COLOR_PINK, RING_SOLID, 5), (COLOR_PINK, RING_SOLID, 5), (COLOR_GREEN, RING_SOLID, 5),
     (COLOR_GREEN, RING_SOLID, 10), (COLOR_GREEN, RING_SOLID, 15), (COLOR_GREEN, RING_SOLID, 5),
     (COLOR_BLUE_TICK, RING_TICK_DOWN, 0), (COLOR_BLUE_TICK, RING_TICK_DOWN, 0),
     (COLOR_GREEN, RING_BLINK_ONCE_LONG, 0), (COLOR_BLUE, RING_BLINK_ONCE_LONG, 0),
     (COLOR_BLUE, RING_BLINK_ONCE_LONG, 0), (COLOR_PINK, RING_SOLID, 5), (COLOR_BLUE, RING_PULSE, 0),
     (COLOR_BLUE, RING_PULSE, 120), (COLOR_BLUE, RING_PULSE, 0), (COLOR_BLUE, RING_PULSE, 120),
     (COLOR_WHITE, RING_PULSE, 0), (COLOR_WHITE, RING_PULSE, 120), (COLOR_WHITE, RING_PULSE, 0),
     (COLOR_WHITE, RING_PULSE, 120), (COLOR_WHITE, RING_PULSE, 0), (COLOR_WHITE, RING_PULSE, 120),
     (COLOR_RED, RING_PULSE, 0), (COLOR_RED, RING_PULSE, 120), (COLOR_RED, RING_PULSE, 0),
     (COLOR_RED, RING_PULSE, 120), (COLOR_TEAL, RING_PULSE, 0), (COLOR_TEAL, RING_PULSE, 120),
     (COLOR_PURPLE, RING_WAVE, 0), (COLOR_PURPLE, RING_WAVE, 120), (COLOR_PURPLE, RING_BLINK_ONCE_LONG, 0)]"

definition ring_names :: "string list" where
  "ring_names =
    [
     ''boot-post'', ''boot-linux'', ''boot-agent'', ''unassoc-conn-pri'', ''unassoc-conn-pri-batt'',
     ''unassoc-conn-backup'', ''unassoc-conn-backup-batt'', ''unassoc-disconn'', ''unassoc-disconn-batt'',
     ''assoc-conn-pri'', ''assoc-conn-pri-batt'', ''assoc-conn-backup'', ''assoc-conn-backup-batt'',
     ''assoc-disconn'', ''assoc-disconn-batt'', ''pairing-conn-pri'', ''pairing-conn-pri-batt'',
     ''pairing-conn-backup'', ''pairing-conn-backup-batt'', ''pairing-disconn'', ''pairing-disconn-batt'',
     ''upgrade-decrypt'', ''upgrade-decrypt-err'', ''upgrade-unpack'', ''upgrade-unpack-err'',
     ''upgrade-bootloader'', ''upgrade-bootloader-err'', ''upgrade-kernel'', ''upgrade-kernel-err'',
     ''upgrade-rootfs'', ''upgrade-rootfs-err'', ''upgrade-zigbee'', ''upgrade-zigbee-err'',
     ''upgrade-zwave'', ''upgrade-zwave-err'', ''upgrade-bte'', ''upgrade-bte-err'', ''shutdown'',
     ''button-reboot'', ''button-soft-reset'', ''button-factory-default'', ''all-on'', ''all-off'',
     ''first-bootup'', ''ethernet-inserted'', ''wifi-in-progress'', ''wifi-success'', ''wifi-failure'',
     ''internet-in-progress'', ''internet-success'', ''internet-failure'', ''cloud-in-progress'',
     ''cloud-success'', ''cloud-failure'', ''register-in-progress'', ''register-success'',
     ''register-failure'', ''device-paired'', ''device-removed'', ''button-press-normal'',
     ''button-press-status'', ''button-press-battery'', ''button-press-offline'', ''button-press-backup'',
     ''button-press-backup-batt'', ''button-press-offline-batt'', ''button-press-backup-offline'',
     ''button-press-wifi-reconnect'', ''deregistering'', ''factory-reset-ack'', ''turning-off'',
     ''alarm-grace-enter'', ''alarm-grace-exit'', ''alarm-off'', ''alarm-on'', ''alarm-partial'',
     ''alarm-failure'', ''alarming-security'', ''alarming-security-batt'', ''alarming-local'',
     ''alarming-local-batt'', ''alarming-panic'', ''alarming-panic-batt'', ''alarming-panic-mon'',
     ''alarming-panic-mon-batt'', ''alarming-panic-local'', ''alarming-panic-local-batt'',
     ''alarming-smoke'', ''alarming-smoke-batt'', ''alarming-co'', ''alarming-co-batt'', ''alarming-leak'',
     ''alarming-leak-batt'', ''alarming-care'', ''alarming-care-batt'', ''door-chime'']"

section \<open>Selecting a mode\<close>

abbreviation (input) LAST_LED_MODE_FILE :: string where "LAST_LED_MODE_FILE \<equiv> ''/tmp/lastLedMode''"

text \<open>The commands the controller runs: the running animation is killed, a new one is started with a
  colour, a mode and a duration (0: none given).\<close>

datatype ring_cmd = KillRing | RunRing nat nat int

definition ring_lastMode :: "fsys \<Rightarrow> int" where
  "ring_lastMode fs = (case Option.bind (fs LAST_LED_MODE_FILE) scan_int of None \<Rightarrow> int BOOT_POST | Some v \<Rightarrow> v)"

definition ring_blocked :: "nat \<Rightarrow> int \<Rightarrow> bool" where
  "ring_blocked i lastMode \<longleftrightarrow>
    lastMode = int TURNING_OFF \<or>
    i \<noteq> BOOT_LINUX \<and> lastMode = int SHUTDOWN \<or>
    i \<noteq> SHUTDOWN \<and> i \<noteq> BUTTON_SOFT_RESET \<and> lastMode = int BUTTON_REBOOT \<or>
    i \<noteq> SHUTDOWN \<and> i \<noteq> BUTTON_FACTORY_DEFAULT \<and> lastMode = int BUTTON_SOFT_RESET \<or>
    i \<noteq> SHUTDOWN \<and> (lastMode = int BUTTON_FACTORY_DEFAULT \<or> lastMode = int FACTORY_RESET_ACK)"

text \<open>Exit code, files and commands of a call; an argument that is not a mode prints the usage.\<close>

definition ring_set :: "(string \<Rightarrow> bool) \<Rightarrow> nat \<Rightarrow> int \<Rightarrow> fsys \<Rightarrow> fsys \<times> ring_cmd list" where
  "ring_set can_write i duration fs =
    (let (color, mode, dur) = ring_states ! i in
     if mode = RING_OFF then (fs, [])
     else (if can_write LAST_LED_MODE_FILE then fs(LAST_LED_MODE_FILE \<mapsto> dec_str (int i)) else fs,
           [KillRing, RunRing color mode (if duration = 0 then dur else duration)]))"

definition ringctrl_main :: "(string \<Rightarrow> bool) \<Rightarrow> bytes list \<Rightarrow> fsys \<Rightarrow> nat \<times> fsys \<times> ring_cmd list" where
  "ringctrl_main can_write args fs =
    (case args of
       [] \<Rightarrow> (1, fs, [])
     | arg # rest \<Rightarrow>
         (let i = find_mode ring_names (strip_newline arg);
              duration = (case rest of [d] \<Rightarrow> atoi d | _ \<Rightarrow> 0) in
          if i = length ring_names then (1, fs, [])
          else if ring_blocked i (ring_lastMode fs) then (0, fs, [])
          else (0, ring_set can_write i duration fs)))"

section \<open>Driving the ring\<close>

text \<open>A frame is the list of values sent to the driver: a header of three values, then blue, red and green
  of each LED. Colours are percentages, packed as red, green and blue.\<close>


abbreviation (input) MIN_IND_LED_VER :: int where "MIN_IND_LED_VER \<equiv> 2"
abbreviation (input) ALL_LEDS :: nat where "ALL_LEDS \<equiv> 0xFF"
abbreviation (input) LEDS_OFF :: nat where "LEDS_OFF \<equiv> 0x000000"
abbreviation (input) TOTAL_LEDS :: nat where "TOTAL_LEDS \<equiv> 12"
abbreviation (input) TOTAL_QUADS :: nat where "TOTAL_QUADS \<equiv> 4"

type_synonym frame = "nat list"

definition red_of :: "nat \<Rightarrow> nat" where "red_of color = drop_bit 16 (color AND 0xFF0000)"
definition green_of :: "nat \<Rightarrow> nat" where "green_of color = drop_bit 8 (color AND 0x00FF00)"
definition blue_of :: "nat \<Rightarrow> nat" where "blue_of color = color AND 0x0000FF"

definition pack_color :: "nat \<Rightarrow> nat \<Rightarrow> nat \<Rightarrow> nat" where
  "pack_color r g b = push_bit 16 r OR push_bit 8 g OR b"

definition frame_v1 :: frame where "frame_v1 = [0xFC00, 0xFC00, 0x0000] @ replicate 12 0"
definition frame_v2 :: frame where "frame_v2 = [0xFC00, 0xFC02, 0x9002] @ replicate 36 0"

text \<open>One LED of a frame, at the brightness of the colour divided by \<open>scale\<close>.\<close>

definition put_led :: "nat \<Rightarrow> nat \<Rightarrow> nat \<Rightarrow> frame \<Rightarrow> frame" where
  "put_led scale color i fr =
    fr[i * 3 + 3 := blue_of color * 0xFFFF div scale,
       i * 3 + 4 := red_of color * 0xFFFF div scale,
       i * 3 + 5 := green_of color * 0xFFFF div scale]"

definition writeRing :: "int \<Rightarrow> nat \<Rightarrow> nat \<Rightarrow> frame" where
  "writeRing hwVer color which =
    (if hwVer \<ge> MIN_IND_LED_VER then
       if which > 0 \<and> which \<le> TOTAL_LEDS then put_led 100 color (which - 1) frame_v2
       else if which = ALL_LEDS then fold (put_led 100 color) [0..<TOTAL_LEDS] frame_v2
       else frame_v2
     else
       if which > 0 \<and> which \<le> TOTAL_QUADS then put_led 100 color (which - 1) frame_v1
       else if which = ALL_LEDS then fold (put_led 100 color) [0..<TOTAL_QUADS] frame_v1
       else frame_v1)"

definition writeTail :: "nat \<Rightarrow> nat \<Rightarrow> frame" where
  "writeTail color which =
    (if which > 0 \<and> which \<le> TOTAL_LEDS then
       put_led 200 color (if which = TOTAL_LEDS then 1 else which)
         (put_led 200 color (if which = 1 then 11 else which - 2)
           (put_led 100 color (which - 1) frame_v2))
     else frame_v2)"

definition writeSegments :: "nat \<Rightarrow> nat \<Rightarrow> bool \<Rightarrow> frame" where
  "writeSegments color which onOff =
    (if onOff then fold (\<lambda>index. put_led 100 color (TOTAL_LEDS - index)) [1..<which + 1] frame_v2
     else fold (\<lambda>index. put_led 100 color (TOTAL_LEDS - index)) [which..<TOTAL_LEDS + 1] frame_v2)"

text \<open>What the program does, in order: frames sent, waits in microseconds, and the mode of the LEDs set.\<close>

datatype ring_out = SendFrame frame | Wait int | LedMode string

definition ringOff :: "int \<Rightarrow> ring_out list" where
  "ringOff hwVer = [SendFrame (writeRing hwVer LEDS_OFF ALL_LEDS), LedMode ''all-off'']"

subsection \<open>Options\<close>

text \<open>An option with the number its argument was read as.\<close>

datatype ring_opt = OptH | OptR int | OptG int | OptB int | OptD int | OptC int | OptM int | OptBad

record ring_args =
  ra_r :: int
  ra_g :: int
  ra_b :: int
  ra_m :: int
  ra_d :: int
  ra_end :: int

definition ring_defaults :: ring_args where
  "ring_defaults = \<lparr>ra_r = 100, ra_g = 100, ra_b = 100, ra_m = 6, ra_d = 0, ra_end = 0\<rparr>"

text \<open>The exit code, or the settings; \<open>now\<close> is the time at which the options are read.\<close>

fun ring_options :: "int \<Rightarrow> ring_opt list \<Rightarrow> ring_args \<Rightarrow> nat + ring_args" where
  "ring_options now [] a = Inr a"
| "ring_options now (OptH # os) a = Inl 0"
| "ring_options now (OptR v # os) a = ring_options now os (a\<lparr>ra_r := v\<rparr>)"
| "ring_options now (OptG v # os) a = ring_options now os (a\<lparr>ra_g := v\<rparr>)"
| "ring_options now (OptB v # os) a = ring_options now os (a\<lparr>ra_b := v\<rparr>)"
| "ring_options now (OptD v # os) a =
    ring_options now os (if v > 0 then a\<lparr>ra_d := v, ra_end := now + v\<rparr> else a\<lparr>ra_d := v\<rparr>)"
| "ring_options now (OptC v # os) a =
    ring_options now os (a\<lparr>ra_r := drop_bit 16 (v AND 0x00FF0000), ra_g := drop_bit 8 (v AND 0x0000FF00),
                           ra_b := v AND 0x000000FF\<rparr>)"
| "ring_options now (OptM v # os) a =
    (if v < 1 \<or> v > 12 then Inl 1 else ring_options now os (a\<lparr>ra_m := v\<rparr>))"
| "ring_options now (OptBad # os) a = Inl 1"

definition percent :: "int \<Rightarrow> nat" where
  "percent v = (if v < 0 then 0 else if v > 100 then 100 else nat v)"

subsection \<open>Modes\<close>

definition one_shot :: "nat \<Rightarrow> bool" where
  "one_shot m \<longleftrightarrow> m \<in> {RING_BLINK_ONCE_SHORT, RING_BLINK_ONCE_LONG, RING_BLINK_TRIPLE}"

definition run_once :: "int \<Rightarrow> nat \<Rightarrow> nat \<Rightarrow> ring_out list" where
  "run_once hwVer color m =
    (let on = SendFrame (writeRing hwVer color ALL_LEDS); off = SendFrame (writeRing hwVer LEDS_OFF ALL_LEDS) in
     if m = RING_BLINK_ONCE_SHORT then [off, on, Wait 300000] @ ringOff hwVer
     else if m = RING_BLINK_ONCE_LONG then [off, on, Wait 2000000] @ ringOff hwVer
     else [off, Wait 500000, on, Wait 300000, off, Wait 300000, on, Wait 300000, off, Wait 300000,
           on, Wait 300000, off, Wait 500000] @ ringOff hwVer)"

definition rotate_round :: "int \<Rightarrow> nat \<Rightarrow> int \<Rightarrow> int \<Rightarrow> ring_out list" where
  "rotate_round hwVer color single quad =
    (if hwVer \<ge> MIN_IND_LED_VER then
       concat (map (\<lambda>i. [SendFrame (writeTail color i), Wait single]) (rev [1..<TOTAL_LEDS + 1]))
     else concat (map (\<lambda>i. [SendFrame (writeRing hwVer color i), Wait quad]) [1..<TOTAL_QUADS + 1]))"

definition pulse_steps :: "int \<Rightarrow> nat \<times> nat \<times> nat \<Rightarrow> nat list \<Rightarrow> ring_out list" where
  "pulse_steps hwVer rgb indexes =
    (case rgb of (r, g, b) \<Rightarrow>
       concat (map (\<lambda>index. [SendFrame (writeRing hwVer
           (pack_color (r * index div 10) (g * index div 10) (b * index div 10)) ALL_LEDS), Wait 100000]) indexes))"

text \<open>The product with the number of microseconds is taken at the width of an \<^verbatim>\<open>int\<close>.\<close>

definition tick_delay :: "int \<Rightarrow> int" where
  "tick_delay d = (if d \<noteq> 0 then signed_take_bit 31 (d * 1000000) sdiv int TOTAL_LEDS else 5000000)"

definition tick_round :: "nat \<Rightarrow> int \<Rightarrow> bool \<Rightarrow> ring_out list" where
  "tick_round color d onOff =
    concat (map (\<lambda>index. [SendFrame (writeSegments color index onOff), Wait (tick_delay d)]) [1..<TOTAL_LEDS + 1])"

text \<open>One pass of the loop of a continuous mode.\<close>

definition ring_round :: "int \<Rightarrow> nat \<times> nat \<times> nat \<Rightarrow> int \<Rightarrow> nat \<Rightarrow> ring_out list" where
  "ring_round hwVer rgb d m =
    (let color = (case rgb of (r, g, b) \<Rightarrow> pack_color r g b);
         on = SendFrame (writeRing hwVer color ALL_LEDS); off = SendFrame (writeRing hwVer LEDS_OFF ALL_LEDS) in
     if m = RING_BLINK_SLOW then [on, Wait 1000000, off, Wait 1000000]
     else if m = RING_BLINK_FAST then [on, Wait 300000, off, Wait 300000]
     else if m = RING_SOLID then [Wait 1000000]
     else if m = RING_ROTATE_SLOW then rotate_round hwVer color 100000 300000
     else if m = RING_ROTATE_FAST then rotate_round hwVer color 33333 100000
     else if m = RING_PULSE then pulse_steps hwVer rgb [0..<11]
     else if m = RING_WAVE then pulse_steps hwVer rgb [0..<11] @ pulse_steps hwVer rgb (rev [0..<11])
     else tick_round color d (m = RING_TICK_UP))"

definition time_over :: "nat \<Rightarrow> int \<Rightarrow> int \<Rightarrow> bool" where
  "time_over m endTime t \<longleftrightarrow>
    endTime \<noteq> 0 \<and> (if m = RING_TICK_DOWN \<or> m = RING_TICK_UP then t \<ge> endTime else t > endTime)"

text \<open>The loop, with the time read after each pass: what it does, and whether it has ended when the
  readings are used up.\<close>

fun ring_loop :: "(int \<Rightarrow> bool) \<Rightarrow> ring_out list \<Rightarrow> ring_out list \<Rightarrow> int list \<Rightarrow> ring_out list \<times> bool" where
  "ring_loop over pass off [] = ([], False)"
| "ring_loop over pass off (t # clock) =
    (if over t then (pass @ off, True)
     else (case ring_loop over pass off clock of (outs, ended) \<Rightarrow> (pass @ outs, ended)))"

definition run_mode :: "int \<Rightarrow> ring_args \<Rightarrow> int list \<Rightarrow> ring_out list \<times> bool" where
  "run_mode hwVer a clock =
    (let rgb = (percent (ra_r a), percent (ra_g a), percent (ra_b a)); m = nat (ra_m a);
         color = pack_color (percent (ra_r a)) (percent (ra_g a)) (percent (ra_b a));
         loop = ring_loop (time_over m (ra_end a)) (ring_round hwVer rgb (ra_d a) m) (ringOff hwVer) clock in
     if one_shot m then (run_once hwVer color m, True)
     else if m = RING_SOLID then
       (if ra_end a = 0 then ([SendFrame (writeRing hwVer color ALL_LEDS)], True)
        else (SendFrame (writeRing hwVer color ALL_LEDS) # fst loop, snd loop))
     else loop)"

text \<open>\<open>dev_ok\<close> says whether the device opens, \<open>version\<close> is the version of the hardware.\<close>

definition ledRing_main :: "bool \<Rightarrow> int \<Rightarrow> int \<Rightarrow> int list \<Rightarrow> ring_opt list \<Rightarrow> nat \<times> ring_out list \<times> bool" where
  "ledRing_main dev_ok version now clock opts =
    (case ring_options now opts ring_defaults of
       Inl code \<Rightarrow> (code, [], True)
     | Inr a \<Rightarrow>
         (if \<not> dev_ok then (0, [], True)
          else (0, run_mode (if version = 0 then MIN_IND_LED_VER else version) a clock)))"

section \<open>Frames\<close>

lemma and_255: "x AND 255 = take_bit 8 x" for x :: nat
  by (simp add: take_bit_eq_mask mask_eq_exp_minus_1)

lemma pack_color_channels [simp]:
  assumes "r < 256" "g < 256" "b < 256"
  shows "red_of (pack_color r g b) = r" "green_of (pack_color r g b) = g" "blue_of (pack_color r g b) = b"
proof -
  have t: "take_bit 8 r = r" "take_bit 8 g = g" "take_bit 8 b = b" "drop_bit 8 g = 0" "drop_bit 8 b = 0"
      "drop_bit 16 b = 0"
    using assms by (simp_all add: take_bit_nat_eq_self drop_bit_eq_div)
  have p: "drop_bit 16 (push_bit 8 x) = drop_bit 8 x" "drop_bit 8 (push_bit 16 x) = push_bit 8 x"
      "take_bit 8 (push_bit 8 x) = 0" "take_bit 8 (push_bit 16 x) = 0"
      "drop_bit n (push_bit n x) = x" for x n :: nat
    by (simp_all add: drop_bit_eq_div push_bit_eq_mult take_bit_eq_mod div_mult2_eq [of _ 256 256, simplified])
  show "red_of (pack_color r g b) = r" "green_of (pack_color r g b) = g" "blue_of (pack_color r g b) = b"
    by (simp_all add: red_of_def green_of_def blue_of_def pack_color_def and_255 t p)
qed

text \<open>A colour of percentages, and a frame as the driver of the hardware expects it: its length, its header,
  and values of 16 bits.\<close>

definition is_percent_color :: "nat \<Rightarrow> bool" where
  "is_percent_color color \<longleftrightarrow> red_of color \<le> 100 \<and> green_of color \<le> 100 \<and> blue_of color \<le> 100"

definition frame_ok :: "int \<Rightarrow> frame \<Rightarrow> bool" where
  "frame_ok hwVer fr \<longleftrightarrow>
    (if hwVer \<ge> MIN_IND_LED_VER then length fr = 39 \<and> take 3 fr = [0xFC00, 0xFC02, 0x9002]
     else length fr = 15 \<and> take 3 fr = [0xFC00, 0xFC00, 0x0000]) \<and>
    list_all (\<lambda>v. v \<le> 0xFFFF) fr"

lemma frame_ok_empty [simp]:
  "hwVer \<ge> MIN_IND_LED_VER \<Longrightarrow> frame_ok hwVer frame_v2" "\<not> hwVer \<ge> MIN_IND_LED_VER \<Longrightarrow> frame_ok hwVer frame_v1"
  by (simp_all add: frame_ok_def frame_v1_def frame_v2_def list_all_iff)

lemma put_led_ok [simp]:
  assumes "frame_ok hwVer fr" "is_percent_color color" "scale \<ge> 100"
  shows "frame_ok hwVer (put_led scale color i fr)"
proof -
  have dim: "v * 0xFFFF div scale \<le> 0xFFFF" if "v \<le> 100" for v
  proof -
    have "v * 0xFFFF \<le> scale * 0xFFFF"
      using that assms(3) by (intro mult_right_mono) auto
    then show ?thesis
      using assms(3) by (metis div_le_mono nonzero_mult_div_cancel_left not_numeral_le_zero le_0_eq)
  qed
  have "list_all (\<lambda>v. v \<le> 0xFFFF) (put_led scale color i fr)"
    using assms dim unfolding put_led_def list_all_iff is_percent_color_def frame_ok_def
    by (intro ballI) (fastforce dest!: subsetD [OF set_update_subset_insert])
  then show ?thesis
    using assms(1) by (simp add: frame_ok_def put_led_def)
qed

lemma fold_ok:
  assumes "\<And>i fr. frame_ok hwVer fr \<Longrightarrow> frame_ok hwVer (f i fr)" "frame_ok hwVer fr"
  shows "frame_ok hwVer (fold f is fr)"
  using assms by (induction "is" arbitrary: fr) auto

lemma writeRing_ok [simp]: "is_percent_color color \<Longrightarrow> frame_ok hwVer (writeRing hwVer color which)"
  by (auto simp: writeRing_def intro!: fold_ok)

lemma writeTail_ok [simp]: "is_percent_color color \<Longrightarrow> hwVer \<ge> MIN_IND_LED_VER \<Longrightarrow> frame_ok hwVer (writeTail color which)"
  by (simp add: writeTail_def)

lemma writeSegments_ok [simp]:
  "is_percent_color color \<Longrightarrow> hwVer \<ge> MIN_IND_LED_VER \<Longrightarrow> frame_ok hwVer (writeSegments color which onOff)"
  by (auto simp: writeSegments_def simp del: upt_Suc intro!: fold_ok)

lemma percent_le: "percent v \<le> 100"
  by (auto simp: percent_def)

lemma pack_percent: "r \<le> 100 \<Longrightarrow> g \<le> 100 \<Longrightarrow> b \<le> 100 \<Longrightarrow> is_percent_color (pack_color r g b)"
  by (simp add: is_percent_color_def)

lemma off_percent [simp]: "is_percent_color LEDS_OFF"
  by (simp add: is_percent_color_def red_of_def green_of_def blue_of_def)

text \<open>Everything that is sent fits the hardware.\<close>

definition outs_ok :: "int \<Rightarrow> ring_out list \<Rightarrow> bool" where
  "outs_ok hwVer outs \<longleftrightarrow> list_all (\<lambda>out. case out of SendFrame fr \<Rightarrow> frame_ok hwVer fr | _ \<Rightarrow> True) outs"

lemma outs_ok_simps [simp]:
  "outs_ok hwVer []"
  "outs_ok hwVer (SendFrame fr # outs) \<longleftrightarrow> frame_ok hwVer fr \<and> outs_ok hwVer outs"
  "outs_ok hwVer (Wait n # outs) \<longleftrightarrow> outs_ok hwVer outs"
  "outs_ok hwVer (LedMode s # outs) \<longleftrightarrow> outs_ok hwVer outs"
  "outs_ok hwVer (outs @ outs') \<longleftrightarrow> outs_ok hwVer outs \<and> outs_ok hwVer outs'"
  by (simp_all add: outs_ok_def)

lemma outs_ok_concat: "(\<And>x. x \<in> set xs \<Longrightarrow> outs_ok hwVer (f x)) \<Longrightarrow> outs_ok hwVer (concat (map f xs))"
  by (induction xs) simp_all

lemma ringOff_ok [simp]: "outs_ok hwVer (ringOff hwVer)"
  by (simp add: ringOff_def)

lemma run_once_ok: "is_percent_color color \<Longrightarrow> outs_ok hwVer (run_once hwVer color m)"
  by (simp add: run_once_def Let_def)

lemma rotate_round_ok: "is_percent_color color \<Longrightarrow> outs_ok hwVer (rotate_round hwVer color single quad)"
  by (auto simp: rotate_round_def simp del: upt_Suc intro!: outs_ok_concat)

lemma tick_round_ok: "is_percent_color color \<Longrightarrow> hwVer \<ge> MIN_IND_LED_VER \<Longrightarrow> outs_ok hwVer (tick_round color d onOff)"
  by (auto simp: tick_round_def simp del: upt_Suc intro!: outs_ok_concat)

lemma pulse_steps_ok:
  assumes "r \<le> 100" "g \<le> 100" "b \<le> 100" "list_all (\<lambda>i. i \<le> 10) indexes"
  shows "outs_ok hwVer (pulse_steps hwVer (r, g, b) indexes)"
proof -
  have "v * i div 10 \<le> 100" if "v \<le> 100" "i \<le> 10" for v i :: nat
    using mult_le_mono [OF that] by simp
  then show ?thesis
    using assms by (auto simp: pulse_steps_def list_all_iff intro!: outs_ok_concat writeRing_ok pack_percent)
qed

lemma ring_round_ok:
  assumes "r \<le> 100" "g \<le> 100" "b \<le> 100" "hwVer \<ge> MIN_IND_LED_VER \<or> m < RING_TICK_DOWN" "m \<ge> 1"
    "\<not> one_shot m"
  shows "outs_ok hwVer (ring_round hwVer (r, g, b) d m)"
proof -
  have "m \<in> {3, 4, 6, 7, 8, 9, 10} \<or> hwVer \<ge> MIN_IND_LED_VER"
    using assms(4-6) by (simp add: one_shot_def) arith
  moreover have "is_percent_color (pack_color r g b)"
    using assms by (simp add: pack_percent)
  moreover have "list_all (\<lambda>i. i \<le> 10) [0..<11]" "list_all (\<lambda>i. i \<le> 10) (rev [0..<11])"
    by (simp_all add: list_all_iff)
  ultimately show ?thesis
    using assms(1-3)
    by (auto simp: ring_round_def Let_def rotate_round_ok tick_round_ok pulse_steps_ok simp del: upt_Suc)
qed

lemma ring_loop_ok:
  "outs_ok hwVer pass \<Longrightarrow> outs_ok hwVer off \<Longrightarrow> outs_ok hwVer (fst (ring_loop over pass off clock))"
  by (induction clock) (auto split: prod.splits)

lemma ring_options_mode: "ring_options now opts a = Inr a' \<Longrightarrow> 1 \<le> ra_m a \<Longrightarrow> 1 \<le> ra_m a'"
  by (induction now opts a rule: ring_options.induct) (auto split: if_splits)



section \<open>The end of an animation\<close>

lemma ring_loop_ends:
  "ring_loop over pass off clock =
    (if list_ex over clock then (concat (replicate (Suc (length (takeWhile (\<lambda>t. \<not> over t) clock))) pass) @ off, True)
     else (concat (replicate (length clock) pass), False))"
  by (induction clock) simp_all

text \<open>The modes that do not end unless a time is given.\<close>

definition continuous :: "ring_args \<Rightarrow> bool" where
  "continuous a \<longleftrightarrow> \<not> one_shot (nat (ra_m a)) \<and> (nat (ra_m a) = RING_SOLID \<longrightarrow> ra_end a \<noteq> 0)"



section \<open>Irregularities\<close>

text \<open>The trail of the last LED lights the second LED of the ring instead of the first.\<close>

lemma writeTail_last: "map (\<lambda>i. writeTail 0x640000 12 ! (i * 3 + 4) \<noteq> 0) [0, 1, 10, 11] = [False, True, True, True]"
proof -
  have blank: "frame_v2 ! n = 0" if "3 \<le> n" "n < 39" for n
    using that by (simp add: frame_v2_def nth_append del: append_Cons)
  have len: "length frame_v2 = 39"
    by (simp add: frame_v2_def)
  have red: "red_of 0x640000 = 100"
    by (simp add: red_of_def)
  show ?thesis
    by (simp add: writeTail_def put_led_def nth_list_update blank len red)
qed

text \<open>On the hardware without single LEDs the modes that tick send frames of the wrong length.\<close>

lemma writeSegments_length: "length (writeSegments color which onOff) = 39"
proof -
  have "length (fold (\<lambda>index. put_led 100 color (TOTAL_LEDS - index)) is frame_v2) = 39" for "is"
    by (rule fold_invariant [where Q = "\<lambda>_. True"]) (simp_all add: put_led_def frame_v2_def)
  then show ?thesis
    by (simp add: writeSegments_def del: upt_Suc)
qed

lemma tick_frames_wrong_length: "\<not> outs_ok 1 (fst (snd (ledRing_main True 1 0 [1] [OptM 11])))"
proof -
  have "\<not> frame_ok 1 (writeSegments color which onOff)" for color which onOff
    by (simp add: frame_ok_def writeSegments_length)
  then have "\<not> outs_ok 1 (tick_round color d onOff)" for color d onOff
    by (simp add: tick_round_def upt_rec)
  then show ?thesis
    by (simp add: ledRing_main_def ring_defaults_def run_mode_def one_shot_def Let_def ring_round_def time_over_def)
qed

section \<open>Final modes\<close>

interpretation rings: led_table ring_names
  by unfold_locales (simp add: ring_names_def name_key_def)

text \<open>The modes from which the controller does not return: the stages of the button held down, the
  shutdown and the power off, in the order in which one may follow another.\<close>

definition final_rank :: "int \<Rightarrow> nat" where
  "final_rank m =
    (if m = int BUTTON_REBOOT then 1
     else if m = int BUTTON_SOFT_RESET then 2
     else if m = int BUTTON_FACTORY_DEFAULT \<or> m = int FACTORY_RESET_ACK then 3
     else if m = int SHUTDOWN then 4
     else if m = int TURNING_OFF then 5
     else 0)"

definition asks :: "nat \<Rightarrow> bytes list \<Rightarrow> bool" where
  "asks i args \<longleftrightarrow> args \<noteq> [] \<and> find_mode ring_names (strip_newline (hd args)) = i"

definition ring_calls :: "(string \<Rightarrow> bool) \<Rightarrow> bytes list list \<Rightarrow> fsys \<Rightarrow> fsys" where
  "ring_calls can_write calls fs = fold (\<lambda>args fs. fst (snd (ringctrl_main can_write args fs))) calls fs"

lemma ring_names_plain: "list_all (\<lambda>n. n \<noteq> [] \<and> CHR 0x0A \<notin> set n) ring_names"
  by code_simp

lemma strip_ring_name:
  assumes "i < length ring_names"
  shows "strip_newline (str (ring_names ! i)) = str (ring_names ! i)"
  using ring_names_plain assms by (intro strip_newline_none) (simp add: list_all_length)

lemma asks_name:
  assumes "i < length ring_names"
  shows "asks j [str (ring_names ! i)] \<longleftrightarrow> j = i"
  using rings.find_mode_name [OF assms] strip_ring_name [OF assms] by (auto simp: asks_def)

lemma lastMode_recorded: "ring_lastMode (fs(LAST_LED_MODE_FILE \<mapsto> dec_str (int i))) = int i"
  using scan_int_dec_str [of "int i" "[]"] by (simp add: ring_lastMode_def)

lemma ring_set_cases:
  assumes "can_write LAST_LED_MODE_FILE"
  shows "ring_set can_write i duration fs = (fs, []) \<or> ring_lastMode (fst (ring_set can_write i duration fs)) = int i"
  using assms lastMode_recorded [of fs i] by (simp add: ring_set_def split: prod.split)

text \<open>A call changes nothing, or records a mode that was not blocked.\<close>

lemma ringctrl_cases:
  assumes "can_write LAST_LED_MODE_FILE"
  obtains "snd (ringctrl_main can_write args fs) = (fs, [])"
  | i where "asks i args" "\<not> ring_blocked i (ring_lastMode fs)"
      "ring_lastMode (fst (snd (ringctrl_main can_write args fs))) = int i"
proof (cases args)
  case Nil
  then show ?thesis
    by (intro that(1)) (simp add: ringctrl_main_def)
next
  case (Cons arg rest)
  let ?i = "find_mode ring_names (strip_newline arg)"
  show ?thesis
  proof (cases "?i = length ring_names \<or> ring_blocked ?i (ring_lastMode fs)")
    case True
    then show ?thesis
      by (intro that(1)) (auto simp: ringctrl_main_def Let_def Cons)
  next
    case False
    define dur where "dur = (case rest of [d] \<Rightarrow> atoi d | _ \<Rightarrow> 0)"
    have main: "snd (ringctrl_main can_write args fs) = ring_set can_write ?i dur fs"
      using False by (simp add: ringctrl_main_def Let_def Cons dur_def)
    show ?thesis
      using ring_set_cases [of can_write ?i dur fs, OF assms]
    proof
      assume "ring_set can_write ?i dur fs = (fs, [])"
      then show ?thesis
        by (intro that(1)) (simp add: main)
    next
      assume "ring_lastMode (fst (ring_set can_write ?i dur fs)) = int ?i"
      then show ?thesis
        using False by (intro that(2) [of ?i]) (simp_all add: main [unfolded Cons] asks_def Cons)
    qed
  qed
qed

lemma blocked_rank:
  assumes "\<not> ring_blocked i m" "final_rank m > 0" "i \<noteq> BOOT_LINUX"
  shows "final_rank m < final_rank (int i)"
  using assms by (auto simp: ring_blocked_def final_rank_def split: if_splits)

lemma final_mode_step:
  assumes "can_write LAST_LED_MODE_FILE" "final_rank (ring_lastMode fs) > 0" "\<not> asks BOOT_LINUX args"
  shows "snd (ringctrl_main can_write args fs) = (fs, []) \<or>
    final_rank (ring_lastMode fs) < final_rank (ring_lastMode (fst (snd (ringctrl_main can_write args fs))))"
proof (rule ringctrl_cases [of can_write args fs, OF assms(1)])
  fix i
  assume "asks i args" "\<not> ring_blocked i (ring_lastMode fs)"
    "ring_lastMode (fst (snd (ringctrl_main can_write args fs))) = int i"
  moreover have "i \<noteq> BOOT_LINUX"
    using \<open>asks i args\<close> assms(3) by auto
  ultimately show ?thesis
    using blocked_rank assms(2) by simp
qed simp



text \<open>The row of the mode that turns every LED on gives the ring no mode, so asking for it does nothing.\<close>

lemma all_on_ignored: "snd (ringctrl_main can_write [str ''all-on''] fs) = (fs, [])"
proof -
  have n: "ring_names ! 41 = ''all-on''" "length ring_names = 96"
    by code_simp+
  have row: "ring_states ! 41 = (COLOR_WHITE, RING_OFF, 0)"
    by (simp add: ring_states_def)
  have lt: "41 < length ring_names"
    by (simp add: n(2))
  have "find_mode ring_names (strip_newline (str (ring_names ! 41))) = 41"
    unfolding strip_ring_name [OF lt] by (rule rings.find_mode_name [OF lt])
  then have "find_mode ring_names (strip_newline (str ''all-on'')) = 41"
    unfolding n(1) .
  then show ?thesis
    by (simp only: ringctrl_main_def ring_set_def list.case Let_def n(2) row prod.case if_True if_False) simp
qed

end
