(* ===== verification/Battery.thy ===== *)
theory Battery
  imports IrisLib Complex_Main
begin

text \<open>
  The battery daemons, \<^verbatim>\<open>iris-utils/files/batteryd.c\<close> of the v2 hub and \<^verbatim>\<open>batterydv3.c\<close> of the v3 hub: one
  pass of each main loop as a function of the state and of what the hardware answers. The programs
  compute with \<^verbatim>\<open>float\<close>; here voltages and levels are rational numbers, so rounding is not modelled, and a
  file that holds such a number is the number.
\<close>

unbundle bit_operations_syntax

section \<open>The v2 hub\<close>

subsection \<open>Power state\<close>

abbreviation (input) POWER_STATE_BATTERY :: u8 where "POWER_STATE_BATTERY \<equiv> 0x00"
abbreviation (input) POWER_STATE_AC :: u8 where "POWER_STATE_AC \<equiv> 0x08"
abbreviation (input) POWER_STATE_MASK :: u8 where "POWER_STATE_MASK \<equiv> 0x08"

text \<open>What \<^verbatim>\<open>i2cget\<close> gave: no pipe, no number, or a number.\<close>

datatype i2c_answer = NoPipe | NoNumber | Value u8

definition getBatteryState :: "i2c_answer \<Rightarrow> u8" where
  "getBatteryState r = (case r of Value state \<Rightarrow> state | _ \<Rightarrow> 0xFF) AND POWER_STATE_MASK"

subsection \<open>USB ports\<close>

text \<open>A port, and what the driver answers: whether it opens, its status word (if the request succeeds),
  and whether it is disconnected, switched off and bound again.\<close>

record usb_port =
  in_use :: bool
  bound :: bool
  powered :: bool

record usb_driver =
  opens :: bool
  status :: "u16 option"
  disconnects :: bool
  switches_off :: bool
  binds :: bool

definition usb_connected :: "usb_driver \<Rightarrow> bool" where
  "usb_connected d \<longleftrightarrow> opens d \<and> (case status d of None \<Rightarrow> False | Some ps \<Rightarrow> ps AND 0x0001 \<noteq> 0)"

definition usb_disable :: "usb_driver \<Rightarrow> usb_port \<Rightarrow> usb_port" where
  "usb_disable d p =
    (if \<not> opens d \<or> \<not> disconnects d then p
     else if \<not> switches_off d then p\<lparr>bound := False\<rparr>
     else p\<lparr>bound := False, powered := False\<rparr>)"

definition usb_enable :: "usb_driver \<Rightarrow> usb_port \<Rightarrow> usb_port" where
  "usb_enable d p = (if opens d \<and> binds d then p\<lparr>bound := True, powered := True\<rparr> else p)"

definition usb_port_off :: "usb_driver \<Rightarrow> usb_port \<Rightarrow> usb_port" where
  "usb_port_off d p =
    (let p = p\<lparr>in_use := usb_connected d\<rparr> in if in_use p then p else usb_disable d p)"

definition usb_port_on :: "usb_driver \<Rightarrow> usb_port \<Rightarrow> usb_port" where
  "usb_port_on d p = (if in_use p then p else usb_enable d p)\<lparr>in_use := False\<rparr>"

definition usb_power_off :: "usb_driver list \<Rightarrow> usb_port list \<Rightarrow> usb_port list" where
  "usb_power_off ds ps = map2 usb_port_off ds ps"

definition usb_power_on :: "usb_driver list \<Rightarrow> usb_port list \<Rightarrow> usb_port list" where
  "usb_power_on ds ps = map2 usb_port_on ds ps"

subsection \<open>Voltage and level\<close>

abbreviation (input) VOLTAGE_CHECK_INTERVAL :: nat where "VOLTAGE_CHECK_INTERVAL \<equiv> 30"

definition MAX_RAW_VOLTAGE :: rat where "MAX_RAW_VOLTAGE = 4095"
definition VOLTAGE_IN_MIN :: rat where "VOLTAGE_IN_MIN = 42 / 10"
definition VOLTAGE_NO_BATTERIES :: rat where "VOLTAGE_NO_BATTERIES = 125 / 100"
definition BATTERY_RESET_V :: rat where "BATTERY_RESET_V = 5"

text \<open>The voltage at the battery, behind the voltage divider and the diode.\<close>

definition total_voltage :: "int \<Rightarrow> bool \<Rightarrow> rat" where
  "total_voltage raw_value battery =
    (let adc_value = of_int raw_value * (18 / 10) / MAX_RAW_VOLTAGE;
         current = adc_value / 36500 in
     adc_value + current * 100000 + (if battery then 25 / 100 else 3 / 100))"

definition new_max :: "rat \<Rightarrow> rat \<Rightarrow> rat" where
  "new_max volts max_voltage =
    (if volts > max_voltage then volts else if volts \<le> VOLTAGE_IN_MIN then BATTERY_RESET_V else max_voltage)"

definition battery_level :: "rat \<Rightarrow> rat \<Rightarrow> rat" where
  "battery_level volts max_voltage =
    (if volts \<le> VOLTAGE_NO_BATTERIES then -1
     else if volts \<le> VOLTAGE_IN_MIN then 0
     else (volts - VOLTAGE_IN_MIN) / (max_voltage - VOLTAGE_IN_MIN) * 100)"

subsection \<open>A pass of the main loop\<close>

record v2_state =
  lastState :: u8
  ports :: "usb_port list"
  hold :: bool
  on_file :: bool
  max_voltage :: rat
  max_file :: "rat option"
  level_file :: "rat option"
  voltage_file :: "rat option"
  loop_count :: nat

record v2_input =
  i2c :: i2c_answer
  drivers :: "usb_driver list"
  raw :: int

text \<open>On battery the hold is switched on, the time recorded and unused ports switched off, once; with
  mains power back this is undone. \<open>hold\<close> is the state of the pin that keeps the battery connected.\<close>

definition v2_power :: "u8 \<Rightarrow> usb_driver list \<Rightarrow> v2_state \<Rightarrow> v2_state" where
  "v2_power batteryState ds s =
    (if batteryState = POWER_STATE_BATTERY then
       if lastState s \<noteq> POWER_STATE_BATTERY
       then s\<lparr>hold := True, on_file := True, ports := usb_power_off ds (ports s)\<rparr> else s
     else
       (let s = (if lastState s = POWER_STATE_BATTERY
                 then s\<lparr>on_file := False, ports := usb_power_on ds (ports s)\<rparr> else s) in
        s\<lparr>hold := False\<rparr>))"

text \<open>All files can be written.\<close>

definition v2_voltage :: "u8 \<Rightarrow> int \<Rightarrow> v2_state \<Rightarrow> v2_state" where
  "v2_voltage batteryState raw_value s =
    (if raw_value > 0 then
       (let volts = total_voltage raw_value (batteryState = POWER_STATE_BATTERY);
            s = s\<lparr>max_file := (if volts > max_voltage s then Some volts else max_file s),
                  max_voltage := new_max volts (max_voltage s)\<rparr> in
        s\<lparr>level_file := Some (battery_level volts (max_voltage s)), voltage_file := Some volts\<rparr>)
     else s)"

definition v2_pass :: "bool \<Rightarrow> v2_input \<Rightarrow> v2_state \<Rightarrow> v2_state" where
  "v2_pass supported r s =
    (let batteryState = getBatteryState (i2c r);
         s = v2_power batteryState (drivers r) s;
         changed = (lastState s \<noteq> batteryState);
         due = (loop_count s mod VOLTAGE_CHECK_INTERVAL = 0);
         s = (if supported \<and> \<not> changed then s\<lparr>loop_count := loop_count s + 1\<rparr> else s);
         s = (if supported \<and> (changed \<or> due) then v2_voltage batteryState (raw r) s else s) in
     s\<lparr>lastState := batteryState\<rparr>)"

definition v2_init :: "rat option \<Rightarrow> v2_state" where
  "v2_init saved =
    \<lparr>lastState = POWER_STATE_AC, ports = replicate 2 \<lparr>in_use = False, bound = True, powered = True\<rparr>,
     hold = False, on_file = False, max_voltage = (case saved of None \<Rightarrow> 0 | Some v \<Rightarrow> v),
     max_file = saved, level_file = None, voltage_file = None, loop_count = 0\<rparr>"

section \<open>The v3 hub\<close>

abbreviation (input) VIN_PRESENT :: u8 where "VIN_PRESENT \<equiv> 0x01"
abbreviation (input) BATTERY_MISSING :: u8 where "BATTERY_MISSING \<equiv> 0x04"
abbreviation (input) BOOST :: u8 where "BOOST \<equiv> 0x40"
abbreviation (input) STATUS_FIELD :: u8 where "STATUS_FIELD \<equiv> 0x30"
abbreviation (input) STATUS_READY :: u8 where "STATUS_READY \<equiv> 0x00"
abbreviation (input) STATUS_CHARGING :: u8 where "STATUS_CHARGING \<equiv> 0x10"
abbreviation (input) STATUS_DONE :: u8 where "STATUS_DONE \<equiv> 0x20"
abbreviation (input) STATUS_FAULT :: u8 where "STATUS_FAULT \<equiv> 0x30"

definition VOLTAGE_IN_MIN_V3 :: rat where "VOLTAGE_IN_MIN_V3 = 268 / 100"
definition VOLTAGE_IN_MAX_V3 :: rat where "VOLTAGE_IN_MAX_V3 = 415 / 100"

text \<open>A chip on the bus: whether it can be addressed, and what reading a register delivers. A read that
  fails leaves the variable it was to fill as it is.\<close>

record i2c_chip =
  answers :: bool
  regs :: "nat \<Rightarrow> u8 option"

definition read_reg :: "i2c_chip \<Rightarrow> nat \<Rightarrow> u8 \<Rightarrow> u8" where
  "read_reg c r data = (case regs c r of None \<Rightarrow> data | Some v \<Rightarrow> v)"

definition getBatteryState_v3 :: "i2c_chip \<Rightarrow> u8" where
  "getBatteryState_v3 c = (if answers c then read_reg c 0 0 else VIN_PRESENT)"

datatype lte_restart_state = IDLE | START | START_WAIT | DISCONNECT | DISCONNECT_WAIT | RECONNECT

record v3_state =
  lastState3 :: u8
  usb_port_in_use :: bool
  usb_power :: bool
  on_file3 :: bool
  lte_restart :: lte_restart_state
  lte_control :: "string list"
  charge_state :: "string option"
  charge_level :: "nat option"
  level3 :: "rat option"
  voltage3 :: "rat option"
  loop_count3 :: nat

record v3_input =
  dongle :: bool
  charger :: i2c_chip
  gauge :: i2c_chip
  usb :: usb_driver
  lte_up :: bool

text \<open>The machine that restarts the LTE connection; \<open>lte_control\<close> is the list of the commands written for
  the LTE daemon.\<close>

definition lte_step :: "bool \<Rightarrow> v3_state \<Rightarrow> v3_state" where
  "lte_step present s =
    (case lte_restart s of
       IDLE \<Rightarrow> s
     | START \<Rightarrow> s\<lparr>usb_power := True, lte_restart := START_WAIT\<rparr>
     | START_WAIT \<Rightarrow> if present then s\<lparr>lte_restart := DISCONNECT\<rparr> else s
     | DISCONNECT \<Rightarrow> s\<lparr>lte_control := lte_control s @ [''disconnect''], lte_restart := DISCONNECT_WAIT\<rparr>
     | DISCONNECT_WAIT \<Rightarrow> if present then s\<lparr>lte_restart := RECONNECT\<rparr> else s
     | RECONNECT \<Rightarrow> s\<lparr>lte_control := lte_control s @ [''connect''], lte_restart := IDLE\<rparr>)"

definition usb_power_off_v3 :: "usb_driver \<Rightarrow> v3_state \<Rightarrow> v3_state" where
  "usb_power_off_v3 d s =
    (let s = s\<lparr>usb_port_in_use := usb_connected d\<rparr> in
     if usb_port_in_use s then s else s\<lparr>usb_power := False\<rparr>)"

definition usb_power_on_v3 :: "v3_state \<Rightarrow> v3_state" where
  "usb_power_on_v3 s = (if usb_port_in_use s then s else s\<lparr>usb_power := True\<rparr>)\<lparr>usb_port_in_use := False\<rparr>"

definition v3_power :: "u8 \<Rightarrow> v3_input \<Rightarrow> v3_state \<Rightarrow> v3_state" where
  "v3_power batteryState r s =
    (if batteryState AND VIN_PRESENT = 0 then
       if lastState3 s AND VIN_PRESENT \<noteq> 0 then
         (let s = s\<lparr>on_file3 := True\<rparr> in
          if lte_up r then s\<lparr>usb_port_in_use := True, lte_restart := START\<rparr> else usb_power_off_v3 (usb r) s)
       else s
     else if lastState3 s AND VIN_PRESENT = 0 then usb_power_on_v3 (s\<lparr>on_file3 := False\<rparr>)
     else s)"

definition charge_name :: "u8 \<Rightarrow> string" where
  "charge_name st =
    (if st AND BOOST \<noteq> 0 then ''Boost''
     else if st AND BATTERY_MISSING \<noteq> 0 then ''Missing''
     else if st AND STATUS_FIELD = STATUS_READY then ''Ready''
     else if st AND STATUS_FIELD = STATUS_CHARGING then ''Charging''
     else if st AND STATUS_FIELD = STATUS_DONE then ''Done''
     else if st AND STATUS_FIELD = STATUS_FAULT then ''Fault''
     else '''')"

text \<open>Raw voltage and charge level of the fuel gauge; each pair of registers is a number of 16 bits.\<close>

definition gauge_raw :: "i2c_chip \<Rightarrow> nat \<times> nat" where
  "gauge_raw c =
    (let d2 = read_reg c 2 0; d3 = read_reg c 3 d2; d4 = read_reg c 4 d3; d5 = read_reg c 5 d4 in
     (unat d2 * 256 + unat d3, unat d4 * 256 + unat d5))"

definition level_v3 :: "rat \<Rightarrow> rat" where
  "level_v3 volts =
    (let level = (if volts \<le> VOLTAGE_IN_MIN_V3 then 0
                  else (volts - VOLTAGE_IN_MIN_V3) / (VOLTAGE_IN_MAX_V3 - VOLTAGE_IN_MIN_V3) * 100) in
     if level > 100 then 100 else level)"

definition v3_voltage :: "i2c_chip \<Rightarrow> v3_state \<Rightarrow> v3_state" where
  "v3_voltage c s =
    (let (raw_value, charge) = (if answers c then gauge_raw c else (0, 0));
         s = (if answers c then s\<lparr>charge_level := Some (charge * 100 div 0xFFFF)\<rparr> else s) in
     if raw_value > 0 then
       (let volts = 25 / 10 + of_nat raw_value * (25 / 10) / MAX_RAW_VOLTAGE in
        s\<lparr>level3 := Some (level_v3 volts), voltage3 := Some volts\<rparr>)
     else s)"

definition v3_pass :: "v3_input \<Rightarrow> v3_state \<Rightarrow> v3_state" where
  "v3_pass r s =
    (let s = lte_step (dongle r) s;
         batteryState = getBatteryState_v3 (charger r);
         s = v3_power batteryState r s;
         changed = (lastState3 s \<noteq> batteryState);
         s = (if changed then s\<lparr>charge_state := Some (charge_name batteryState)\<rparr> else s);
         due = (loop_count3 s mod VOLTAGE_CHECK_INTERVAL = 0);
         s = (if changed then s else s\<lparr>loop_count3 := loop_count3 s + 1\<rparr>);
         s = (if changed \<or> due then v3_voltage (gauge r) s else s) in
     s\<lparr>lastState3 := batteryState\<rparr>)"

definition v3_init :: v3_state where
  "v3_init =
    \<lparr>lastState3 = 0x01, usb_port_in_use = False, usb_power = True, on_file3 = False, lte_restart = IDLE,
     lte_control = [], charge_state = None, charge_level = None, level3 = Some 0, voltage3 = Some 0, loop_count3 = 0\<rparr>"

section \<open>What a monitor of the power promises\<close>

text \<open>Both daemons act on the edges between mains and battery power only. \<open>on_battery\<close> reads the last
  state, \<open>marked\<close> the file that tells the rest of the system.\<close>

locale power_monitor =
  fixes pass :: "'r \<Rightarrow> 's \<Rightarrow> 's"
    and reading :: "'r \<Rightarrow> bool"
    and on_battery :: "'s \<Rightarrow> bool"
    and marked :: "'s \<Rightarrow> bool"
  assumes records: "on_battery (pass r s) \<longleftrightarrow> reading r"
    and enters: "reading r \<Longrightarrow> \<not> on_battery s \<Longrightarrow> marked (pass r s)"
    and leaves: "\<not> reading r \<Longrightarrow> on_battery s \<Longrightarrow> \<not> marked (pass r s)"
    and keeps: "reading r \<longleftrightarrow> on_battery s \<Longrightarrow> marked (pass r s) \<longleftrightarrow> marked s"
begin

lemma pass_tracks: "marked s \<longleftrightarrow> on_battery s \<Longrightarrow> marked (pass r s) \<longleftrightarrow> reading r"
  using enters leaves keeps by blast

lemma run_tracks:
  assumes "marked s \<longleftrightarrow> on_battery s"
  shows "marked (fold pass rs s) \<longleftrightarrow> (if rs = [] then on_battery s else reading (last rs))"
  using assms
proof (induction rs arbitrary: s)
  case (Cons r rs)
  then show ?case
    using pass_tracks [OF Cons.prems, of r] records [of r s] by auto
qed simp

end

lemma v2_voltage_frame [simp]:
  "lastState (v2_voltage st x s) = lastState s" "on_file (v2_voltage st x s) = on_file s"
  "hold (v2_voltage st x s) = hold s" "ports (v2_voltage st x s) = ports s"
  by (simp_all add: v2_voltage_def Let_def)

text \<open>A test of one bit.\<close>

lemma and_one_bit: "x AND 2 ^ n = (if bit x n then 2 ^ n else 0)" for x :: u8
  by (rule bit_word_eqI) (auto simp: bit_and_iff bit_exp_iff)

lemma getBatteryState_cases: "getBatteryState r = POWER_STATE_BATTERY \<or> getBatteryState r = POWER_STATE_AC"
  using and_one_bit [of _ 3] by (simp add: getBatteryState_def)

lemma v2_pass_fields:
  "lastState (v2_pass sv r s) = getBatteryState (i2c r)"
  "on_file (v2_pass sv r s) = on_file (v2_power (getBatteryState (i2c r)) (drivers r) s)"
  "hold (v2_pass sv r s) = hold (v2_power (getBatteryState (i2c r)) (drivers r) s)"
  by (simp_all add: v2_pass_def Let_def)

interpretation v2: power_monitor "v2_pass supported" "\<lambda>r. getBatteryState (i2c r) = POWER_STATE_BATTERY"
    "\<lambda>s. lastState s = POWER_STATE_BATTERY" on_file for supported
  by unfold_locales (simp_all add: v2_pass_fields v2_power_def)

lemma lte_step_frame [simp]:
  "lastState3 (lte_step p s) = lastState3 s" "on_file3 (lte_step p s) = on_file3 s"
  by (cases "lte_restart s"; simp add: lte_step_def)+

lemma v3_voltage_frame [simp]:
  "lastState3 (v3_voltage c s) = lastState3 s" "on_file3 (v3_voltage c s) = on_file3 s"
  "lte_restart (v3_voltage c s) = lte_restart s" "lte_control (v3_voltage c s) = lte_control s"
  "usb_power (v3_voltage c s) = usb_power s"
  by (simp_all add: v3_voltage_def Let_def split: prod.split)

lemma usb_power_v3_frame [simp]:
  "on_file3 (usb_power_off_v3 d s) = on_file3 s" "on_file3 (usb_power_on_v3 s) = on_file3 s"
  "lastState3 (usb_power_off_v3 d s) = lastState3 s" "lastState3 (usb_power_on_v3 s) = lastState3 s"
  "lte_restart (usb_power_off_v3 d s) = lte_restart s" "lte_restart (usb_power_on_v3 s) = lte_restart s"
  "lte_control (usb_power_off_v3 d s) = lte_control s" "lte_control (usb_power_on_v3 s) = lte_control s"
  by (simp_all add: usb_power_off_v3_def usb_power_on_v3_def Let_def)

lemma v3_power_frame [simp]:
  "lastState3 (v3_power st r s) = lastState3 s" "lte_control (v3_power st r s) = lte_control s"
  by (simp_all add: v3_power_def Let_def)

lemma v3_pass_fields:
  "lastState3 (v3_pass r s) = getBatteryState_v3 (charger r)"
  "on_file3 (v3_pass r s) = on_file3 (v3_power (getBatteryState_v3 (charger r)) r (lte_step (dongle r) s))"
  "lte_restart (v3_pass r s) = lte_restart (v3_power (getBatteryState_v3 (charger r)) r (lte_step (dongle r) s))"
  "lte_control (v3_pass r s) = lte_control (v3_power (getBatteryState_v3 (charger r)) r (lte_step (dongle r) s))"
  by (simp_all add: v3_pass_def Let_def)

interpretation v3: power_monitor v3_pass "\<lambda>r. getBatteryState_v3 (charger r) AND VIN_PRESENT = 0"
    "\<lambda>s. lastState3 s AND VIN_PRESENT = 0" on_file3
  by unfold_locales (simp_all add: v3_pass_fields v3_power_def Let_def)

section \<open>Properties\<close>

text \<open>The pin that holds the battery is on exactly while the hub runs on battery.\<close>

lemma v2_pass_hold: "(hold s \<longleftrightarrow> lastState s = POWER_STATE_BATTERY) \<Longrightarrow>
    hold (v2_pass sv r s) \<longleftrightarrow> lastState (v2_pass sv r s) = POWER_STATE_BATTERY"
  by (simp add: v2_pass_fields v2_power_def)

lemma v2_run_hold: "(hold s \<longleftrightarrow> lastState s = POWER_STATE_BATTERY) \<Longrightarrow>
    hold (fold (v2_pass sv) rs s) \<longleftrightarrow> lastState (fold (v2_pass sv) rs s) = POWER_STATE_BATTERY"
  by (induction rs arbitrary: s) (simp_all add: v2_pass_hold)

lemma v2_run_last:
  "rs \<noteq> [] \<Longrightarrow> lastState (fold (v2_pass sv) rs s) = getBatteryState (i2c (last rs))"
  by (induction rs arbitrary: s) (auto simp: v2_pass_fields(1))


definition sample_driver :: usb_driver where
  "sample_driver = \<lparr>opens = True, status = Some 0, disconnects = True, switches_off = True, binds = True\<rparr>"

definition sample_v2 :: "i2c_answer \<Rightarrow> int \<Rightarrow> v2_input" where
  "sample_v2 a x = \<lparr>i2c = a, drivers = [sample_driver, sample_driver], raw = x\<rparr>"

definition sample_v3 :: "u8 \<Rightarrow> bool \<Rightarrow> bool \<Rightarrow> v3_input" where
  "sample_v3 st present up =
    \<lparr>dongle = present, charger = \<lparr>answers = True, regs = (\<lambda>_. Some st)\<rparr>,
     gauge = \<lparr>answers = True, regs = (\<lambda>_. Some 9)\<rparr>, usb = sample_driver, lte_up = up\<rparr>"


text \<open>The maximum is at least the voltage it is compared with, so the level is a percentage.\<close>

lemma battery_level_range:
  assumes "volts > VOLTAGE_IN_MIN \<Longrightarrow> volts \<le> m"
  shows "battery_level volts m = -1 \<or> 0 \<le> battery_level volts m \<and> battery_level volts m \<le> 100"
proof (cases "volts > VOLTAGE_IN_MIN")
  case True
  then have "volts \<le> m" "volts - VOLTAGE_IN_MIN > 0" "m - VOLTAGE_IN_MIN > 0"
    using assms by auto
  moreover define q where "q = (volts - VOLTAGE_IN_MIN) / (m - VOLTAGE_IN_MIN)"
  ultimately have "0 \<le> q" "q \<le> 1"
    by (simp_all add: divide_le_eq_1)
  moreover have "\<not> volts \<le> VOLTAGE_NO_BATTERIES"
    using True by (simp add: VOLTAGE_NO_BATTERIES_def VOLTAGE_IN_MIN_def)
  then have "battery_level volts m = q * 100"
    using True by (simp only: battery_level_def q_def if_False not_le) simp
  ultimately show ?thesis
    by simp
qed (simp add: battery_level_def)

lemma new_max_above: "volts > VOLTAGE_IN_MIN \<Longrightarrow> volts \<le> new_max volts m"
  by (simp add: new_max_def)

lemma level_v3_range: "0 \<le> level_v3 volts \<and> level_v3 volts \<le> 100"
  by (auto simp: level_v3_def Let_def VOLTAGE_IN_MIN_V3_def VOLTAGE_IN_MAX_V3_def)

definition level_ok :: "rat option \<Rightarrow> bool" where
  "level_ok l \<longleftrightarrow> (case l of None \<Rightarrow> True | Some v \<Rightarrow> v = -1 \<or> 0 \<le> v \<and> v \<le> 100)"

lemma v2_pass_level: "level_ok (level_file s) \<Longrightarrow> level_ok (level_file (v2_pass sv r s))"
  using battery_level_range new_max_above
  by (simp add: v2_pass_def v2_power_def v2_voltage_def level_ok_def Let_def)

lemma v3_pass_level:
  assumes "level_ok (level3 s)"
  shows "level_ok (level3 (v3_pass r s))"
proof -
  have "level3 (lte_step p s) = level3 s" for p
    by (cases "lte_restart s"; simp add: lte_step_def)
  then have "level_ok (level3 (v3_power st r (lte_step p s)))" for st p
    using assms by (simp add: v3_power_def usb_power_off_v3_def usb_power_on_v3_def Let_def)
  moreover have "level_ok (level3 s) \<Longrightarrow> level_ok (level3 (v3_voltage c s))" for c s
    using level_v3_range by (simp add: v3_voltage_def level_ok_def Let_def split: prod.split)
  ultimately show ?thesis
    by (simp add: v3_pass_def Let_def)
qed

text \<open>C31: whatever the hardware answers and whatever maximum was saved, the battery level that is reported
  is a percentage, or -1 for a missing battery.\<close>

theorem battery_level_bounds:
  "level_ok (level_file (fold (v2_pass sv) rs (v2_init saved))) \<and> level_ok (level3 (fold v3_pass rs3 v3_init))"
proof
  have init: "level_ok (level_file (v2_init saved))" "level_ok (level3 v3_init)"
    by (simp_all add: v2_init_def v3_init_def level_ok_def)
  show "level_ok (level_file (fold (v2_pass sv) rs (v2_init saved)))"
    by (rule fold_invariant [where Q = "\<lambda>_. True"]) (simp_all add: v2_pass_level init)
  show "level_ok (level3 (fold v3_pass rs3 v3_init))"
    by (rule fold_invariant [where Q = "\<lambda>_. True"]) (simp_all add: v3_pass_level init)
qed

section \<open>Restarting the LTE connection\<close>

text \<open>Passes to go until the connection is restarted, and the commands still to be given.\<close>

fun lte_todo :: "lte_restart_state \<Rightarrow> nat \<times> string list" where
  "lte_todo IDLE = (0, [])"
| "lte_todo START = (5, [''disconnect'', ''connect''])"
| "lte_todo START_WAIT = (4, [''disconnect'', ''connect''])"
| "lte_todo DISCONNECT = (3, [''disconnect'', ''connect''])"
| "lte_todo DISCONNECT_WAIT = (2, [''connect''])"
| "lte_todo RECONNECT = (1, [''connect''])"

text \<open>No new change to battery power.\<close>

definition no_bounce :: "v3_state \<Rightarrow> v3_input \<Rightarrow> bool" where
  "no_bounce s r \<longleftrightarrow> lastState3 s AND VIN_PRESENT = 0 \<or> getBatteryState_v3 (charger r) AND VIN_PRESENT \<noteq> 0"

fun steady :: "v3_state \<Rightarrow> v3_input list \<Rightarrow> bool" where
  "steady s [] = True"
| "steady s (r # rs) \<longleftrightarrow> no_bounce s r \<and> steady (v3_pass r s) rs"

lemma v3_pass_lte:
  assumes "no_bounce s r"
  shows "lte_restart (v3_pass r s) = lte_restart (lte_step (dongle r) s)"
    "lte_control (v3_pass r s) = lte_control (lte_step (dongle r) s)"
  using assms by (simp_all add: v3_pass_fields v3_power_def no_bounce_def Let_def) auto

lemma lte_step_todo:
  assumes "dongle r"
  shows "fst (lte_todo (lte_restart (lte_step (dongle r) s))) = fst (lte_todo (lte_restart s)) - 1"
    "lte_control (lte_step (dongle r) s) @ snd (lte_todo (lte_restart (lte_step (dongle r) s))) =
      lte_control s @ snd (lte_todo (lte_restart s))"
  using assms by (cases "lte_restart s"; simp add: lte_step_def)+

lemma lte_run:
  assumes "steady s rs" "list_all dongle rs"
  shows "fst (lte_todo (lte_restart (fold v3_pass rs s))) = fst (lte_todo (lte_restart s)) - length rs \<and>
    lte_control (fold v3_pass rs s) @ snd (lte_todo (lte_restart (fold v3_pass rs s))) =
      lte_control s @ snd (lte_todo (lte_restart s))"
  using assms
proof (induction rs arbitrary: s)
  case (Cons r rs)
  then have "no_bounce s r" "dongle r"
    by simp_all
  then show ?case
    using Cons.IH [of "v3_pass r s"] Cons.prems v3_pass_lte [of s r] lte_step_todo [of r s] by simp
qed simp

lemma lte_todo_0: "fst (lte_todo st) = 0 \<longleftrightarrow> st = IDLE"
  by (cases st) simp_all

text \<open>C32: once the loss of power has started it, the restart of the LTE connection comes to its end: in five
  passes during which the modem is present and the power does not fail again, the daemon has told the LTE
  daemon to disconnect and then to connect, once each, and the machine is idle again.\<close>

theorem lte_restart_terminates:
  assumes "lte_restart s = START" "steady s rs" "list_all dongle rs" "5 \<le> length rs"
  shows "lte_restart (fold v3_pass rs s) = IDLE \<and>
    lte_control (fold v3_pass rs s) = lte_control s @ [''disconnect'', ''connect'']"
proof -
  have "fst (lte_todo (lte_restart (fold v3_pass rs s))) = 0"
    using lte_run [OF assms(2,3)] assms(1,4) by simp
  then have idle: "lte_restart (fold v3_pass rs s) = IDLE"
    by (simp only: lte_todo_0)
  then show ?thesis
    using conjunct2 [OF lte_run [OF assms(2,3)]] assms(1) by simp
qed

theorem lte_restart_terminates_witness:
  "let s = v3_pass (sample_v3 0 True True) v3_init; s' = fold v3_pass (replicate 5 (sample_v3 0 True False)) s in
   lte_restart s = START \<and> lte_restart s' = IDLE \<and> lte_control s' = [''disconnect'', ''connect'']"
proof -
  let ?s = "v3_pass (sample_v3 0 True True) v3_init" and ?r = "sample_v3 0 True False"
  have start: "lte_restart ?s = START" "lte_control ?s = []" "lastState3 ?s = 0"
    by (simp_all add: v3_pass_fields v3_init_def sample_v3_def lte_step_def v3_power_def getBatteryState_v3_def
        read_reg_def)
  have last: "lastState3 (v3_pass ?r s) = 0" for s
    by (simp add: v3_pass_fields sample_v3_def getBatteryState_v3_def read_reg_def)
  have "steady s (replicate n ?r)" if "lastState3 s = 0" for n s
    using that by (induction n arbitrary: s) (simp_all add: no_bounce_def last)
  then show ?thesis
    using lte_restart_terminates [of ?s "replicate 5 ?r"] start
    by (simp add: Let_def list_all_iff sample_v3_def)
qed

end
