(* ===== verification/WifiScan.thy ===== *)
theory WifiScan
  imports IrisLib "HOL-Library.Signed_Division"
begin

text \<open>
  The WiFi scan, \<^verbatim>\<open>iris-utils/files/wifi_scan.c\<close>: it reads the lines that \<^verbatim>\<open>iwlist\<close> prints and writes the
  networks it finds as JSON. The lines are a parameter. The result \<open>None\<close> stands for a run that reads or
  writes outside of a string or array, or divides by zero.
\<close>

section \<open>Text\<close>

text \<open>The offset of the first occurrence of a text.\<close>

fun find_sub :: "string \<Rightarrow> string \<Rightarrow> nat option" where
  "find_sub key [] = (if key = [] then Some 0 else None)"
| "find_sub key (c # cs) = (if take (length key) (c # cs) = key then Some 0 else map_option Suc (find_sub key cs))"

text \<open>\<^verbatim>\<open>strstr(s, key) != NULL\<close>, and the text behind the first occurrence.\<close>

definition contains :: "string \<Rightarrow> string \<Rightarrow> bool" where
  "contains s key \<longleftrightarrow> find_sub key s \<noteq> None"

definition text_after :: "string \<Rightarrow> string \<Rightarrow> string option" where
  "text_after s key = map_option (\<lambda>n. drop (n + length key) s) (find_sub key s)"

definition quoted :: "string \<Rightarrow> string" where
  "quoted s = CHR 0x22 # s @ [CHR 0x22]"

definition dec_text :: "int \<Rightarrow> string" where
  "dec_text i = map (\<lambda>c. char_of (unat c)) (dec_str i)"

abbreviation (input) BACKSLASH :: char where "BACKSLASH \<equiv> CHR 0x5C"
abbreviation (input) LF :: char where "LF \<equiv> CHR 0x0A"

section \<open>Printing a network\<close>

record cell =
  ssid :: string
  mode :: string
  security :: "string list"
  wepauth :: string
  encryption :: string
  channel :: int
  signal :: int

fun escape :: "string \<Rightarrow> string" where
  "escape [] = []"
| "escape (c # cs) = (if c = BACKSLASH \<or> c = CHR 0x22 then [BACKSLASH, c] else [c]) @ escape cs"

fun comma_list :: "string list \<Rightarrow> string" where
  "comma_list [] = []"
| "comma_list [s] = s"
| "comma_list (s # ss) = s @ '','' @ comma_list ss"

definition single_security :: "string \<Rightarrow> string" where
  "single_security securityList =
    (if contains securityList ''WPA2'' then ''WPA2-PSK''
     else if contains securityList ''WPA'' then ''WPA-PSK''
     else if contains securityList ''WEP'' then ''WEP''
     else ''None'')"

definition json_item :: "string \<Rightarrow> string \<Rightarrow> string" where
  "json_item name val = quoted name @ '':'' @ val"

definition short_entry :: "cell \<Rightarrow> string" where
  "short_entry c =
    ''{'' @ json_item ''ssid'' (quoted (escape (ssid c))) @ '', '' @
    json_item ''security'' (quoted (single_security (comma_list (security c)))) @ '', '' @
    json_item ''channel'' (dec_text (channel c)) @ '', '' @ json_item ''signal'' (dec_text (signal c)) @ ''}''"

definition full_entry :: "cell \<Rightarrow> string" where
  "full_entry c =
    ''{'' @ json_item ''ssid'' (quoted (escape (ssid c))) @ '', '' @ json_item ''mode'' (quoted (mode c)) @ '', '' @
    json_item ''security'' (''['' @ comma_list (security c) @ '']'') @ '', '' @
    json_item ''wepauth'' (quoted (wepauth c)) @ '', '' @ json_item ''encryption'' (quoted (encryption c)) @ '', '' @
    json_item ''channel'' (dec_text (channel c)) @ '', '' @ json_item ''signal'' (dec_text (signal c)) @ '', '' @
    json_item ''wps'' (quoted ''No'') @ ''}''"

text \<open>The escaped name goes to a buffer of 65 characters. The result is the new value of \<^verbatim>\<open>firstSSID\<close> and what
  is printed.\<close>

definition printSSIDData :: "bool \<Rightarrow> bool \<Rightarrow> cell \<Rightarrow> (bool \<times> string) option" where
  "printSSIDData trunc firstSSID c =
    (if take 4 (ssid c) = BACKSLASH # ''x00'' then Some (firstSSID, '''')
     else if length (escape (ssid c)) > 64 then None
     else Some (False, (if firstSSID then '''' else '','') @ (if trunc then short_entry c else full_entry c)))"

section \<open>Reading the networks\<close>

text \<open>Quality is two digits, a slash and two digits.\<close>

definition scan_signal :: "string \<Rightarrow> int option" where
  "scan_signal line =
    (case text_after line ''Quality='' of
       None \<Rightarrow> Some 0
     | Some p \<Rightarrow>
         (let d = atoi (str (take 2 (drop 3 p))) in
          if length p < 5 \<or> d = 0 then None else Some ((atoi (str (take 2 p)) * 100) sdiv d)))"

definition scan_ssid :: "string \<Rightarrow> string option" where
  "scan_ssid line =
    (case text_after line ''ESSID:'' of
       None \<Rightarrow> Some ''''
     | Some p \<Rightarrow>
         (if length p < 3 \<or> length p - 3 \<ge> 64 then None else Some (take (length p - 3) (drop 1 p))))"

definition scan_channel :: "string \<Rightarrow> int" where
  "scan_channel line = (case text_after line ''Channel:'' of None \<Rightarrow> 0 | Some p \<Rightarrow> atoi (str p))"

text \<open>The lines of a network up to its name: the network, its last line and the lines that follow; or the
  end of the output.\<close>

datatype head = Crashed | Ended | Head cell string "string list"

definition cell_head :: "string list \<Rightarrow> head" where
  "cell_head ls =
    (case ls of
       chan # freq # qual # ls \<Rightarrow>
         (case scan_signal qual of
            None \<Rightarrow> Crashed
          | Some sig \<Rightarrow>
              (case ls of
                 enc # essid # ls \<Rightarrow>
                   (case scan_ssid essid of
                      None \<Rightarrow> Crashed
                    | Some s \<Rightarrow>
                        (let open_net = contains enc ''off'' in
                         Head \<lparr>ssid = s, mode = ''N/A'', security = (if open_net then [quoted ''None''] else []),
                               wepauth = (if open_net then ''Unknown'' else ''N/A''),
                               encryption = (if open_net then ''None'' else ''N/A''),
                               channel = scan_channel chan, signal = sig\<rparr> essid ls))
               | _ \<Rightarrow> Ended))
     | _ \<Rightarrow> Ended)"

fun until_mode :: "string \<Rightarrow> string list \<Rightarrow> string \<times> string list" where
  "until_mode line [] = (line, [])"
| "until_mode line (l # ls) = (if contains l ''Mode:'' then (l, ls) else until_mode l ls)"

text \<open>The array of security names has ten elements.\<close>

definition add_security :: "string \<Rightarrow> string \<Rightarrow> cell \<Rightarrow> cell option" where
  "add_security name enc c =
    (if length (security c) \<ge> 10 then None
     else Some (c\<lparr>security := security c @ [quoted name], encryption := enc\<rparr>))"

text \<open>The elements that tell the encryption, up to the next network. After the line of WPA 1 the next one is
  read as well, if there is one.\<close>

definition wpa_encryption :: "string \<Rightarrow> string list \<Rightarrow> string" where
  "wpa_encryption l ls = (if contains (case ls of [] \<Rightarrow> l | n # _ \<Rightarrow> n) ''TPIK'' then ''TPIK'' else ''AES'')"

fun ie_loop :: "cell \<Rightarrow> string list \<Rightarrow> (cell \<times> string list) option" where
  "ie_loop c [] = Some (c, [])"
| "ie_loop c (l # ls) =
    (if contains l ''Cell '' then
       Some (if security c = [] then c\<lparr>security := [quoted ''WEP''], wepauth := ''OpenSystem'', encryption := ''WEP''\<rparr> else c, l # ls)
     else if contains l ''IE: '' then
       (if contains l ''WPA Version 1'' then
          (case add_security ''WPA-PSK'' (wpa_encryption l ls) (c\<lparr>wepauth := ''OpenSystem''\<rparr>) of
             None \<Rightarrow> None
           | Some c \<Rightarrow> (case ls of [] \<Rightarrow> Some (c, []) | n # ls' \<Rightarrow> ie_loop c ls'))
        else if contains l ''WPA2'' then
          (case add_security ''WPA2-PSK'' ''AES+TPIK'' (c\<lparr>wepauth := ''OpenSystem''\<rparr>) of None \<Rightarrow> None | Some c \<Rightarrow> ie_loop c ls)
        else ie_loop (c\<lparr>wepauth := ''OpenSystem''\<rparr>) ls)
     else ie_loop c ls)"

lemma cell_head_shorter: "cell_head ls = Head c line rest \<Longrightarrow> length rest < length ls"
  by (auto simp: cell_head_def Let_def split: list.splits option.splits)

lemma until_mode_shorter: "until_mode line ls = (line', rest) \<Longrightarrow> length rest \<le> length ls"
  by (induction line ls rule: until_mode.induct) (auto split: if_splits)

lemma ie_loop_shorter: "ie_loop c ls = Some (c', rest) \<Longrightarrow> length rest \<le> length ls"
  by (induction c ls rule: ie_loop.induct) (auto split: if_splits option.splits list.splits intro: le_SucI)

function scan_cells :: "bool \<Rightarrow> bool \<Rightarrow> string list \<Rightarrow> string option" where
  "scan_cells trunc first [] = Some ''''"
| "scan_cells trunc first (l # ls) =
    (if \<not> contains l ''Cell '' then scan_cells trunc first ls
     else
       (case cell_head ls of
          Crashed \<Rightarrow> None
        | Ended \<Rightarrow> Some ''''
        | Head c line rest \<Rightarrow>
            (case until_mode line rest of
               (line, rest) \<Rightarrow>
                 (let c = c\<lparr>mode := if contains line ''Master'' then ''Infrastructure'' else ''Ad-hoc''\<rparr> in
                  case (if security c = [] then ie_loop c rest else Some (c, rest)) of
                    None \<Rightarrow> None
                  | Some (c, rest) \<Rightarrow>
                      (case printSSIDData trunc first c of
                         None \<Rightarrow> None
                       | Some (first, shown) \<Rightarrow> map_option (\<lambda>out. shown @ out) (scan_cells trunc first rest))))))"
  by pat_completeness auto

termination
  by (relation "measure (\<lambda>(trunc, first, ls). length ls)")
    (auto dest!: cell_head_shorter until_mode_shorter [OF sym] ie_loop_shorter split: if_splits)

datatype scan_opt = ScanTrunc | ScanHelp | ScanUnknown

fun scan_options :: "scan_opt list \<Rightarrow> bool \<Rightarrow> nat + bool" where
  "scan_options [] trunc = Inr trunc"
| "scan_options (ScanTrunc # opts) trunc = scan_options opts True"
| "scan_options (ScanHelp # opts) trunc = Inl 0"
| "scan_options (ScanUnknown # opts) trunc = Inl 1"

definition SCAN_START_TEXT :: string where
  "SCAN_START_TEXT = ''{'' @ quoted ''scanresults'' @ '':'' @ [LF] @ ''[''"

definition SCAN_END_TEXT :: string where
  "SCAN_END_TEXT = '']}'' @ [LF]"

text \<open>\<open>iwlist\<close> is the output of the command, if it could be run.\<close>

definition wifi_scan_main :: "scan_opt list \<Rightarrow> string list option \<Rightarrow> (nat \<times> string) option" where
  "wifi_scan_main opts iwlist =
    (case scan_options opts False of
       Inl code \<Rightarrow> Some (code, '''')
     | Inr trunc \<Rightarrow>
         map_option (\<lambda>out. (0, SCAN_START_TEXT @ out @ SCAN_END_TEXT))
           (case iwlist of None \<Rightarrow> Some '''' | Some ls \<Rightarrow> scan_cells trunc True ls))"

section \<open>What is printed\<close>

text \<open>The text every entry starts with.\<close>

definition SSID_KEY :: string where
  "SSID_KEY = ''{'' @ quoted ''ssid'' @ '':''"

definition scan_doc :: "string list \<Rightarrow> string" where
  "scan_doc es = SCAN_START_TEXT @ comma_list es @ SCAN_END_TEXT"

text \<open>A text in which the key does not start.\<close>

fun no_key :: "string \<Rightarrow> bool" where
  "no_key [] = True"
| "no_key (c # cs) =
    ((c = CHR ''{'' \<longrightarrow> (case cs of a # b # d # _ \<Rightarrow> \<not> (a = CHR 0x22 \<and> b = CHR ''s'' \<and> d = CHR ''s'') | _ \<Rightarrow> False)) \<and> no_key cs)"

definition entry_ok :: "string \<Rightarrow> bool" where
  "entry_ok e \<longleftrightarrow> (\<exists>body. e = SSID_KEY @ body @ ''}'' \<and> no_key (body @ ''}''))"

lemma no_key_append: "no_key x \<Longrightarrow> no_key y \<Longrightarrow> no_key (x @ y)"
  by (induction x rule: no_key.induct) (auto split: list.splits)

lemma no_key_plain: "CHR ''{'' \<notin> set x \<Longrightarrow> no_key x"
  by (induction x) auto

lemma no_key_escape:
  assumes "no_key y" "y = CHR 0x22 # CHR '','' # w # z"
  shows "no_key (escape s @ y)"
proof (induction s)
  case (Cons c cs)
  obtain a b d r where *: "escape cs @ y = a # b # d # r"
    using assms(2) by (cases "escape cs"; cases "tl (escape cs)"; cases "tl (tl (escape cs))") auto
  then have "\<not> (a = CHR 0x22 \<and> b = CHR ''s'')"
    using assms(2) by (cases cs) (auto split: if_splits)
  then show ?case
    using Cons * by auto
qed (simp add: assms(1))

lemma find_sub_skip: "no_key x \<Longrightarrow> find_sub SSID_KEY (x @ y) = map_option (\<lambda>n. length x + n) (find_sub SSID_KEY y)"
proof (induction x)
  case (Cons c cs)
  have "take (length SSID_KEY) ((c # cs) @ y) \<noteq> SSID_KEY"
    using Cons.prems by (auto simp: SSID_KEY_def quoted_def split: list.splits)
  moreover have "find_sub SSID_KEY (cs @ y) = map_option (\<lambda>n. length cs + n) (find_sub SSID_KEY y)"
    using Cons by auto
  ultimately show ?case
    by (simp add: option.map_comp comp_def)
qed (simp add: option.map_ident_strong)

lemma find_sub_here: "find_sub SSID_KEY (SSID_KEY @ y) = Some 0"
  by (cases "SSID_KEY @ y") (simp_all add: SSID_KEY_def quoted_def)

lemma set_dec_text: "CHR ''{'' \<notin> set (dec_text i)"
proof -
  have "is_digit c \<or> c = 45" if "c \<in> set (dec_str i)" for c
    using that nat_digits_digit by (auto simp: dec_str_def split: if_splits)
  moreover have "char_of (unat c) \<noteq> CHR ''{''" if "is_digit c \<or> c = 45" for c :: u8
  proof
    assume "char_of (unat c) = CHR ''{''"
    then have "(of_char (char_of (unat c)) :: nat) = 123"
      by simp
    then have "unat c mod 256 = 123"
      by simp
    then show False
      using that unat_u8_less [of c] by (auto simp: is_digit_def word_le_nat_alt)
  qed
  ultimately have "char_of (unat c) \<noteq> CHR ''{''" if "c \<in> set (dec_str i)" for c
    using that by blast
  then show ?thesis
    unfolding dec_text_def set_map by (metis (no_types, lifting) imageE)
qed

lemma single_security_cases: "single_security s \<in> {''WPA2-PSK'', ''WPA-PSK'', ''WEP'', ''None''}"
  by (simp add: single_security_def)

lemma short_entry_ok: "entry_ok (short_entry c)"
proof -
  define z where "z = json_item ''security'' (quoted (single_security (comma_list (security c)))) @ '', '' @
    json_item ''channel'' (dec_text (channel c)) @ '', '' @ json_item ''signal'' (dec_text (signal c))"
  have e: "short_entry c = SSID_KEY @ (CHR 0x22 # escape (ssid c) @ CHR 0x22 # CHR '','' # CHR '' '' # z) @ ''}''"
    by (simp add: short_entry_def json_item_def quoted_def z_def SSID_KEY_def)
  have "CHR ''{'' \<notin> set (single_security (comma_list (security c)))"
    using single_security_cases [of "comma_list (security c)"] by auto
  then have "CHR ''{'' \<notin> set (CHR 0x22 # CHR '','' # CHR '' '' # z @ ''}'')"
    using set_dec_text by (simp add: z_def json_item_def quoted_def)
  then have "no_key (escape (ssid c) @ CHR 0x22 # CHR '','' # CHR '' '' # z @ ''}'')"
    by (intro no_key_escape [OF no_key_plain]) auto
  then have "no_key ((CHR 0x22 # escape (ssid c) @ CHR 0x22 # CHR '','' # CHR '' '' # z) @ ''}'')"
    by simp
  then show ?thesis
    unfolding entry_ok_def e by blast
qed

lemma length_nat_digits: "n < 1000 \<Longrightarrow> length (nat_digits n) \<le> 3"
proof -
  have 1: "length (nat_digits n) = 1" if "n < 10" for n
    using that by (subst nat_digits.simps) simp
  have 2: "length (nat_digits n) \<le> 2" if "n < 100" for n
    using that 1 [of "n div 10"] 1 [of n] by (subst nat_digits.simps) simp
  show "n < 1000 \<Longrightarrow> length (nat_digits n) \<le> 3"
    using 2 [of "n div 10"] by (subst nat_digits.simps) simp
qed

lemma length_dec_text: "0 \<le> i \<Longrightarrow> i < 1000 \<Longrightarrow> length (dec_text i) \<le> 3"
  using length_nat_digits [of "nat i"] by (simp add: dec_text_def dec_str_def)

lemma length_escape: "length (escape s) \<le> 2 * length s"
  by (induction s) auto

lemma length_short_entry: "length (short_entry c) =
    length (escape (ssid c)) + length (single_security (comma_list (security c))) +
    length (dec_text (channel c)) + length (dec_text (signal c)) + 49"
  by (simp add: short_entry_def json_item_def quoted_def)

lemma comma_list_Cons: "comma_list (s # ss) = s @ (if ss = [] then '''' else '','' @ comma_list ss)"
  by (cases ss) auto

text \<open>What the loop prints is a list of entries.\<close>

definition cell_entry :: "bool \<Rightarrow> cell \<Rightarrow> string" where
  "cell_entry trunc c = (if trunc then short_entry c else full_entry c)"

definition name_fits :: "cell \<Rightarrow> bool" where
  "name_fits c \<longleftrightarrow> length (escape (ssid c)) \<le> 64"

lemma printSSIDData_shown:
  assumes "printSSIDData trunc first c = Some (first', shown)" "take 4 (ssid c) \<noteq> BACKSLASH # ''x00''"
  shows "\<not> first' \<and> name_fits c \<and> shown = (if first then '''' else '','') @ cell_entry trunc c"
  using assms by (auto simp: printSSIDData_def name_fits_def cell_entry_def split: if_splits)

lemma scan_cells_entries:
  "scan_cells trunc first ls = Some out \<Longrightarrow>
    \<exists>cs. list_all name_fits cs \<and>
      out = (if first \<or> cs = [] then '''' else '','') @ comma_list (map (cell_entry trunc) cs)"
proof (induction trunc first ls arbitrary: out rule: scan_cells.induct)
  case (1 trunc first)
  then show ?case
    by (intro exI [of _ "[]"]) simp
next
  case (2 trunc first l ls)
  show ?case
  proof (cases "contains l ''Cell ''")
    case False
    then show ?thesis
      using 2 by simp
  next
    case True
    show ?thesis
    proof (cases "cell_head ls")
      case Ended
      then show ?thesis
        using 2 True by (intro exI [of _ "[]"]) simp
    next
      case (Head c line rest)
      obtain line' rest' where m: "until_mode line rest = (line', rest')"
        by fastforce
      define c1 where "c1 = c\<lparr>mode := if contains line' ''Master'' then ''Infrastructure'' else ''Ad-hoc''\<rparr>"
      have eq: "scan_cells trunc first (l # ls) =
          (case (if security c1 = [] then ie_loop c1 rest' else Some (c1, rest')) of
             None \<Rightarrow> None
           | Some (c, rest) \<Rightarrow>
               (case printSSIDData trunc first c of
                  None \<Rightarrow> None
                | Some (first, shown) \<Rightarrow> map_option (\<lambda>out. shown @ out) (scan_cells trunc first rest)))"
        using True Head m by (simp add: c1_def Let_def)
      obtain c2 rest2 where ie: "(if security c1 = [] then ie_loop c1 rest' else Some (c1, rest')) = Some (c2, rest2)"
        using "2.prems" unfolding eq by (cases "if security c1 = [] then ie_loop c1 rest' else Some (c1, rest')") auto
      obtain first' shown where pr: "printSSIDData trunc first c2 = Some (first', shown)"
        using "2.prems" unfolding eq ie by (cases "printSSIDData trunc first c2") auto
      obtain out2 where more: "scan_cells trunc first' rest2 = Some out2" "out = shown @ out2"
        using "2.prems" unfolding eq ie by (auto simp: pr)
      obtain cs where cs: "list_all name_fits cs" "out2 = (if first' \<or> cs = [] then '''' else '','') @ comma_list (map (cell_entry trunc) cs)"
        using "2.IH"(2) [OF _ Head m [symmetric] c1_def ie refl pr refl more(1)] True by auto
      show ?thesis
      proof (cases "take 4 (ssid c2) = BACKSLASH # ''x00''")
        case True
        then show ?thesis
          using pr cs more(2) by (intro exI [of _ cs]) (simp add: printSSIDData_def)
      next
        case False
        then show ?thesis
          using printSSIDData_shown [OF pr] cs more(2) by (intro exI [of _ "c2 # cs"]) (simp add: comma_list_Cons)
      qed
    qed (use 2 True in simp)
  qed
qed

lemma wifi_scan_doc:
  assumes "wifi_scan_main opts iwlist = Some (0, out)" "scan_options opts False = Inr trunc"
  shows "\<exists>cs. list_all name_fits cs \<and> out = scan_doc (map (cell_entry trunc) cs)"
proof (cases iwlist)
  case None
  then show ?thesis
    using assms by (intro exI [of _ "[]"]) (simp add: wifi_scan_main_def scan_doc_def)
next
  case (Some ls)
  then obtain body where "scan_cells trunc True ls = Some body" "out = SCAN_START_TEXT @ body @ SCAN_END_TEXT"
    using assms by (auto simp: wifi_scan_main_def)
  then show ?thesis
    using scan_cells_entries [of trunc True ls body] by (auto simp: scan_doc_def)
qed

section \<open>The printed names\<close>

text \<open>How a JSON reader gets a string, up to its closing quote.\<close>

fun json_string :: "string \<Rightarrow> (string \<times> string) option" where
  "json_string [] = None"
| "json_string (c # cs) =
    (if c = CHR 0x22 then Some ('''', cs)
     else if c = BACKSLASH then (case cs of [] \<Rightarrow> None | d # ds \<Rightarrow> map_option (\<lambda>(s, r). (d # s, r)) (json_string ds))
     else map_option (\<lambda>(s, r). (c # s, r)) (json_string cs))"

lemma json_string_escape: "json_string (escape s @ CHR 0x22 # rest) = Some (s, rest)"
  by (induction s) auto

lemma cell_entry_name:
  "\<exists>rest. cell_entry trunc c = SSID_KEY @ CHR 0x22 # escape (ssid c) @ CHR 0x22 # rest"
  by (simp add: cell_entry_def short_entry_def full_entry_def json_item_def quoted_def SSID_KEY_def)

definition entry_name :: "string \<Rightarrow> string option" where
  "entry_name e = map_option fst (json_string (drop (length SSID_KEY + 1) e))"

lemma entry_name: "entry_name (cell_entry trunc c) = Some (ssid c)"
proof -
  obtain rest where "cell_entry trunc c = SSID_KEY @ CHR 0x22 # escape (ssid c) @ CHR 0x22 # rest"
    using cell_entry_name by blast
  then show ?thesis
    using json_string_escape [of "ssid c" rest] by (simp add: entry_name_def)
qed


definition sample_lines :: "string list" where
  "sample_lines =
    [''Cell 01 - Address: 00:11:22:33:44:55'', ''Channel:6'', ''Frequency:2.437 GHz'', ''Quality=35/70  Signal'',
     ''Encryption key:on'', ''ESSID:'' @ quoted (''a'' @ CHR 0x22 # ''b'') @ [LF], ''Bit Rates:54 Mb/s'', ''Mode:Master'',
     ''IE: IEEE 802.11i/WPA2 Version 1'',
     ''Cell 02 - Address: 00:11:22:33:44:56'', ''Channel:11'', ''Frequency:2.462 GHz'', ''Quality=70/70  Signal'',
     ''Encryption key:off'', ''ESSID:'' @ quoted ''guest'' @ [LF], ''Mode:Master'']"

definition sample_cells :: "cell list" where
  "sample_cells =
    [\<lparr>ssid = ''a'' @ CHR 0x22 # ''b'', mode = ''Infrastructure'', security = [quoted ''WPA2-PSK''], wepauth = ''OpenSystem'',
      encryption = ''AES+TPIK'', channel = 6, signal = 50\<rparr>,
     \<lparr>ssid = ''guest'', mode = ''Infrastructure'', security = [quoted ''None''], wepauth = ''Unknown'',
      encryption = ''None'', channel = 11, signal = 100\<rparr>]"

lemma sample_scan:
  "wifi_scan_main [ScanTrunc] (Some sample_lines) = Some (0, scan_doc (map (cell_entry True) sample_cells))"
  by code_simp


end
