(* ===== verification/Aes.thy ===== *)
theory Aes
  imports Prelude
begin

text \<open>
  The AES-128 block cipher and its ECB, CBC and CTR modes, from
  \<^verbatim>\<open>iris-lib/files/aes.c\<close> (built with \<^verbatim>\<open>AES128\<close>).
  \<^verbatim>\<open>state_t\<close> is \<^verbatim>\<open>uint8_t[4][4]\<close> laid over the caller's 16 byte
  buffer, so the model keeps the buffer as a list of 16 bytes and reads
  \<^verbatim>\<open>(*state)[i][j]\<close> at index \<open>4 * i + j\<close>. The modes are developed once
  over an abstract block cipher (locale \<open>block_cipher\<close>) and interpreted on
  \<open>Cipher\<close> and \<open>InvCipher\<close>.
\<close>

section \<open>Tables and parameters\<close>

abbreviation (input) Nb :: nat where "Nb \<equiv> 4"
abbreviation (input) Nk :: nat where "Nk \<equiv> 4"
abbreviation (input) Nr :: nat where "Nr \<equiv> 10"
abbreviation (input) AES_BLOCKLEN :: nat where "AES_BLOCKLEN \<equiv> 16"
abbreviation (input) AES_keyExpSize :: nat where "AES_keyExpSize \<equiv> 176"

definition sbox :: bytes where
  "sbox =
    [0x63, 0x7c, 0x77, 0x7b, 0xf2, 0x6b, 0x6f, 0xc5, 0x30, 0x01, 0x67, 0x2b, 0xfe, 0xd7, 0xab, 0x76,
     0xca, 0x82, 0xc9, 0x7d, 0xfa, 0x59, 0x47, 0xf0, 0xad, 0xd4, 0xa2, 0xaf, 0x9c, 0xa4, 0x72, 0xc0,
     0xb7, 0xfd, 0x93, 0x26, 0x36, 0x3f, 0xf7, 0xcc, 0x34, 0xa5, 0xe5, 0xf1, 0x71, 0xd8, 0x31, 0x15,
     0x04, 0xc7, 0x23, 0xc3, 0x18, 0x96, 0x05, 0x9a, 0x07, 0x12, 0x80, 0xe2, 0xeb, 0x27, 0xb2, 0x75,
     0x09, 0x83, 0x2c, 0x1a, 0x1b, 0x6e, 0x5a, 0xa0, 0x52, 0x3b, 0xd6, 0xb3, 0x29, 0xe3, 0x2f, 0x84,
     0x53, 0xd1, 0x00, 0xed, 0x20, 0xfc, 0xb1, 0x5b, 0x6a, 0xcb, 0xbe, 0x39, 0x4a, 0x4c, 0x58, 0xcf,
     0xd0, 0xef, 0xaa, 0xfb, 0x43, 0x4d, 0x33, 0x85, 0x45, 0xf9, 0x02, 0x7f, 0x50, 0x3c, 0x9f, 0xa8,
     0x51, 0xa3, 0x40, 0x8f, 0x92, 0x9d, 0x38, 0xf5, 0xbc, 0xb6, 0xda, 0x21, 0x10, 0xff, 0xf3, 0xd2,
     0xcd, 0x0c, 0x13, 0xec, 0x5f, 0x97, 0x44, 0x17, 0xc4, 0xa7, 0x7e, 0x3d, 0x64, 0x5d, 0x19, 0x73,
     0x60, 0x81, 0x4f, 0xdc, 0x22, 0x2a, 0x90, 0x88, 0x46, 0xee, 0xb8, 0x14, 0xde, 0x5e, 0x0b, 0xdb,
     0xe0, 0x32, 0x3a, 0x0a, 0x49, 0x06, 0x24, 0x5c, 0xc2, 0xd3, 0xac, 0x62, 0x91, 0x95, 0xe4, 0x79,
     0xe7, 0xc8, 0x37, 0x6d, 0x8d, 0xd5, 0x4e, 0xa9, 0x6c, 0x56, 0xf4, 0xea, 0x65, 0x7a, 0xae, 0x08,
     0xba, 0x78, 0x25, 0x2e, 0x1c, 0xa6, 0xb4, 0xc6, 0xe8, 0xdd, 0x74, 0x1f, 0x4b, 0xbd, 0x8b, 0x8a,
     0x70, 0x3e, 0xb5, 0x66, 0x48, 0x03, 0xf6, 0x0e, 0x61, 0x35, 0x57, 0xb9, 0x86, 0xc1, 0x1d, 0x9e,
     0xe1, 0xf8, 0x98, 0x11, 0x69, 0xd9, 0x8e, 0x94, 0x9b, 0x1e, 0x87, 0xe9, 0xce, 0x55, 0x28, 0xdf,
     0x8c, 0xa1, 0x89, 0x0d, 0xbf, 0xe6, 0x42, 0x68, 0x41, 0x99, 0x2d, 0x0f, 0xb0, 0x54, 0xbb, 0x16]"

definition rsbox :: bytes where
  "rsbox =
    [0x52, 0x09, 0x6a, 0xd5, 0x30, 0x36, 0xa5, 0x38, 0xbf, 0x40, 0xa3, 0x9e, 0x81, 0xf3, 0xd7, 0xfb,
     0x7c, 0xe3, 0x39, 0x82, 0x9b, 0x2f, 0xff, 0x87, 0x34, 0x8e, 0x43, 0x44, 0xc4, 0xde, 0xe9, 0xcb,
     0x54, 0x7b, 0x94, 0x32, 0xa6, 0xc2, 0x23, 0x3d, 0xee, 0x4c, 0x95, 0x0b, 0x42, 0xfa, 0xc3, 0x4e,
     0x08, 0x2e, 0xa1, 0x66, 0x28, 0xd9, 0x24, 0xb2, 0x76, 0x5b, 0xa2, 0x49, 0x6d, 0x8b, 0xd1, 0x25,
     0x72, 0xf8, 0xf6, 0x64, 0x86, 0x68, 0x98, 0x16, 0xd4, 0xa4, 0x5c, 0xcc, 0x5d, 0x65, 0xb6, 0x92,
     0x6c, 0x70, 0x48, 0x50, 0xfd, 0xed, 0xb9, 0xda, 0x5e, 0x15, 0x46, 0x57, 0xa7, 0x8d, 0x9d, 0x84,
     0x90, 0xd8, 0xab, 0x00, 0x8c, 0xbc, 0xd3, 0x0a, 0xf7, 0xe4, 0x58, 0x05, 0xb8, 0xb3, 0x45, 0x06,
     0xd0, 0x2c, 0x1e, 0x8f, 0xca, 0x3f, 0x0f, 0x02, 0xc1, 0xaf, 0xbd, 0x03, 0x01, 0x13, 0x8a, 0x6b,
     0x3a, 0x91, 0x11, 0x41, 0x4f, 0x67, 0xdc, 0xea, 0x97, 0xf2, 0xcf, 0xce, 0xf0, 0xb4, 0xe6, 0x73,
     0x96, 0xac, 0x74, 0x22, 0xe7, 0xad, 0x35, 0x85, 0xe2, 0xf9, 0x37, 0xe8, 0x1c, 0x75, 0xdf, 0x6e,
     0x47, 0xf1, 0x1a, 0x71, 0x1d, 0x29, 0xc5, 0x89, 0x6f, 0xb7, 0x62, 0x0e, 0xaa, 0x18, 0xbe, 0x1b,
     0xfc, 0x56, 0x3e, 0x4b, 0xc6, 0xd2, 0x79, 0x20, 0x9a, 0xdb, 0xc0, 0xfe, 0x78, 0xcd, 0x5a, 0xf4,
     0x1f, 0xdd, 0xa8, 0x33, 0x88, 0x07, 0xc7, 0x31, 0xb1, 0x12, 0x10, 0x59, 0x27, 0x80, 0xec, 0x5f,
     0x60, 0x51, 0x7f, 0xa9, 0x19, 0xb5, 0x4a, 0x0d, 0x2d, 0xe5, 0x7a, 0x9f, 0x93, 0xc9, 0x9c, 0xef,
     0xa0, 0xe0, 0x3b, 0x4d, 0xae, 0x2a, 0xf5, 0xb0, 0xc8, 0xeb, 0xbb, 0x3c, 0x83, 0x53, 0x99, 0x61,
     0x17, 0x2b, 0x04, 0x7e, 0xba, 0x77, 0xd6, 0x26, 0xe1, 0x69, 0x14, 0x63, 0x55, 0x21, 0x0c, 0x7d]"

definition Rcon :: bytes where
  "Rcon = [0x8d, 0x01, 0x02, 0x04, 0x08, 0x10, 0x20, 0x40, 0x80, 0x1b, 0x36]"

definition getSBoxValue :: "u8 \<Rightarrow> u8" where
  "getSBoxValue num = sbox ! unat num"

definition getSBoxInvert :: "u8 \<Rightarrow> u8" where
  "getSBoxInvert num = rsbox ! unat num"

section \<open>Key schedule\<close>

text \<open>\<open>store4 buf j ws\<close> is the group of four assignments \<^verbatim>\<open>buf[j+0] = ..; .. buf[j+3] = ..\<close>.\<close>

definition store4 :: "bytes \<Rightarrow> nat \<Rightarrow> bytes \<Rightarrow> bytes" where
  "store4 buf j ws = buf[j := ws ! 0, j + 1 := ws ! 1, j + 2 := ws ! 2, j + 3 := ws ! 3]"

definition load4 :: "bytes \<Rightarrow> nat \<Rightarrow> bytes" where
  "load4 buf k = [buf ! k, buf ! (k + 1), buf ! (k + 2), buf ! (k + 3)]"

text \<open>The body of the second loop of \<open>KeyExpansion\<close>, for the word with index \<open>i\<close>.\<close>

definition key_word :: "bytes \<Rightarrow> nat \<Rightarrow> bytes" where
  "key_word RoundKey i =
    (let tempa = load4 RoundKey ((i - 1) * 4);
         tempa = (if i mod Nk = 0
                  then (let r = [tempa ! 1, tempa ! 2, tempa ! 3, tempa ! 0];
                            s = map getSBoxValue r
                        in s[0 := s ! 0 XOR Rcon ! (i div Nk)])
                  else tempa)
     in xor_bytes (load4 RoundKey ((i - Nk) * 4)) tempa)"

definition KeyExpansion :: "bytes \<Rightarrow> bytes \<Rightarrow> bytes" where
  "KeyExpansion RoundKey Key =
    for_range Nk (Nb * (Nr + 1)) (\<lambda>i rk. store4 rk (i * 4) (key_word rk i))
      (for_range 0 Nk (\<lambda>i rk. store4 rk (i * 4) (load4 Key (i * 4))) RoundKey)"

section \<open>The round functions\<close>

definition AddRoundKey :: "nat \<Rightarrow> bytes \<Rightarrow> bytes \<Rightarrow> bytes" where
  "AddRoundKey round state RoundKey =
    map (\<lambda>(i, j). state ! (4 * i + j) XOR RoundKey ! ((round * Nb * 4) + (i * Nb) + j))
      (List.product [0..<4] [0..<4])"

lemma AddRoundKey_code [code]:
  "AddRoundKey round state RoundKey =
    map (\<lambda>(i, j). norm_word (state ! (4 * i + j) XOR RoundKey ! ((round * Nb * 4) + (i * Nb) + j)))
      (List.product [0..<4] [0..<4])"
  by (simp add: AddRoundKey_def)

definition SubBytes :: "bytes \<Rightarrow> bytes" where
  "SubBytes state = map getSBoxValue state"

definition InvSubBytes :: "bytes \<Rightarrow> bytes" where
  "InvSubBytes state = map getSBoxInvert state"

text \<open>The assignments of \<open>ShiftRows\<close> in their order: the row \<open>j\<close> of the state is at the
  indices \<open>j\<close>, \<open>4 + j\<close>, \<open>8 + j\<close>, \<open>12 + j\<close>.\<close>

definition ShiftRows :: "bytes \<Rightarrow> bytes" where
  "ShiftRows s =
    (let temp = s ! 1;
         s = s[1 := s ! 5]; s = s[5 := s ! 9]; s = s[9 := s ! 13]; s = s[13 := temp];
         temp = s ! 2;
         s = s[2 := s ! 10]; s = s[10 := temp];
         temp = s ! 6;
         s = s[6 := s ! 14]; s = s[14 := temp];
         temp = s ! 3;
         s = s[3 := s ! 15]; s = s[15 := s ! 11]; s = s[11 := s ! 7]; s = s[7 := temp]
     in s)"

definition InvShiftRows :: "bytes \<Rightarrow> bytes" where
  "InvShiftRows s =
    (let temp = s ! 13;
         s = s[13 := s ! 9]; s = s[9 := s ! 5]; s = s[5 := s ! 1]; s = s[1 := temp];
         temp = s ! 2;
         s = s[2 := s ! 10]; s = s[10 := temp];
         temp = s ! 6;
         s = s[6 := s ! 14]; s = s[14 := temp];
         temp = s ! 3;
         s = s[3 := s ! 7]; s = s[7 := s ! 11]; s = s[11 := s ! 15]; s = s[15 := temp]
     in s)"

definition xtime :: "u8 \<Rightarrow> u8" where
  "xtime x = push_bit 1 x XOR ((drop_bit 7 x AND 1) * 0x1b)"

definition Multiply :: "u8 \<Rightarrow> u8 \<Rightarrow> u8" where
  "Multiply x y =
    ((y AND 1) * x) XOR
    ((drop_bit 1 y AND 1) * xtime x) XOR
    ((drop_bit 2 y AND 1) * xtime (xtime x)) XOR
    ((drop_bit 3 y AND 1) * xtime (xtime (xtime x))) XOR
    ((drop_bit 4 y AND 1) * xtime (xtime (xtime (xtime x))))"

text \<open>One iteration of the column loops, on the column \<open>a, b, c, d\<close>.\<close>

definition mix_column :: "u8 \<Rightarrow> u8 \<Rightarrow> u8 \<Rightarrow> u8 \<Rightarrow> bytes" where
  "mix_column a b c d =
    (let t = a; Tmp = a XOR b XOR c XOR d
     in [a XOR (xtime (a XOR b) XOR Tmp),
         b XOR (xtime (b XOR c) XOR Tmp),
         c XOR (xtime (c XOR d) XOR Tmp),
         d XOR (xtime (d XOR t) XOR Tmp)])"

definition inv_mix_column :: "u8 \<Rightarrow> u8 \<Rightarrow> u8 \<Rightarrow> u8 \<Rightarrow> bytes" where
  "inv_mix_column a b c d =
    [Multiply a 0x0e XOR Multiply b 0x0b XOR Multiply c 0x0d XOR Multiply d 0x09,
     Multiply a 0x09 XOR Multiply b 0x0e XOR Multiply c 0x0b XOR Multiply d 0x0d,
     Multiply a 0x0d XOR Multiply b 0x09 XOR Multiply c 0x0e XOR Multiply d 0x0b,
     Multiply a 0x0b XOR Multiply b 0x0d XOR Multiply c 0x09 XOR Multiply d 0x0e]"

definition MixColumns :: "bytes \<Rightarrow> bytes" where
  "MixColumns s = concat (map (\<lambda>i. mix_column (s ! (4 * i)) (s ! (4 * i + 1)) (s ! (4 * i + 2)) (s ! (4 * i + 3))) [0..<4])"

definition InvMixColumns :: "bytes \<Rightarrow> bytes" where
  "InvMixColumns s = concat (map (\<lambda>i. inv_mix_column (s ! (4 * i)) (s ! (4 * i + 1)) (s ! (4 * i + 2)) (s ! (4 * i + 3))) [0..<4])"

section \<open>The cipher\<close>

definition cipher_round :: "bytes \<Rightarrow> nat \<Rightarrow> bytes \<Rightarrow> bytes" where
  "cipher_round RoundKey round state =
    AddRoundKey round (MixColumns (ShiftRows (SubBytes state))) RoundKey"

definition Cipher :: "bytes \<Rightarrow> bytes \<Rightarrow> bytes" where
  "Cipher state RoundKey =
    AddRoundKey Nr
      (ShiftRows (SubBytes (for_range 1 Nr (cipher_round RoundKey) (AddRoundKey 0 state RoundKey))))
      RoundKey"

definition inv_cipher_round :: "bytes \<Rightarrow> nat \<Rightarrow> bytes \<Rightarrow> bytes" where
  "inv_cipher_round RoundKey round state =
    InvMixColumns (AddRoundKey round (InvSubBytes (InvShiftRows state)) RoundKey)"

definition InvCipher :: "bytes \<Rightarrow> bytes \<Rightarrow> bytes" where
  "InvCipher state RoundKey =
    AddRoundKey 0
      (InvSubBytes (InvShiftRows
        (for_down 1 Nr (inv_cipher_round RoundKey) (AddRoundKey Nr state RoundKey))))
      RoundKey"

section \<open>Contexts and the public operations\<close>

record AES_ctx =
  RoundKey :: bytes
  Iv :: bytes

definition AES_init_ctx :: "AES_ctx \<Rightarrow> bytes \<Rightarrow> AES_ctx" where
  "AES_init_ctx ctx key = ctx\<lparr>RoundKey := KeyExpansion (RoundKey ctx) key\<rparr>"

definition AES_init_ctx_iv :: "AES_ctx \<Rightarrow> bytes \<Rightarrow> bytes \<Rightarrow> AES_ctx" where
  "AES_init_ctx_iv ctx key iv =
    ctx\<lparr>RoundKey := KeyExpansion (RoundKey ctx) key, Iv := take AES_BLOCKLEN iv\<rparr>"

definition AES_ctx_set_iv :: "AES_ctx \<Rightarrow> bytes \<Rightarrow> AES_ctx" where
  "AES_ctx_set_iv ctx iv = ctx\<lparr>Iv := take AES_BLOCKLEN iv\<rparr>"

definition AES_ECB_encrypt :: "AES_ctx \<Rightarrow> bytes \<Rightarrow> bytes" where
  "AES_ECB_encrypt ctx buf = Cipher buf (RoundKey ctx)"

definition AES_ECB_decrypt :: "AES_ctx \<Rightarrow> bytes \<Rightarrow> bytes" where
  "AES_ECB_decrypt ctx buf = InvCipher buf (RoundKey ctx)"

section \<open>Every operation of a round is undone by its inverse\<close>

lemma sbox_rsbox_table: "list_all (\<lambda>n. rsbox ! unat (sbox ! n) = of_nat n) [0..<256]"
  by code_simp

lemma length_sbox: "length sbox = 256" by (simp add: sbox_def)

lemma getSBoxInvert_getSBoxValue [simp, inv_rules]: "getSBoxInvert (getSBoxValue x) = x"
proof -
  have "unat x < 256"
    using unsigned_less [of x] by simp
  then have "rsbox ! unat (sbox ! unat x) = of_nat (unat x)"
    using sbox_rsbox_table by (simp add: list_all_iff)
  then show ?thesis
    by (simp add: getSBoxInvert_def getSBoxValue_def)
qed

lemma xtime_alt: "xtime x = push_bit 1 x XOR (if bit x 7 then 0x1b else 0)"
proof -
  have "drop_bit 7 x AND 1 = of_bool (bit x 7)"
    by (simp add: and_one_eq bit_iff_odd_drop_bit mod_2_eq_odd)
  then show ?thesis
    by (simp add: xtime_def)
qed

lemma xtime_xor: "xtime (x XOR y) = xtime x XOR xtime y"
  by (auto simp: xtime_alt bit_simps push_bit_xor xor.assoc xor.left_commute)

lemma Multiply_consts:
  "Multiply x 0x0e = xtime x XOR (xtime (xtime x) XOR xtime (xtime (xtime x)))"
  "Multiply x 0x0b = x XOR (xtime x XOR xtime (xtime (xtime x)))"
  "Multiply x 0x0d = x XOR (xtime (xtime x) XOR xtime (xtime (xtime x)))"
  "Multiply x 0x09 = x XOR xtime (xtime (xtime x))"
  by (simp_all add: Multiply_def xor.assoc)

lemma xor_cancel_left: "(x :: 'a :: len word) XOR (x XOR y) = y"
  by (simp flip: xor.assoc)

lemma inv_mix_mix_column:
  "mix_column a b c d = [a', b', c', d'] \<Longrightarrow> inv_mix_column a' b' c' d' = [a, b, c, d]"
  by (auto simp: mix_column_def inv_mix_column_def Let_def Multiply_consts xtime_xor
      xor.assoc xor.commute xor.left_commute xor_cancel_left)

lemma length_AddRoundKey [simp, len_simps]: "length (AddRoundKey r s k) = 16"
  by (simp add: AddRoundKey_def)

lemma nth_AddRoundKey: "k < 16 \<Longrightarrow> AddRoundKey r s rk ! k = s ! k XOR rk ! (16 * r + k)"
  by (simp add: AddRoundKey_def product_nth algebra_simps)

lemma AddRoundKey_cancel [simp, inv_rules]:
  "length s = 16 \<Longrightarrow> AddRoundKey r (AddRoundKey r s k) k = s"
  by (rule nth_equalityI) (simp_all add: nth_AddRoundKey xor.assoc)

lemma length_mix_column [simp, len_simps]:
  "length (mix_column a b c d) = 4" "length (inv_mix_column a b c d) = 4"
  by (simp_all add: mix_column_def inv_mix_column_def Let_def)

lemma length_round_funs [simp, len_simps]:
  "length (SubBytes s) = length s" "length (InvSubBytes s) = length s"
  "length (ShiftRows s) = length s" "length (InvShiftRows s) = length s"
  "length (MixColumns s) = 16" "length (InvMixColumns s) = 16"
  by (simp_all add: SubBytes_def InvSubBytes_def ShiftRows_def InvShiftRows_def Let_def
      MixColumns_def InvMixColumns_def length_concat upt_rec)

lemma InvSubBytes_SubBytes [simp, inv_rules]: "InvSubBytes (SubBytes s) = s"
  by (simp add: SubBytes_def InvSubBytes_def map_idI)

lemma InvShiftRows_ShiftRows [simp, inv_rules]:
  assumes "length s = 16" shows "InvShiftRows (ShiftRows s) = s"
  using assms by (elim list16_cases) (simp add: ShiftRows_def InvShiftRows_def Let_def)

lemma inv_mix_column_nth:
  "inv_mix_column (mix_column a b c d ! 0) (mix_column a b c d ! Suc 0)
    (mix_column a b c d ! Suc (Suc 0)) (mix_column a b c d ! 3) = [a, b, c, d]"
  "inv_mix_column (mix_column a b c d ! 0) (mix_column a b c d ! Suc 0)
    (mix_column a b c d ! 2) (mix_column a b c d ! 3) = [a, b, c, d]"
  by (rule inv_mix_mix_column [of a b c d], simp add: mix_column_def Let_def)+

lemma InvMixColumns_MixColumns [simp, inv_rules]:
  assumes "length s = 16" shows "InvMixColumns (MixColumns s) = s"
  using assms
  by (elim list16_cases)
    (simp add: MixColumns_def InvMixColumns_def upt_rec nth_append inv_mix_column_nth)

lemma length_rounds [simp, len_simps]: "length (cipher_round k r s) = 16" "length (inv_cipher_round k r s) = 16"
  by (simp_all add: cipher_round_def inv_cipher_round_def)

text \<open>An inverse round undoes the round of the same key when it starts from the state the next
  round has substituted and shifted, which is where the decryption stands.\<close>

lemma inv_cipher_round_step:
  "length s = 16 \<Longrightarrow>
    inv_cipher_round k r (ShiftRows (SubBytes (cipher_round k r s))) = ShiftRows (SubBytes s)"
  by (simp add: inv_cipher_round_def cipher_round_def)

lemma length_fold_cipher_round [simp, len_simps]:
  "length s = 16 \<Longrightarrow> length (fold (cipher_round k) rs s) = 16"
  by (induction rs arbitrary: s) auto

lemma inv_rounds:
  assumes "length s = 16"
  shows "fold (inv_cipher_round k) (rev rs) (ShiftRows (SubBytes (fold (cipher_round k) rs s)))
    = ShiftRows (SubBytes s)"
  using assms
  by (induction rs rule: rev_induct) (simp_all add: inv_cipher_round_step)

lemma length_Cipher [simp, len_simps]: "length (Cipher s k) = 16" "length (InvCipher s k) = 16"
  by (simp_all add: Cipher_def InvCipher_def)

lemma InvCipher_Cipher [simp, inv_rules]:
  assumes "length s = 16"
  shows "InvCipher (Cipher s k) k = s"
  using assms by (simp add: Cipher_def InvCipher_def for_range_def for_down_def inv_rounds del: upt_rec_numeral)

section \<open>The key schedule\<close>

lemma length_store4 [simp, len_simps]: "length (store4 buf j ws) = length buf"
  by (simp add: store4_def)

lemma nth_store4_below: "k < j \<Longrightarrow> store4 buf j ws ! k = buf ! k"
  by (simp add: store4_def)

lemma load4_store4 [simp]:
  "\<lbrakk> length ws = 4; j + 3 < length buf \<rbrakk> \<Longrightarrow> load4 (store4 buf j ws) j = ws"
  by (auto simp: load4_def store4_def numeral_eq_Suc length_Suc_conv)

lemma length_load4 [simp, len_simps]: "length (load4 buf k) = 4"
  by (simp add: load4_def)

lemma load4_cong:
  "\<lbrakk> k + 4 \<le> n; \<And>j. j < n \<Longrightarrow> xs ! j = ys ! j \<rbrakk> \<Longrightarrow> load4 xs k = load4 ys k"
  by (simp add: load4_def)

lemma length_key_word [simp, len_simps]: "length (key_word rk i) = 4"
  by (simp add: key_word_def Let_def)

lemma key_word_cong:
  assumes "4 \<le> i" "\<And>j. j < 4 * i \<Longrightarrow> xs ! j = ys ! j"
  shows "key_word xs i = key_word ys i"
proof -
  have "load4 xs ((i - 1) * 4) = load4 ys ((i - 1) * 4)" "load4 xs ((i - 4) * 4) = load4 ys ((i - 4) * 4)"
    using assms by (auto intro!: load4_cong [where n = "4 * i"])
  then show ?thesis
    by (simp add: key_word_def)
qed

text \<open>Both loops of \<open>KeyExpansion\<close> store the word \<open>i\<close> at \<open>4 * i\<close> for increasing \<open>i\<close>, so a word is
  never touched again once it is stored.\<close>

definition store_words :: "(nat \<Rightarrow> bytes \<Rightarrow> bytes) \<Rightarrow> nat \<Rightarrow> nat \<Rightarrow> bytes \<Rightarrow> bytes" where
  "store_words f m n rk = for_range m n (\<lambda>i rk. store4 rk (i * 4) (f i rk)) rk"

lemma store_words_Suc:
  "store_words f m (Suc n) rk =
    (if m \<le> n then store4 (store_words f m n rk) (n * 4) (f n (store_words f m n rk)) else rk)"
  by (simp add: store_words_def for_range_last)

lemma store_words_0 [simp]: "store_words f m 0 rk = rk"
  by (simp add: store_words_def)

lemma length_store_words [simp, len_simps]: "length (store_words f m n rk) = length rk"
  by (induction n) (simp_all add: store_words_Suc)

lemma nth_store_words_below: "k < 4 * m \<Longrightarrow> store_words f m n rk ! k = rk ! k"
  by (induction n) (simp_all add: store_words_Suc nth_store4_below)

lemma store_words_split:
  "\<lbrakk> m \<le> p; p \<le> n \<rbrakk> \<Longrightarrow> store_words f m n rk = store_words f p n (store_words f m p rk)"
  unfolding store_words_def by (rule for_range_append)

lemma load4_store_words:
  assumes "m \<le> i" "i < n" "4 * i + 3 < length rk" "\<And>rk. length (f i rk) = 4"
  shows "load4 (store_words f m n rk) (i * 4) = f i (store_words f m i rk)"
proof -
  let ?r = "store_words f m (Suc i) rk"
  have "load4 (store_words f m n rk) (i * 4) = load4 ?r (i * 4)"
    using assms(1,2) store_words_split [of m "Suc i" n f rk]
    by (auto intro!: load4_cong [where n = "4 * Suc i"] simp: nth_store_words_below)
  also have "?r = store4 (store_words f m i rk) (i * 4) (f i (store_words f m i rk))"
    using assms(1) by (simp add: store_words_Suc)
  finally show ?thesis
    using assms(3,4) by simp
qed

lemma KeyExpansion_store_words:
  "KeyExpansion rk Key =
    store_words (\<lambda>i rk. key_word rk i) 4 44 (store_words (\<lambda>i rk. load4 Key (i * 4)) 0 4 rk)"
  by (simp add: KeyExpansion_def store_words_def)

lemma length_KeyExpansion [simp, len_simps]: "length (KeyExpansion rk Key) = length rk"
  by (simp add: KeyExpansion_store_words)

lemma KeyExpansion_key:
  assumes "length rk = 176" "i < 4"
  shows "load4 (KeyExpansion rk Key) (i * 4) = load4 Key (i * 4)"
proof -
  have "load4 (KeyExpansion rk Key) (i * 4) = load4 (store_words (\<lambda>i rk. load4 Key (i * 4)) 0 4 rk) (i * 4)"
    using assms by (auto simp: KeyExpansion_store_words nth_store_words_below intro!: load4_cong [where n = 16])
  also have "\<dots> = load4 Key (i * 4)"
    using assms by (simp add: load4_store_words)
  finally show ?thesis .
qed

lemma KeyExpansion_word:
  assumes "length rk = 176" "4 \<le> i" "i < 44"
  shows "load4 (KeyExpansion rk Key) (i * 4) = key_word (KeyExpansion rk Key) i"
proof -
  let ?f = "\<lambda>i rk. key_word rk i" and ?rk = "store_words (\<lambda>i rk. load4 Key (i * 4)) 0 4 rk"
  have "load4 (KeyExpansion rk Key) (i * 4) = key_word (store_words ?f 4 i ?rk) i"
    using assms by (simp add: KeyExpansion_store_words load4_store_words)
  also have "\<dots> = key_word (KeyExpansion rk Key) i"
    using assms store_words_split [of 4 i 44 ?f ?rk]
    by (intro key_word_cong) (simp_all add: KeyExpansion_store_words nth_store_words_below)
  finally show ?thesis .
qed

text \<open>The schedule is a function of the key only: no byte of the uninitialised array is left.\<close>

lemma nth_load4: "r < 4 \<Longrightarrow> load4 xs k ! r = xs ! (k + r)"
  by (auto simp: load4_def less_Suc_eq numeral_eq_Suc)

lemma KeyExpansion_indep:
  assumes "length rk = 176" "length rk' = 176"
  shows "KeyExpansion rk Key = KeyExpansion rk' Key"
proof (rule nth_equalityI)
  let ?K = "KeyExpansion rk Key" and ?K' = "KeyExpansion rk' Key"
  fix j assume "j < length ?K"
  then have "j < 176" by (simp add: assms)
  then show "?K ! j = ?K' ! j"
  proof (induction j rule: less_induct)
    case (less j)
    let ?i = "j div 4"
    have "load4 ?K (?i * 4) = load4 ?K' (?i * 4)"
    proof (cases "?i < 4")
      case False
      then have "key_word ?K ?i = key_word ?K' ?i"
        using less by (intro key_word_cong) auto
      then show ?thesis
        using False less.prems assms by (simp add: KeyExpansion_word)
    qed (simp add: KeyExpansion_key assms)
    then have "load4 ?K (?i * 4) ! (j mod 4) = load4 ?K' (?i * 4) ! (j mod 4)"
      by simp
    then show ?case by (simp add: nth_load4)
  qed
qed (simp add: assms)

section \<open>Modes of operation\<close>

text \<open>The loops of the modes, over the block transformation they call.\<close>

definition XorWithIv :: "bytes \<Rightarrow> bytes \<Rightarrow> bytes" where
  "XorWithIv buf iv = xor_bytes (take AES_BLOCKLEN buf) (take AES_BLOCKLEN iv)"

fun cbc_encrypt_loop :: "(bytes \<Rightarrow> bytes) \<Rightarrow> nat \<Rightarrow> bytes \<Rightarrow> bytes \<Rightarrow> bytes \<times> bytes" where
  "cbc_encrypt_loop enc 0 iv buf = (iv, buf)"
| "cbc_encrypt_loop enc (Suc n) iv buf =
    (let blk = enc (XorWithIv buf iv);
         (iv', rest) = cbc_encrypt_loop enc n blk (drop AES_BLOCKLEN buf)
     in (iv', blk @ rest))"

fun cbc_decrypt_loop :: "(bytes \<Rightarrow> bytes) \<Rightarrow> nat \<Rightarrow> bytes \<Rightarrow> bytes \<Rightarrow> bytes \<times> bytes" where
  "cbc_decrypt_loop dec 0 iv buf = (iv, buf)"
| "cbc_decrypt_loop dec (Suc n) iv buf =
    (let storeNextIv = take AES_BLOCKLEN buf;
         blk = XorWithIv (dec (take AES_BLOCKLEN buf)) iv;
         (iv', rest) = cbc_decrypt_loop dec n storeNextIv (drop AES_BLOCKLEN buf)
     in (iv', blk @ rest))"

text \<open>\<open>ctr_increment bi iv\<close> is the loop that increments the counter from index \<open>bi - 1\<close> down.\<close>

fun ctr_increment :: "nat \<Rightarrow> bytes \<Rightarrow> bytes" where
  "ctr_increment 0 iv = iv"
| "ctr_increment (Suc bi) iv =
    (if iv ! bi = 255 then ctr_increment bi (iv[bi := 0]) else iv[bi := iv ! bi + 1])"

fun ctr_loop :: "(bytes \<Rightarrow> bytes) \<Rightarrow> bytes \<Rightarrow> bytes \<Rightarrow> nat \<Rightarrow> bytes \<Rightarrow> bytes \<times> bytes" where
  "ctr_loop enc iv buffer bi [] = (iv, [])"
| "ctr_loop enc iv buffer bi (b # bs) =
    (let (iv, buffer, bi) =
           (if bi = AES_BLOCKLEN then (ctr_increment AES_BLOCKLEN iv, enc iv, 0) else (iv, buffer, bi));
         (iv', out) = ctr_loop enc iv buffer (bi + 1) bs
     in (iv', (b XOR buffer ! bi) # out))"

text \<open>The public operations return \<open>None\<close> where the code would leave the caller's buffer: the block
  loops work on whole blocks, so the buffer has to reach the end of the last one.\<close>

definition AES_CBC_encrypt_buffer :: "AES_ctx \<Rightarrow> bytes \<Rightarrow> nat \<Rightarrow> (AES_ctx \<times> bytes) option" where
  "AES_CBC_encrypt_buffer ctx buf len =
    (if length buf < 16 * blocks_of len then None
     else (let (iv, out) = cbc_encrypt_loop (\<lambda>b. Cipher b (RoundKey ctx)) (blocks_of len) (Iv ctx) buf
           in Some (ctx\<lparr>Iv := iv\<rparr>, out)))"

definition AES_CBC_decrypt_buffer :: "AES_ctx \<Rightarrow> bytes \<Rightarrow> nat \<Rightarrow> (AES_ctx \<times> bytes) option" where
  "AES_CBC_decrypt_buffer ctx buf len =
    (if length buf < 16 * blocks_of len then None
     else (let (iv, out) = cbc_decrypt_loop (\<lambda>b. InvCipher b (RoundKey ctx)) (blocks_of len) (Iv ctx) buf
           in Some (ctx\<lparr>Iv := iv\<rparr>, out)))"

definition AES_CTR_xcrypt_buffer :: "AES_ctx \<Rightarrow> bytes \<Rightarrow> nat \<Rightarrow> (AES_ctx \<times> bytes) option" where
  "AES_CTR_xcrypt_buffer ctx buf len =
    (if length buf < len then None
     else (let (iv, out) = ctr_loop (\<lambda>b. Cipher b (RoundKey ctx)) (Iv ctx) [] AES_BLOCKLEN (take len buf)
           in Some (ctx\<lparr>Iv := iv\<rparr>, out @ drop len buf)))"

lemma length_XorWithIv: "\<lbrakk> 16 \<le> length buf; length iv = 16 \<rbrakk> \<Longrightarrow> length (XorWithIv buf iv) = 16"
  by (simp add: XorWithIv_def)

lemma XorWithIv_cancel [inv_rules]:
  "\<lbrakk> 16 \<le> length buf; length iv = 16 \<rbrakk> \<Longrightarrow> XorWithIv (XorWithIv buf iv) iv = take 16 buf"
  by (simp add: XorWithIv_def)

section \<open>The modes over any block cipher\<close>

locale block_cipher =
  fixes enc :: "bytes \<Rightarrow> bytes" and dec :: "bytes \<Rightarrow> bytes"
  assumes length_enc: "length b = 16 \<Longrightarrow> length (enc b) = 16"
    and dec_enc: "length b = 16 \<Longrightarrow> dec (enc b) = b"
begin

lemma cbc_encrypt_length:
  assumes "length iv = 16" "16 * n \<le> length buf" "cbc_encrypt_loop enc n iv buf = (iv', out)"
  shows "length iv' = 16 \<and> length out = length buf"
  using assms
proof (induction n arbitrary: iv buf iv' out)
  case (Suc n)
  let ?blk = "enc (XorWithIv buf iv)"
  from Suc.prems obtain rest where
    rest: "cbc_encrypt_loop enc n ?blk (drop 16 buf) = (iv', rest)" and out: "out = ?blk @ rest"
    by (auto simp: Let_def split: prod.splits)
  have len: "length ?blk = 16"
    using Suc.prems(1,2) by (simp add: length_XorWithIv length_enc)
  from Suc.IH [OF len _ rest] Suc.prems(2) len out show ?case
    by simp
qed simp

lemma cbc_round_trip:
  assumes "length iv = 16" "16 * n \<le> length buf" "cbc_encrypt_loop enc n iv buf = (iv', out)"
  shows "cbc_decrypt_loop dec n iv out = (iv', buf)"
  using assms
proof (induction n arbitrary: iv buf iv' out)
  case (Suc n)
  let ?blk = "enc (XorWithIv buf iv)"
  from Suc.prems obtain rest where
    rest: "cbc_encrypt_loop enc n ?blk (drop 16 buf) = (iv', rest)" and out: "out = ?blk @ rest"
    by (auto simp: Let_def split: prod.splits)
  have len: "length ?blk = 16" "length (XorWithIv buf iv) = 16"
    using Suc.prems(1,2) by (simp_all add: length_XorWithIv length_enc)
  then have "cbc_decrypt_loop dec n ?blk rest = (iv', drop 16 buf)"
    using Suc.prems(2) rest by (intro Suc.IH) simp_all
  moreover have "dec ?blk = XorWithIv buf iv"
    by (rule dec_enc [OF len(2)])
  ultimately show ?case
    using len(1) Suc.prems(1,2) out by (simp add: XorWithIv_cancel)
qed simp

lemma cbc_encrypt_append:
  assumes "length iv = 16" "length xs = 16 * m" "cbc_encrypt_loop enc m iv xs = (iv1, out1)"
    and "cbc_encrypt_loop enc n iv1 ys = (iv2, out2)"
  shows "cbc_encrypt_loop enc (m + n) iv (xs @ ys) = (iv2, out1 @ out2)"
  using assms
proof (induction m arbitrary: iv xs out1)
  case (Suc m)
  let ?blk = "enc (XorWithIv xs iv)"
  from Suc.prems obtain rest where
    rest: "cbc_encrypt_loop enc m ?blk (drop 16 xs) = (iv1, rest)" and out1: "out1 = ?blk @ rest"
    by (auto simp: Let_def split: prod.splits)
  have "length ?blk = 16"
    using Suc.prems(1,2) by (simp add: length_XorWithIv length_enc)
  then have "cbc_encrypt_loop enc (m + n) ?blk (drop 16 xs @ ys) = (iv2, rest @ out2)"
    using Suc.prems(2,4) rest by (intro Suc.IH) simp_all
  moreover have "XorWithIv (xs @ ys) iv = XorWithIv xs iv"
    using Suc.prems(2) by (simp add: XorWithIv_def)
  ultimately show ?case
    using Suc.prems(2) out1 by simp
qed simp

end

interpretation aes: block_cipher "\<lambda>b. Cipher b k" "\<lambda>b. InvCipher b k" for k
  by unfold_locales simp_all

section \<open>Counter mode\<close>

text \<open>The reference: byte \<open>i\<close> of the key stream is byte \<open>i mod 16\<close> of the encryption of the
  counter block number \<open>i div 16\<close>.\<close>

definition ctr_block :: "nat \<Rightarrow> bytes \<Rightarrow> bytes" where
  "ctr_block n iv = (ctr_increment AES_BLOCKLEN ^^ n) iv"

definition ctr_keystream :: "(bytes \<Rightarrow> bytes) \<Rightarrow> bytes \<Rightarrow> nat \<Rightarrow> u8" where
  "ctr_keystream enc iv i = enc (ctr_block (i div 16) iv) ! (i mod 16)"

lemma ctr_block_Suc: "ctr_block (Suc n) iv = ctr_increment AES_BLOCKLEN (ctr_block n iv)"
  by (simp add: ctr_block_def)

lemma ctr_loop_step:
  assumes "bi = (if p mod 16 = 0 then 16 else p mod 16)"
    and "p mod 16 \<noteq> 0 \<longrightarrow> buffer = enc (ctr_block (p div 16) iv)"
    and "ctr_loop enc (ctr_block (blocks_of (Suc p)) iv) (enc (ctr_block (p div 16) iv)) (Suc (p mod 16)) bs = (iv', out)"
  shows "ctr_loop enc (ctr_block (blocks_of p) iv) buffer bi (b # bs) =
    (iv', (b XOR ctr_keystream enc iv p) # out)"
proof (cases "p mod 16 = 0")
  case True
  then show ?thesis
    using assms(1,3) by (simp add: ctr_keystream_def ctr_block_Suc blocks_of_Suc blocks_of_aligned)
next
  case False
  moreover have "p mod 16 \<noteq> 16"
    using mod_less_divisor [of 16 p] by linarith
  ultimately show ?thesis
    using assms by (simp add: ctr_keystream_def blocks_of_Suc blocks_of_unaligned)
qed

lemma ctr_loop_keystream:
  assumes "bi = (if p mod 16 = 0 then 16 else p mod 16)"
    and "p mod 16 \<noteq> 0 \<longrightarrow> buffer = enc (ctr_block (p div 16) iv)"
  shows "ctr_loop enc (ctr_block (blocks_of p) iv) buffer bi bs =
    (ctr_block (blocks_of (p + length bs)) iv,
     map (\<lambda>j. bs ! j XOR ctr_keystream enc iv (p + j)) [0..<length bs])"
  using assms
proof (induction bs arbitrary: p bi buffer)
  case (Cons b bs)
  have "ctr_loop enc (ctr_block (blocks_of (Suc p)) iv) (enc (ctr_block (p div 16) iv)) (Suc (p mod 16)) bs =
    (ctr_block (blocks_of (Suc p + length bs)) iv,
     map (\<lambda>j. bs ! j XOR ctr_keystream enc iv (Suc p + j)) [0..<length bs])"
    by (rule Cons.IH) (auto simp: mod_Suc div_Suc)
  note step = ctr_loop_step [OF Cons.prems this]
  have upt: "[0..<length (b # bs)] = 0 # map Suc [0..<length bs]"
    by (simp add: upt_conv_Cons map_Suc_upt del: upt_Suc)
  show ?case
    by (simp only: step upt) simp
qed simp

lemma length_ctr_increment [simp, len_simps]: "length (ctr_increment n iv) = length iv"
  by (induction n iv rule: ctr_increment.induct) auto

lemma ctr_increment_val:
  assumes "n \<le> length iv"
  shows "be_val (take n (ctr_increment n iv)) = (be_val (take n iv) + 1) mod 256 ^ n \<and>
    drop n (ctr_increment n iv) = drop n iv"
  using assms
proof (induction n arbitrary: iv)
  case (Suc n)
  then have take: "take (Suc n) xs = take n xs @ [xs ! n]" if "length xs = length iv" for xs :: bytes
    using that by (simp add: take_Suc_conv_app_nth)
  show ?case
  proof (cases "iv ! n = 255")
    case True
    have IH: "be_val (take n (ctr_increment n (iv[n := 0]))) = (be_val (take n iv) + 1) mod 256 ^ n"
      "drop n (ctr_increment n (iv[n := 0])) = drop n (iv[n := 0])"
      using Suc.IH [of "iv[n := 0]"] Suc.prems by simp_all
    have "ctr_increment n (iv[n := 0]) ! n = 0"
      using IH(2) Suc.prems by (metis Suc_le_eq hd_drop_conv_nth length_ctr_increment length_list_update nth_list_update_eq)
    moreover have "drop (Suc n) (ctr_increment n (iv[n := 0])) = drop (Suc n) iv"
      using IH(2) by (metis drop_Suc drop_update_cancel lessI tl_drop)
    moreover have "256 * ((a + 1) mod 256 ^ n) = (256 * a + 255 + 1) mod 256 ^ Suc n" for a :: nat
      by (simp add: mult_mod_right algebra_simps)
    ultimately show ?thesis
      using True IH(1) by (simp add: take)
  next
    case False
    have "be_val (take n iv) < 256 ^ n"
      using be_val_less [of "take n iv"] Suc.prems by simp
    then have "256 * be_val (take n iv) + unat (iv ! n) + 1 < 256 ^ Suc n"
      using False unat_u8_less [of "iv ! n + 1"] by (simp add: unat_u8_add_1)
    then show ?thesis
      using False Suc.prems by (simp add: take unat_u8_add_1)
  qed
qed simp

lemma ctr_xcrypt_conv:
  assumes "len \<le> length buf"
  shows "AES_CTR_xcrypt_buffer ctx buf len =
    Some (ctx\<lparr>Iv := ctr_block (blocks_of len) (Iv ctx)\<rparr>,
      map (\<lambda>i. buf ! i XOR ctr_keystream (\<lambda>b. Cipher b (RoundKey ctx)) (Iv ctx) i) [0..<len] @ drop len buf)"
proof -
  have "ctr_loop (\<lambda>b. Cipher b (RoundKey ctx)) (Iv ctx) [] 16 (take len buf) =
    (ctr_block (blocks_of len) (Iv ctx),
     map (\<lambda>j. take len buf ! j XOR ctr_keystream (\<lambda>b. Cipher b (RoundKey ctx)) (Iv ctx) j) [0..<len])"
    using ctr_loop_keystream [of 16 0 "[]" "\<lambda>b. Cipher b (RoundKey ctx)" "Iv ctx" "take len buf"] assms
    by (simp add: ctr_block_def min_absorb2)
  then show ?thesis
    using assms by (simp add: AES_CTR_xcrypt_buffer_def)
qed

lemma length_ctr_block [simp, len_simps]: "length (ctr_block n iv) = length iv"
  by (induction n) (simp_all add: ctr_block_def)

lemma be_val_ctr_block:
  assumes "length iv = 16"
  shows "be_val (ctr_block n iv) = (be_val iv + n) mod 256 ^ 16"
proof (induction n)
  case 0
  show ?case
    using be_val_less [of iv] assms by (simp add: ctr_block_def)
next
  case (Suc n)
  have "be_val (ctr_increment 16 (ctr_block n iv)) = (be_val (ctr_block n iv) + 1) mod 256 ^ 16"
    using ctr_increment_val [of 16 "ctr_block n iv"] assms by simp
  then show ?case
    using Suc by (simp add: ctr_block_Suc mod_Suc_eq)
qed

section \<open>Properties\<close>

text \<open>C13: AES-128 in ECB mode is invertible: decrypting an encrypted block with the same context gives
  the block back, for every key schedule and every block.\<close>

theorem ecb_round_trip:
  assumes "length buf = 16"
  shows "AES_ECB_decrypt ctx (AES_ECB_encrypt ctx buf) = buf"
  using assms by (simp add: AES_ECB_decrypt_def AES_ECB_encrypt_def)

theorem ecb_round_trip_witness:
  "length [0x6b, 0xc1, 0xbe, 0xe2, 0x2e, 0x40, 0x9f, 0x96, 0xe9, 0x3d, 0x7e, 0x11, 0x73, 0x93, 0x17, 0x2a :: u8] = 16 \<and>
   AES_ECB_decrypt \<lparr>RoundKey = replicate 176 1, Iv = []\<rparr>
     (AES_ECB_encrypt \<lparr>RoundKey = replicate 176 1, Iv = []\<rparr>
       [0x6b, 0xc1, 0xbe, 0xe2, 0x2e, 0x40, 0x9f, 0x96, 0xe9, 0x3d, 0x7e, 0x11, 0x73, 0x93, 0x17, 0x2a])
   = [0x6b, 0xc1, 0xbe, 0xe2, 0x2e, 0x40, 0x9f, 0x96, 0xe9, 0x3d, 0x7e, 0x11, 0x73, 0x93, 0x17, 0x2a]"
  by (rule conjI, simp, rule ecb_round_trip, simp)



text \<open>C15: CBC decryption undoes CBC encryption on every buffer that holds the whole blocks of
  \<open>len\<close>: both calls succeed, no byte is added or lost, and both contexts end with the same chaining
  value, so the next pair of calls continues the same chain.\<close>

theorem cbc_round_trip_buffer:
  assumes "length (Iv ctx) = 16" "16 * blocks_of len \<le> length buf"
  shows "\<exists>ctx' out. AES_CBC_encrypt_buffer ctx buf len = Some (ctx', out) \<and>
    length out = length buf \<and> RoundKey ctx' = RoundKey ctx \<and> length (Iv ctx') = 16 \<and>
    AES_CBC_decrypt_buffer ctx out len = Some (ctx', buf)"
proof -
  obtain iv' out where enc:
    "cbc_encrypt_loop (\<lambda>b. Cipher b (RoundKey ctx)) (blocks_of len) (Iv ctx) buf = (iv', out)"
    by fastforce
  from aes.cbc_encrypt_length [OF assms enc] aes.cbc_round_trip [OF assms enc] enc assms(2)
  show ?thesis
    by (simp add: AES_CBC_encrypt_buffer_def AES_CBC_decrypt_buffer_def)
qed

theorem cbc_round_trip_buffer_witness:
  "length (Iv \<lparr>RoundKey = replicate 176 0, Iv = replicate 16 9\<rparr>) = 16 \<and>
   16 * blocks_of 20 \<le> length (replicate 32 (5 :: u8)) \<and>
   (\<exists>ctx' out. AES_CBC_encrypt_buffer \<lparr>RoundKey = replicate 176 0, Iv = replicate 16 9\<rparr> (replicate 32 5) 20 = Some (ctx', out) \<and>
    length out = length (replicate 32 (5 :: u8)) \<and>
    RoundKey ctx' = RoundKey \<lparr>RoundKey = replicate 176 0, Iv = replicate 16 9\<rparr> \<and> length (Iv ctx') = 16 \<and>
    AES_CBC_decrypt_buffer \<lparr>RoundKey = replicate 176 0, Iv = replicate 16 9\<rparr> out 20 = Some (ctx', replicate 32 5))"
  by (intro conjI cbc_round_trip_buffer) (simp_all add: blocks_of_def)

text \<open>Encrypting a buffer in two successive calls on the same context gives the same
  ciphertext and the same final context as one call on the whole buffer: the chaining value carries
  across calls.\<close>

theorem cbc_encrypt_chunks:
  assumes "length (Iv ctx) = 16" "length xs = 16 * m" "length ys = 16 * n"
  shows "AES_CBC_encrypt_buffer ctx (xs @ ys) (16 * (m + n)) =
    (case AES_CBC_encrypt_buffer ctx xs (16 * m) of
       None \<Rightarrow> None
     | Some (ctx1, out1) \<Rightarrow>
         (case AES_CBC_encrypt_buffer ctx1 ys (16 * n) of
            None \<Rightarrow> None
          | Some (ctx2, out2) \<Rightarrow> Some (ctx2, out1 @ out2)))"
proof -
  let ?enc = "\<lambda>b. Cipher b (RoundKey ctx)"
  obtain iv1 out1 where 1: "cbc_encrypt_loop ?enc m (Iv ctx) xs = (iv1, out1)" by fastforce
  obtain iv2 out2 where 2: "cbc_encrypt_loop ?enc n iv1 ys = (iv2, out2)" by fastforce
  have "blocks_of (16 * m + 16 * n) = m + n"
    using blocks_of_mult [of "m + n"] by (simp add: distrib_left)
  with aes.cbc_encrypt_append [OF assms(1,2) 1 2] 1 2 assms(2,3) show ?thesis
    by (simp add: AES_CBC_encrypt_buffer_def)
qed

theorem cbc_encrypt_chunks_witness:
  "AES_CBC_encrypt_buffer \<lparr>RoundKey = replicate 176 0, Iv = replicate 16 9\<rparr> (replicate 16 1 @ replicate 32 2) (16 * (1 + 2)) =
    (case AES_CBC_encrypt_buffer \<lparr>RoundKey = replicate 176 0, Iv = replicate 16 9\<rparr> (replicate 16 1) (16 * 1) of
       None \<Rightarrow> None
     | Some (ctx1, out1) \<Rightarrow>
         (case AES_CBC_encrypt_buffer ctx1 (replicate 32 2) (16 * 2) of
            None \<Rightarrow> None
          | Some (ctx2, out2) \<Rightarrow> Some (ctx2, out1 @ out2)))"
  by (rule cbc_encrypt_chunks) (simp_all)

text \<open>C16: counter mode is the reference it is meant to be: byte \<open>i\<close> of the output is byte \<open>i\<close> of the
  input masked with byte \<open>i mod 16\<close> of the encryption of the counter block \<open>i div 16\<close>, where the
  counter blocks are the initial value plus \<open>0, 1, 2, ..\<close> as 128-bit big-endian numbers with
  wrap-around; the bytes after \<open>len\<close> are untouched.\<close>

theorem ctr_reference:
  assumes "len \<le> length buf" "length (Iv ctx) = 16"
  shows "\<exists>ctx' out. AES_CTR_xcrypt_buffer ctx buf len = Some (ctx', out) \<and>
    length out = length buf \<and> drop len out = drop len buf \<and>
    be_val (Iv ctx') = (be_val (Iv ctx) + blocks_of len) mod 2 ^ 128 \<and>
    (\<forall>i < len. \<exists>ctr. length ctr = 16 \<and> be_val ctr = (be_val (Iv ctx) + i div 16) mod 2 ^ 128 \<and>
      out ! i = buf ! i XOR Cipher ctr (RoundKey ctx) ! (i mod 16))"
  using assms
  by (auto simp: ctr_xcrypt_conv be_val_ctr_block ctr_keystream_def nth_append
      intro!: exI [where x = "ctr_block (i div 16) (Iv ctx)" for i])

theorem ctr_reference_witness:
  "\<exists>ctx' out. AES_CTR_xcrypt_buffer \<lparr>RoundKey = replicate 176 3, Iv = replicate 16 255\<rparr> (replicate 40 7) 20 = Some (ctx', out) \<and>
    length out = length (replicate 40 (7 :: u8)) \<and> drop 20 out = drop 20 (replicate 40 7) \<and>
    be_val (Iv ctx') = (be_val (Iv \<lparr>RoundKey = replicate 176 3, Iv = replicate 16 255\<rparr>) + blocks_of 20) mod 2 ^ 128 \<and>
    (\<forall>i < 20. \<exists>ctr. length ctr = 16 \<and>
      be_val ctr = (be_val (Iv \<lparr>RoundKey = replicate 176 3, Iv = replicate 16 255\<rparr>) + i div 16) mod 2 ^ 128 \<and>
      out ! i = replicate 40 7 ! i XOR Cipher ctr (RoundKey \<lparr>RoundKey = replicate 176 3, Iv = replicate 16 255\<rparr>) ! (i mod 16))"
  by (rule ctr_reference) simp_all

text \<open>Counter mode is its own inverse from the same context.\<close>

theorem ctr_involution:
  assumes "AES_CTR_xcrypt_buffer ctx buf len = Some (ctx', out)"
  shows "AES_CTR_xcrypt_buffer ctx out len = Some (ctx', buf)"
proof -
  have len: "len \<le> length buf"
    using assms by (simp add: AES_CTR_xcrypt_buffer_def split: if_splits)
  let ?ks = "ctr_keystream (\<lambda>b. Cipher b (RoundKey ctx)) (Iv ctx)"
  have out: "ctx' = ctx\<lparr>Iv := ctr_block (blocks_of len) (Iv ctx)\<rparr>"
    "out = map (\<lambda>i. buf ! i XOR ?ks i) [0..<len] @ drop len buf"
    using assms unfolding ctr_xcrypt_conv [OF len] by simp_all
  have "map (\<lambda>i. out ! i XOR ?ks i) [0..<len] = take len buf"
    using len by (intro nth_equalityI) (simp_all add: out nth_append xor.assoc)
  then show ?thesis
    using len ctr_xcrypt_conv [of len out ctx] by (simp add: out)
qed

theorem ctr_involution_witness:
  "\<exists>ctx' out. AES_CTR_xcrypt_buffer \<lparr>RoundKey = replicate 176 3, Iv = replicate 16 255\<rparr> (replicate 40 7) 20 = Some (ctx', out) \<and>
    AES_CTR_xcrypt_buffer \<lparr>RoundKey = replicate 176 3, Iv = replicate 16 255\<rparr> out 20 = Some (ctx', replicate 40 7)"
proof -
  obtain ctx' out where run:
    "AES_CTR_xcrypt_buffer \<lparr>RoundKey = replicate 176 3, Iv = replicate 16 255\<rparr> (replicate 40 7) 20 = Some (ctx', out)"
    using ctr_xcrypt_conv [of 20 "replicate 40 7"] by simp
  from run ctr_involution [OF run] show ?thesis
    by blast
qed

text \<open>The published AES-128 vectors quoted at the head of \<^verbatim>\<open>aes.c\<close> (NIST SP 800-38A,
  ECB, the first two blocks).\<close>

theorem ecb_vectors:
  "map (AES_ECB_encrypt (AES_init_ctx \<lparr>RoundKey = replicate 176 0, Iv = []\<rparr>
      [0x2b, 0x7e, 0x15, 0x16, 0x28, 0xae, 0xd2, 0xa6, 0xab, 0xf7, 0x15, 0x88, 0x09, 0xcf, 0x4f, 0x3c]))
    [[0x6b, 0xc1, 0xbe, 0xe2, 0x2e, 0x40, 0x9f, 0x96, 0xe9, 0x3d, 0x7e, 0x11, 0x73, 0x93, 0x17, 0x2a],
     [0xae, 0x2d, 0x8a, 0x57, 0x1e, 0x03, 0xac, 0x9c, 0x9e, 0xb7, 0x6f, 0xac, 0x45, 0xaf, 0x8e, 0x51]]
  = [[0x3a, 0xd7, 0x7b, 0xb4, 0x0d, 0x7a, 0x36, 0x60, 0xa8, 0x9e, 0xca, 0xf3, 0x24, 0x66, 0xef, 0x97],
     [0xf5, 0xd3, 0xd5, 0x85, 0x03, 0xb9, 0x69, 0x9d, 0xe7, 0x85, 0x89, 0x5a, 0x96, 0xfd, 0xba, 0xaf]]"
  by code_simp

end
