(* ===== verification/WifiProv.thy ===== *)
theory WifiProv
  imports WifiScan Aes "HOL-Library.Multiset"
begin

text \<open>
  The provisioning of the WiFi connection over Bluetooth, \<^verbatim>\<open>ble-utils/files/wifi_prov.c\<close>: the callbacks that
  read the scan results and the status and that accept a new configuration, the registration of the
  services, and the set-up in \<^verbatim>\<open>main\<close>. The bus library is a parameter.
\<close>

section \<open>State\<close>

abbreviation (input) MAX_SSID_LEN :: nat where "MAX_SSID_LEN \<equiv> 32"
abbreviation (input) MAX_PASSWD_LEN :: nat where "MAX_PASSWD_LEN \<equiv> 64"
abbreviation (input) TEST_WIFI_CFG_FILE :: string where "TEST_WIFI_CFG_FILE \<equiv> ''/tmp/testWifiCfg''"

datatype scan_state = SCAN_INIT | SCAN_START | SCAN_MORE

text \<open>The buffer of the scan results is its text, and \<^verbatim>\<open>wifiScanPtr\<close> an offset into it.\<close>

record scan_page =
  wifiScanState :: scan_state
  wifiScanResults :: "string option"
  wifiScanPtr :: "nat option"
  wifiScanCount :: nat

definition scan_page_init :: scan_page where
  "scan_page_init = \<lparr>wifiScanState = SCAN_INIT, wifiScanResults = None, wifiScanPtr = None, wifiScanCount = 0\<rparr>"

section \<open>Scan results\<close>

text \<open>The text of the scan file is cut at its first zero, as the program treats it as a C string.\<close>

definition scan_load :: "string option \<Rightarrow> scan_page \<Rightarrow> scan_page" where
  "scan_load file s =
    (case file of
       None \<Rightarrow> s
     | Some c \<Rightarrow>
         if c = [] then s
         else s\<lparr>wifiScanResults := Some (takeWhile (\<lambda>x. x \<noteq> CHR 0x00) c), wifiScanPtr := Some 0\<rparr>)"

lemma find_sub_bound: "find_sub key s = Some n \<Longrightarrow> n + length key \<le> length s"
proof (induction s arbitrary: n)
  case (Cons c cs)
  have "length key \<le> length (c # cs)" if "take (length key) (c # cs) = key"
    using arg_cong [OF that, of length] by simp
  then show ?case
    using Cons by (auto split: if_splits)
qed (auto split: if_splits)

function count_ssids :: "string \<Rightarrow> nat" where
  "count_ssids s = (case find_sub SSID_KEY s of None \<Rightarrow> 0 | Some n \<Rightarrow> Suc (count_ssids (drop (n + length SSID_KEY) s)))"
  by auto

termination
proof (relation "measure length")
  fix s n
  assume "find_sub SSID_KEY s = Some n"
  then have "n + length SSID_KEY \<le> length s"
    by (rule find_sub_bound)
  then show "(drop (n + length SSID_KEY) s, s) \<in> measure length"
    by (simp add: SSID_KEY_def quoted_def)
qed simp

declare count_ssids.simps [simp del]

text \<open>\<^verbatim>\<open>while (*ptr != '}') ptr--\<close>, and the next entry: from the next key to the brace before the one after it.
  It is copied to a buffer of 128 characters.\<close>

fun back_to_brace :: "string \<Rightarrow> nat \<Rightarrow> nat option" where
  "back_to_brace buf 0 = (if buf ! 0 = CHR ''}'' then Some 0 else None)"
| "back_to_brace buf (Suc i) = (if buf ! Suc i = CHR ''}'' then Some (Suc i) else back_to_brace buf i)"

definition find_from :: "string \<Rightarrow> nat \<Rightarrow> nat option" where
  "find_from buf p = map_option (\<lambda>n. p + n) (find_sub SSID_KEY (drop p buf))"

definition next_entry :: "string \<Rightarrow> nat \<Rightarrow> (string \<times> nat) option" where
  "next_entry buf p =
    (case find_from buf p of
       None \<Rightarrow> None
     | Some a \<Rightarrow>
         (case find_from buf (a + length SSID_KEY) of
            None \<Rightarrow> None
          | Some b \<Rightarrow>
              (case back_to_brace buf b of
                 None \<Rightarrow> None
               | Some e \<Rightarrow>
                   if a \<le> Suc e \<and> Suc e - a < 128 then Some (take (Suc e - a) (drop a buf), e) else None)))"

definition PAGE_START :: string where
  "PAGE_START = ''{'' @ quoted ''scanresults'' @ '':[''"

definition PAGE_MORE :: string where
  "PAGE_MORE = ''], '' @ quoted ''more'' @ '':'' @ quoted ''true'' @ ''}''"

text \<open>A read in the state \<^verbatim>\<open>SCAN_MORE\<close>; \<^verbatim>\<open>wifiScanData\<close> has 512 characters.\<close>

definition scan_more :: "scan_page \<Rightarrow> (string \<times> scan_page) option" where
  "scan_more s =
    (case (wifiScanResults s, wifiScanPtr s) of
       (Some buf, Some p) \<Rightarrow>
         (if wifiScanCount s \<le> 2 then
            (case find_from buf p of
               None \<Rightarrow> None
             | Some a \<Rightarrow>
                 Some (take 511 (PAGE_START @ drop a buf),
                   s\<lparr>wifiScanCount := 0, wifiScanState := SCAN_INIT, wifiScanPtr := None\<rparr>))
          else
            (case next_entry buf p of
               None \<Rightarrow> None
             | Some (ssid1, p1) \<Rightarrow>
                 (case next_entry buf p1 of
                    None \<Rightarrow> None
                  | Some (ssid2, p2) \<Rightarrow>
                      Some (take 511 (PAGE_START @ ssid1 @ '', '' @ ssid2 @ PAGE_MORE),
                        s\<lparr>wifiScanPtr := Some p2, wifiScanCount := wifiScanCount s - 2\<rparr>))))
     | _ \<Rightarrow> None)"

definition scan_start :: "scan_page \<Rightarrow> (string \<times> scan_page) option" where
  "scan_start s =
    (case (wifiScanResults s, wifiScanPtr s) of
       (Some buf, Some p) \<Rightarrow>
         (let s = s\<lparr>wifiScanCount := count_ssids (drop p buf)\<rparr> in
          if wifiScanCount s \<le> 2 then Some (buf, s\<lparr>wifiScanState := SCAN_INIT, wifiScanPtr := None\<rparr>)
          else scan_more (s\<lparr>wifiScanState := SCAN_MORE\<rparr>))
     | _ \<Rightarrow> None)"

text \<open>The result is the return value, the value read (if any) and the state. Memory is available and the
  file can be read.\<close>

definition UpdateWifiScanResults :: "bool \<Rightarrow> string option \<Rightarrow> scan_page \<Rightarrow> ((bool \<times> string option) \<times> scan_page) option" where
  "UpdateWifiScanResults internal file s =
    (let s = (if internal then s\<lparr>wifiScanState := SCAN_INIT\<rparr> else s);
         served = map_option (\<lambda>(data, s). ((True, Some data), s)) in
     case wifiScanState s of
       SCAN_INIT \<Rightarrow>
         (let s = scan_load file s in
          if wifiScanPtr s = None then Some ((False, None), s)
          else if internal then Some ((False, wifiScanResults s), s)
          else served (scan_start (s\<lparr>wifiScanState := SCAN_START\<rparr>)))
     | SCAN_START \<Rightarrow> served (scan_start s)
     | SCAN_MORE \<Rightarrow> served (scan_more s))"

section \<open>Status\<close>

text \<open>The value read, if the file holds a word.\<close>

definition UpdateWifiStatus :: "fsys \<Rightarrow> bool \<times> bytes option" where
  "UpdateWifiStatus fs =
    (case fs ''/tmp/wifiStatus'' of
       None \<Rightarrow> (False, None)
     | Some c \<Rightarrow>
         (let w = (case scan_word c of None \<Rightarrow> [] | Some w \<Rightarrow> w) in
          if w \<noteq> [] then (True, Some w) else (False, None)))"

section \<open>Configuration\<close>

text \<open>The key is made of ten constant bytes and the six of the hub's MAC address.\<close>

definition wifi_iv :: bytes where
  "wifi_iv = [0xBE, 0x98, 0x8A, 0xEC, 0x22, 0x75, 0x43, 0xF6, 0x92, 0xCA, 0xB1, 0xE7, 0xEC, 0x7B, 0x0A, 0xC0]"

definition wifi_key :: bytes where
  "wifi_key = [0x2E, 0x2C, 0x18, 0x3D, 0xBB, 0x77, 0x49, 0x3D, 0xB0, 0x8A]"

definition hex_digit :: "u8 \<Rightarrow> nat option" where
  "hex_digit c =
    (if 48 \<le> c \<and> c \<le> 57 then Some (unat c - 48)
     else if 65 \<le> c \<and> c \<le> 70 then Some (unat c - 55)
     else if 97 \<le> c \<and> c \<le> 102 then Some (unat c - 87)
     else None)"

text \<open>\<^verbatim>\<open>strtoull(s, NULL, 16)\<close> of twelve characters without sign or prefix: the leading hexadecimal digits.\<close>

fun hex_value :: "u64 \<Rightarrow> bytes \<Rightarrow> u64" where
  "hex_value acc [] = acc"
| "hex_value acc (c # cs) = (case hex_digit c of None \<Rightarrow> acc | Some d \<Rightarrow> hex_value (acc * 16 + of_nat d) cs)"

definition mac_chars :: "bytes \<Rightarrow> bytes" where
  "mac_chars d = map (\<lambda>i. d ! i) [0, 1, 3, 4, 6, 7, 9, 10, 12, 13, 15, 16]"

definition mac_byte :: "u64 \<Rightarrow> nat \<Rightarrow> u8" where
  "mac_byte m i = ucast (drop_bit (8 * i) m AND 0xFF)"

text \<open>\<open>d\<close> is the buffer after the MAC address was read into it.\<close>

definition wifi_aes_key :: "bytes \<Rightarrow> bytes" where
  "wifi_aes_key d =
    (let m = hex_value 0 (mac_chars d); k = (\<lambda>i. wifi_key ! i) in
     [k 0, k 1, mac_byte m 0, k 2, mac_byte m 1, k 3, mac_byte m 2, k 4, k 5, mac_byte m 3, k 6, mac_byte m 4,
      k 7, mac_byte m 5, k 8, k 9])"

definition isprint :: "u8 \<Rightarrow> bool" where
  "isprint c \<longleftrightarrow> 0x20 \<le> c \<and> c \<le> 0x7E"

text \<open>The first byte that cannot be printed, among the first \<open>len\<close>, ends the password.\<close>

definition trim_padding :: "nat \<Rightarrow> bytes \<Rightarrow> bytes" where
  "trim_padding len buf =
    (let k = length (takeWhile isprint (take len buf)) in if k < len then buf[k := 0] else buf)"

text \<open>The two password buffers have 64 bytes. \<open>store\<close> is the file system.\<close>

record prov_cfg =
  wifiSSID :: bytes
  wifiAuthType :: bytes
  wifiPasswd :: bytes
  wifiPasswdLen :: nat
  lastSSID :: bytes
  lastAuthType :: bytes
  lastPasswd :: bytes
  lastPasswdLen :: nat
  store :: fsys

definition prov_cfg_init :: "fsys \<Rightarrow> prov_cfg" where
  "prov_cfg_init fs =
    \<lparr>wifiSSID = [], wifiAuthType = [], wifiPasswd = replicate MAX_PASSWD_LEN 0, wifiPasswdLen = 0,
     lastSSID = [], lastAuthType = [], lastPasswd = replicate MAX_PASSWD_LEN 0, lastPasswdLen = 0, store = fs\<rparr>"

text \<open>What the program does not control: whether the file can be written, the contents of the local
  variables, and the memory behind the password.\<close>

record prov_env =
  cfg_writable :: bool
  data0 :: bytes
  ctx0 :: AES_ctx
  beyond :: bytes

definition decode_passwd :: "prov_env \<Rightarrow> fsys \<Rightarrow> bytes \<Rightarrow> nat \<Rightarrow> bytes option" where
  "decode_passwd e fs buf len =
    (let mac = snd (IRIS_getMACAddr1 fs (data0 e)) @ [0];
         d = mac @ drop (length mac) (data0 e);
         ctx = AES_init_ctx_iv (ctx0 e) (wifi_aes_key d) wifi_iv in
     map_option (\<lambda>(ctx, buf). trim_padding len buf) (AES_CBC_decrypt_buffer ctx buf len))"

definition config_text :: "bytes \<Rightarrow> bytes \<Rightarrow> bytes \<Rightarrow> bytes" where
  "config_text s auth key =
    take 511 (str ''ssid: '' @ s @ [10] @ str ''security: '' @ auth @ [10] @ str ''key: '' @ key @ [10])"

definition config_changed :: "prov_cfg \<Rightarrow> bool" where
  "config_changed s \<longleftrightarrow>
    wifiSSID s \<noteq> [] \<and> wifiSSID s \<noteq> lastSSID s \<and>
    wifiAuthType s \<noteq> [] \<and> wifiAuthType s \<noteq> lastAuthType s \<and>
    wifiPasswdLen s \<noteq> 0 \<and> take (wifiPasswdLen s) (wifiPasswd s) \<noteq> take (wifiPasswdLen s) (lastPasswd s)"

definition updateConfig :: "prov_env \<Rightarrow> prov_cfg \<Rightarrow> prov_cfg option" where
  "updateConfig e s =
    (if \<not> config_changed s \<or> \<not> cfg_writable e then Some s
     else
       (case decode_passwd e (store s) (wifiPasswd s) (wifiPasswdLen s) of
          None \<Rightarrow> None
        | Some buf \<Rightarrow>
            (let key = cstr (buf @ beyond e);
                 s = s\<lparr>wifiPasswd := buf, store := (store s)(TEST_WIFI_CFG_FILE \<mapsto> config_text (wifiSSID s) (wifiAuthType s) key)\<rparr> in
             Some (s\<lparr>lastSSID := wifiSSID s, lastAuthType := wifiAuthType s, lastPasswdLen := wifiPasswdLen s,
                     lastPasswd := take (wifiPasswdLen s) buf @ drop (wifiPasswdLen s) (lastPasswd s)\<rparr>))))"

text \<open>The callbacks for the three values: the return value and the state.\<close>

definition ValidateWifiSSID :: "prov_env \<Rightarrow> bytes \<Rightarrow> prov_cfg \<Rightarrow> (bool \<times> prov_cfg) option" where
  "ValidateWifiSSID e v s =
    (if length v > MAX_SSID_LEN then Some (False, s)
     else map_option (\<lambda>s. (True, s)) (updateConfig e (s\<lparr>wifiSSID := cstr v\<rparr>)))"

fun dash_to_underscore :: "bytes \<Rightarrow> bytes" where
  "dash_to_underscore [] = []"
| "dash_to_underscore (c # cs) = (if c = 45 then 95 # cs else c # dash_to_underscore cs)"

definition AUTH_TYPES :: "bytes list" where
  "AUTH_TYPES = [str ''None'', str ''WEP'', str ''WPA-PSK'', str ''WPA2-PSK'']"

definition ValidateWifiAuthType :: "prov_env \<Rightarrow> bytes \<Rightarrow> prov_cfg \<Rightarrow> (bool \<times> prov_cfg) option" where
  "ValidateWifiAuthType e v s =
    (if v \<in> set AUTH_TYPES then map_option (\<lambda>s. (True, s)) (updateConfig e (s\<lparr>wifiAuthType := dash_to_underscore v\<rparr>))
     else Some (False, s))"

definition ValidateWifiPasswd :: "prov_env \<Rightarrow> bytes \<Rightarrow> prov_cfg \<Rightarrow> (bool \<times> prov_cfg) option" where
  "ValidateWifiPasswd e v s =
    (if length v > MAX_PASSWD_LEN then Some (False, s)
     else map_option (\<lambda>s. (True, s))
       (updateConfig e (s\<lparr>wifiPasswd := v @ drop (length v) (wifiPasswd s), wifiPasswdLen := length v\<rparr>)))"

text \<open>What a client may write.\<close>

datatype gatt_write = WriteSSID bytes | WriteAuth bytes | WritePasswd bytes

fun gatt_step :: "prov_env \<Rightarrow> gatt_write \<Rightarrow> prov_cfg \<Rightarrow> (bool \<times> prov_cfg) option" where
  "gatt_step e (WriteSSID v) s = ValidateWifiSSID e v s"
| "gatt_step e (WriteAuth v) s = ValidateWifiAuthType e v s"
| "gatt_step e (WritePasswd v) s = ValidateWifiPasswd e v s"

section \<open>Idle time\<close>

text \<open>Every request from a client is activity. The handler runs every 15 seconds; \<open>True\<close> keeps the program
  running.\<close>

abbreviation (input) PROV_IDLE_CHECK :: int where "PROV_IDLE_CHECK \<equiv> 15"
abbreviation (input) PROV_IDLE_TIMEOUT :: int where "PROV_IDLE_TIMEOUT \<equiv> 150"

definition timeout_handler :: "int \<Rightarrow> int \<Rightarrow> bool" where
  "timeout_handler wifiActivity now \<longleftrightarrow> wifiActivity + PROV_IDLE_TIMEOUT \<ge> now"

section \<open>Paging through the scan results\<close>

text \<open>What a client may rely on: it reads a list of entries, two at a time; \<open>rest\<close> are those still to be
  delivered (none: the next read starts again). A short list is delivered as it is in the file.\<close>

definition page_text :: "string \<Rightarrow> string \<Rightarrow> string" where
  "page_text e1 e2 = PAGE_START @ e1 @ '', '' @ e2 @ PAGE_MORE"

definition last_text :: "string list \<Rightarrow> string" where
  "last_text es = PAGE_START @ comma_list es @ SCAN_END_TEXT"

definition pager :: "string list \<Rightarrow> string list \<Rightarrow> (bool \<times> string option) \<times> string list" where
  "pager es rest =
    (if rest = [] \<and> length es \<le> 2 then ((True, Some (scan_doc es)), [])
     else if rest = [] then ((True, Some (page_text (es ! 0) (es ! 1))), drop 2 es)
     else if length rest \<le> 2 then ((True, Some (last_text rest)), [])
     else ((True, Some (page_text (rest ! 0) (rest ! 1))), drop 2 rest))"

definition good_entry :: "string \<Rightarrow> bool" where
  "good_entry e \<longleftrightarrow> entry_ok e \<and> length e < 128 \<and> CHR 0x00 \<notin> set e"

definition paging :: "string list \<Rightarrow> scan_page \<Rightarrow> bool" where
  "paging rest s \<longleftrightarrow>
    (if rest = [] then wifiScanState s = SCAN_INIT
     else wifiScanState s = SCAN_MORE \<and> list_all good_entry rest \<and> wifiScanCount s = length rest \<and>
       (\<exists>pre p. wifiScanResults s = Some (pre @ comma_list rest @ SCAN_END_TEXT) \<and> wifiScanPtr s = Some p \<and>
         p \<le> length pre \<and> no_key (drop p pre)))"

lemma length_SSID_KEY: "length SSID_KEY = 8"
  by (simp add: SSID_KEY_def quoted_def)

lemma find_from_pre:
  assumes "p \<le> length pre" "no_key (drop p pre)"
  shows "find_from (pre @ SSID_KEY @ y) p = Some (length pre)"
  using assms find_sub_skip [OF assms(2), of "SSID_KEY @ y"] find_sub_here by (simp add: find_from_def)

lemma entry_okD:
  assumes "entry_ok e"
  obtains body where "e = SSID_KEY @ body @ ''}''" "no_key (body @ ''}'')"
  using assms unfolding entry_ok_def by blast

lemma nth_here: "xs = x @ c # y \<Longrightarrow> n = length x \<Longrightarrow> xs ! n = c"
  by simp

lemma next_entry_step:
  assumes "entry_ok e" "length e < 128" "p \<le> length pre" "no_key (drop p pre)"
  shows "next_entry (pre @ e @ '','' @ SSID_KEY @ y) p = Some (e, length pre + length e - 1)"
proof -
  obtain body where e: "e = SSID_KEY @ body @ ''}''" "no_key (body @ ''}'')"
    using assms(1) by (rule entry_okD)
  let ?buf = "pre @ e @ '','' @ SSID_KEY @ y"
  have a: "find_from ?buf p = Some (length pre)"
    using find_from_pre [OF assms(3,4)] e(1) by simp
  have "drop (length pre + length SSID_KEY) (pre @ e @ '','') = (body @ ''}'') @ '',''"
    using e(1) by simp
  then have "no_key (drop (length pre + length SSID_KEY) (pre @ e @ '',''))"
    using no_key_append [OF e(2), of "'',''"] by simp
  then have b: "find_from ?buf (length pre + length SSID_KEY) = Some (length pre + length e + 1)"
    using find_from_pre [of "length pre + length SSID_KEY" "pre @ e @ '',''" y] e(1) by simp
  obtain n where n: "length pre + length e = Suc n"
    using e(1) by simp
  have chars: "?buf ! (length pre + length e + 1) = CHR ''{''" "?buf ! (length pre + length e) = CHR '',''"
    "?buf ! n = CHR ''}''"
  proof -
    show "?buf ! (length pre + length e + 1) = CHR ''{''"
      by (rule nth_here [where x = "pre @ e @ '',''" and y = "tl SSID_KEY @ y"]) (simp_all add: SSID_KEY_def)
    show "?buf ! (length pre + length e) = CHR '',''"
      by (rule nth_here [where x = "pre @ e" and y = "SSID_KEY @ y"]) simp_all
    show "?buf ! n = CHR ''}''"
      by (rule nth_here [where x = "pre @ SSID_KEY @ body" and y = "'','' @ SSID_KEY @ y"]) (use e(1) n in simp_all)
  qed
  have n': "length pre + length e - 1 = n" "length pre + length e + 1 = Suc (Suc n)"
    using n by simp_all
  have brace: "back_to_brace ?buf (Suc (Suc n)) = Some n"
    using chars n n' by (cases n) simp_all
  have "Suc n - length pre = length e" "length pre \<le> Suc n"
    using n by simp_all
  then show ?thesis
    using a b brace assms(2) unfolding next_entry_def n' by (simp add: n')
qed

lemma comma_list_split: "es = e # es' \<Longrightarrow> es' \<noteq> [] \<Longrightarrow> comma_list es = e @ '','' @ comma_list es'"
  by (simp add: comma_list_Cons)

lemma comma_list_key:
  assumes "entry_ok e"
  shows "\<exists>y. comma_list (e # es) = SSID_KEY @ y"
proof -
  obtain body where "e = SSID_KEY @ body @ ''}''"
    using assms by (rule entry_okD)
  then show ?thesis
    by (simp add: comma_list_Cons)
qed

lemma next_entry_list:
  assumes "good_entry e1" "good_entry e2" "p \<le> length pre" "no_key (drop p pre)"
  shows "next_entry (pre @ comma_list (e1 # e2 # es) @ z) p = Some (e1, length pre + length e1 - 1)"
proof -
  obtain y where y: "comma_list (e2 # es) = SSID_KEY @ y"
    using comma_list_key assms(2) good_entry_def by blast
  have "pre @ comma_list (e1 # e2 # es) @ z = pre @ e1 @ '','' @ SSID_KEY @ (y @ z)"
    using y by (simp add: comma_list_Cons [of e1])
  then show ?thesis
    using next_entry_step [OF _ _ assms(3,4), of e1 "y @ z"] assms(1) by (simp add: good_entry_def)
qed

text \<open>The pointer at the brace that ends an entry: up to the next entry there is no key.\<close>

lemma no_key_brace:
  assumes "good_entry e"
  shows "length pre + length e - 1 \<le> length (pre @ e @ '','')" "no_key (drop (length pre + length e - 1) (pre @ e @ '',''))"
proof -
  obtain body where "e = SSID_KEY @ body @ ''}''"
    using assms by (meson entry_okD good_entry_def)
  then have "drop (length pre + length e - 1) (pre @ e @ '','') = ''},''"
    by simp
  then show "no_key (drop (length pre + length e - 1) (pre @ e @ '',''))"
    by (simp only: no_key.simps char.inject) simp
qed simp

lemma count_ssids_skip: "no_key x \<Longrightarrow> count_ssids (x @ SSID_KEY @ y) = Suc (count_ssids y)"
  using find_sub_skip [of x "SSID_KEY @ y"] find_sub_here [of y] by (simp add: count_ssids.simps [of "x @ SSID_KEY @ y"])

lemma count_ssids_none: "no_key x \<Longrightarrow> count_ssids x = 0"
  using find_sub_skip [of x "[]"] length_SSID_KEY by (subst count_ssids.simps) auto

lemma no_key_texts: "no_key SCAN_START_TEXT" "no_key SCAN_END_TEXT"
  by (simp_all add: SCAN_START_TEXT_def SCAN_END_TEXT_def quoted_def)

lemma count_ssids_list:
  assumes "list_all good_entry es" "no_key x"
  shows "count_ssids (x @ comma_list es @ SCAN_END_TEXT) = length es"
  using assms
proof (induction es arbitrary: x)
  case Nil
  then show ?case
    using no_key_append [OF _ no_key_texts(2)] count_ssids_none by simp
next
  case (Cons e es)
  obtain body where e: "e = SSID_KEY @ body @ ''}''" "no_key (body @ ''}'')"
    using Cons.prems(1) entry_okD [of e] unfolding good_entry_def by auto
  have sep: "no_key ((body @ ''}'') @ (if es = [] then '''' else '',''))"
    by (rule no_key_append [OF e(2)]) simp
  have "x @ comma_list (e # es) @ SCAN_END_TEXT =
      x @ SSID_KEY @ (((body @ ''}'') @ (if es = [] then '''' else '','')) @ comma_list es @ SCAN_END_TEXT)"
    using e(1) by (simp add: comma_list_Cons)
  then show ?case
    using count_ssids_skip [OF Cons.prems(2)] Cons.IH [OF _ sep] Cons.prems(1) by simp
qed

lemma pagingI:
  assumes "rest \<noteq> []" "wifiScanState s = SCAN_MORE" "list_all good_entry rest" "wifiScanCount s = length rest"
    and "wifiScanResults s = Some (pre @ comma_list rest @ SCAN_END_TEXT)" "wifiScanPtr s = Some p"
    and "p \<le> length pre" "no_key (drop p pre)"
  shows "paging rest s"
  using assms unfolding paging_def by auto

lemma short_page: "good_entry e1 \<Longrightarrow> good_entry e2 \<Longrightarrow> take 511 (page_text e1 e2) = page_text e1 e2"
  by (rule take_all) (simp add: page_text_def PAGE_START_def PAGE_MORE_def quoted_def good_entry_def)

lemma short_last: "list_all good_entry es \<Longrightarrow> length es \<le> 2 \<Longrightarrow> take 511 (last_text es) = last_text es"
proof -
  assume es: "list_all good_entry es" "length es \<le> 2"
  then consider "es = []" | e where "es = [e]" | e1 e2 where "es = [e1, e2]"
    by (cases es; cases "tl es"; cases "tl (tl es)") auto
  then show ?thesis
    using es(1) by (intro take_all, cases) (simp_all add: last_text_def PAGE_START_def SCAN_END_TEXT_def quoted_def good_entry_def)
qed

lemma scan_more_page:
  assumes "wifiScanResults s = Some (pre @ comma_list rest @ SCAN_END_TEXT)" "wifiScanPtr s = Some p"
    and "p \<le> length pre" "no_key (drop p pre)" "list_all good_entry rest" "wifiScanCount s = length rest" "2 < length rest"
    and "wifiScanState s = SCAN_MORE"
  shows "\<exists>s'. scan_more s = Some (page_text (rest ! 0) (rest ! 1), s') \<and> paging (drop 2 rest) s'"
proof -
  obtain e1 e2 e3 es where rest: "rest = e1 # e2 # e3 # es"
    using assms(7) by (cases rest; cases "tl rest"; cases "tl (tl rest)") auto
  have good: "good_entry e1" "good_entry e2" "good_entry e3" "list_all good_entry es"
    using assms(5) by (simp_all add: rest)
  let ?p1 = "length pre + length e1 - 1" and ?pre2 = "pre @ e1 @ '',''"
  let ?p2 = "length ?pre2 + length e2 - 1" and ?pre3 = "?pre2 @ e2 @ '',''"
  have buf: "pre @ comma_list rest @ SCAN_END_TEXT = ?pre2 @ comma_list (e2 # e3 # es) @ SCAN_END_TEXT"
    by (simp add: rest comma_list_Cons [of e1])
  have n1: "next_entry (pre @ comma_list rest @ SCAN_END_TEXT) p = Some (e1, ?p1)"
    unfolding rest by (rule next_entry_list [OF good(1,2) assms(3,4)])
  have n2: "next_entry (pre @ comma_list rest @ SCAN_END_TEXT) ?p1 = Some (e2, ?p2)"
    unfolding buf by (rule next_entry_list [OF good(2,3) no_key_brace [OF good(1)]])
  let ?s = "s\<lparr>wifiScanPtr := Some ?p2, wifiScanCount := wifiScanCount s - 2\<rparr>"
  have "scan_more s = Some (page_text e1 e2, ?s)"
    using assms(1,2,6,7) n1 n2 short_page [OF good(1,2)] by (simp add: scan_more_def page_text_def)
  moreover have "paging (drop 2 rest) ?s"
  proof (rule pagingI)
    show "wifiScanResults ?s = Some (?pre3 @ comma_list (drop 2 rest) @ SCAN_END_TEXT)"
      using assms(1) buf by (simp add: rest comma_list_Cons [of e2])
    show "?p2 \<le> length ?pre3" "no_key (drop ?p2 ?pre3)"
      using no_key_brace [OF good(2)] by blast+
  qed (use good assms(6,8) in \<open>simp_all add: rest\<close>)
  ultimately show ?thesis
    by (auto simp: rest)
qed

lemma scan_more_last:
  assumes "wifiScanResults s = Some (pre @ comma_list rest @ SCAN_END_TEXT)" "wifiScanPtr s = Some p"
    and "p \<le> length pre" "no_key (drop p pre)" "list_all good_entry rest" "wifiScanCount s = length rest"
    and "rest \<noteq> []" "length rest \<le> 2"
  shows "\<exists>s'. scan_more s = Some (last_text rest, s') \<and> paging [] s'"
proof -
  obtain y where y: "comma_list rest = SSID_KEY @ y"
    using assms(5,7) comma_list_key by (cases rest) (auto simp: good_entry_def)
  then have "find_from (pre @ comma_list rest @ SCAN_END_TEXT) p = Some (length pre)"
    using find_from_pre [OF assms(3,4), of "y @ SCAN_END_TEXT"] by simp
  then show ?thesis
    using assms(1,2,6,8) short_last [OF assms(5,8)] by (simp add: scan_more_def last_text_def paging_def)
qed

lemma scan_doc_text: "list_all good_entry es \<Longrightarrow> takeWhile (\<lambda>x. x \<noteq> CHR 0x00) (scan_doc es) = scan_doc es"
proof -
  assume "list_all good_entry es"
  then have "CHR 0x00 \<notin> set (comma_list es)"
    by (induction es rule: comma_list.induct) (auto simp: good_entry_def)
  then show ?thesis
    by (auto simp: takeWhile_eq_all_conv scan_doc_def SCAN_START_TEXT_def SCAN_END_TEXT_def quoted_def)
qed

lemma scan_first:
  assumes "list_all good_entry es" "wifiScanState s = SCAN_INIT"
  shows "\<exists>s'. UpdateWifiScanResults False (Some (scan_doc es)) s = Some (fst (pager es []), s') \<and> paging (snd (pager es [])) s'"
proof -
  let ?s = "s\<lparr>wifiScanResults := Some (scan_doc es), wifiScanPtr := Some 0, wifiScanState := SCAN_START\<rparr>"
  have doc: "scan_doc es \<noteq> []"
    by (simp add: scan_doc_def SCAN_END_TEXT_def)
  have load: "UpdateWifiScanResults False (Some (scan_doc es)) s = map_option (\<lambda>(data, s). ((True, Some data), s)) (scan_start ?s)"
    using assms doc by (simp add: UpdateWifiScanResults_def scan_load_def scan_doc_text)
  have count: "count_ssids (scan_doc es) = length es"
    unfolding scan_doc_def by (rule count_ssids_list [OF assms(1) no_key_texts(1)])
  show ?thesis
  proof (cases "length es \<le> 2")
    case True
    then show ?thesis
      unfolding load by (simp add: scan_start_def count pager_def paging_def)
  next
    case False
    let ?s1 = "?s\<lparr>wifiScanCount := length es, wifiScanState := SCAN_MORE\<rparr>"
    have "\<exists>s'. scan_more ?s1 = Some (page_text (es ! 0) (es ! 1), s') \<and> paging (drop 2 es) s'"
      by (rule scan_more_page [where pre = SCAN_START_TEXT and p = 0])
        (use False assms(1) no_key_texts(1) in \<open>simp_all add: scan_doc_def\<close>)
    then show ?thesis
      using False unfolding load by (auto simp: scan_start_def count pager_def)
  qed
qed

lemma scan_next:
  assumes "paging rest s" "rest \<noteq> []"
  shows "\<exists>s'. UpdateWifiScanResults False file s = Some (fst (pager es rest), s') \<and> paging (snd (pager es rest)) s'"
proof -
  obtain pre p where *: "wifiScanResults s = Some (pre @ comma_list rest @ SCAN_END_TEXT)" "wifiScanPtr s = Some p"
      "p \<le> length pre" "no_key (drop p pre)" "list_all good_entry rest" "wifiScanCount s = length rest"
      "wifiScanState s = SCAN_MORE"
    using assms unfolding paging_def by auto
  have "UpdateWifiScanResults False file s = map_option (\<lambda>(data, s). ((True, Some data), s)) (scan_more s)"
    using *(7) by (simp add: UpdateWifiScanResults_def)
  then show ?thesis
    using scan_more_page [OF *(1-6) _ *(7)] scan_more_last [OF *(1-6) assms(2)] assms(2)
    by (cases "length rest \<le> 2") (auto simp: pager_def)
qed

interpretation scan: simulation "\<lambda>es. UpdateWifiScanResults False (Some (scan_doc es))" pager paging "list_all good_entry"
proof
  fix es rest s
  assume "list_all good_entry es" "paging rest s"
  then show "\<exists>s'. UpdateWifiScanResults False (Some (scan_doc es)) s = Some (fst (pager es rest), s') \<and> paging (snd (pager es rest)) s'"
    using scan_first [of es s] scan_next [of rest s] by (cases "rest = []") (simp_all add: paging_def [of "[]"])
qed

text \<open>A network that can be served: its name fits the buffer, and channel and signal have at most three
  digits. Its entry is then at most 127 characters long, and fits the buffers of the pager.\<close>

definition servable :: "cell \<Rightarrow> bool" where
  "servable c \<longleftrightarrow> name_fits c \<and> CHR 0x00 \<notin> set (ssid c) \<and> 0 \<le> channel c \<and> channel c < 1000 \<and> 0 \<le> signal c \<and> signal c < 1000"

lemma escape_no_zero: "CHR 0x00 \<notin> set s \<Longrightarrow> CHR 0x00 \<notin> set (escape s)"
  by (induction s) auto

lemma dec_text_no_zero: "CHR 0x00 \<notin> set (dec_text i)"
proof -
  have "char_of (unat c) \<noteq> CHR 0x00" if "c \<in> set (dec_str i)" for c
  proof
    assume "char_of (unat c) = CHR 0x00"
    then have "(of_char (char_of (unat c)) :: nat) = 0"
      by simp
    then have "unat c mod 256 = 0"
      by simp
    moreover have "is_digit c \<or> c = 45"
      using that nat_digits_digit by (auto simp: dec_str_def split: if_splits)
    ultimately show False
      using unat_u8_less [of c] by (auto simp: is_digit_def word_le_nat_alt)
  qed
  then show ?thesis
    unfolding dec_text_def set_map by (metis (no_types, lifting) imageE)
qed

lemma servable_good: "servable c \<Longrightarrow> good_entry (cell_entry True c)"
proof -
  assume c: "servable c"
  have sec: "length (single_security (comma_list (security c))) \<le> 8" "CHR 0x00 \<notin> set (single_security (comma_list (security c)))"
    using single_security_cases [of "comma_list (security c)"] by auto
  have "length (short_entry c) < 128"
    using c sec(1) length_dec_text [of "channel c"] length_dec_text [of "signal c"]
    by (simp add: length_short_entry servable_def name_fits_def)
  moreover have "CHR 0x00 \<notin> set (short_entry c)"
    using c sec(2) escape_no_zero dec_text_no_zero by (simp add: short_entry_def json_item_def quoted_def servable_def)
  ultimately show ?thesis
    using short_entry_ok by (simp add: good_entry_def cell_entry_def)
qed

lemma servable_goods: "list_all servable cs \<Longrightarrow> list_all good_entry (map (cell_entry True) cs)"
  by (induction cs) (auto simp: servable_good)

text \<open>C36: reading the scan results over Bluetooth. Whatever scans are made between the reads, as long as
  their networks can be served, the reads of a client never go wrong and deliver what the pager specifies
  for the lists of entries: two at a time, in order, the list that was current when the round started.\<close>

theorem scan_paging_refines:
  assumes "list_all (list_all servable) scans"
  shows "\<exists>outs rest s. run_steps (\<lambda>es rest. Some (pager es rest)) (map (map (cell_entry True)) scans) [] = Some (outs, rest) \<and>
    run_steps (\<lambda>es. UpdateWifiScanResults False (Some (scan_doc es))) (map (map (cell_entry True)) scans) scan_page_init =
      Some (outs, s) \<and> (rest = [] \<longrightarrow> wifiScanState s = SCAN_INIT)"
proof -
  have "list_all (list_all good_entry) (map (map (cell_entry True)) scans)"
    using assms servable_goods by (induction scans) auto
  moreover have "paging [] scan_page_init"
    by (simp add: paging_def scan_page_init_def)
  ultimately obtain outs rest s where "run_steps (\<lambda>es rest. Some (pager es rest)) (map (map (cell_entry True)) scans) [] = Some (outs, rest)"
      "run_steps (\<lambda>es. UpdateWifiScanResults False (Some (scan_doc es))) (map (map (cell_entry True)) scans) scan_page_init = Some (outs, s)"
      "paging rest s"
    using scan.run_simulates by blast
  then show ?thesis
    by (auto simp: paging_def)
qed

theorem scan_paging_refines_witness:
  "\<exists>outs rest s. run_steps (\<lambda>es rest. Some (pager es rest)) (map (map (cell_entry True)) [sample_cells @ sample_cells, []]) [] = Some (outs, rest) \<and>
    run_steps (\<lambda>es. UpdateWifiScanResults False (Some (scan_doc es))) (map (map (cell_entry True)) [sample_cells @ sample_cells, []]) scan_page_init = Some (outs, s)"
proof -
  have "list_all (list_all servable) [sample_cells @ sample_cells, []]"
    by (simp add: sample_cells_def servable_def name_fits_def)
  from scan_paging_refines [OF this] show ?thesis
    by blast
qed

subsection \<open>A whole round\<close>

fun scan_pages :: "string list \<Rightarrow> string list" where
  "scan_pages (e1 # e2 # e3 # es) = page_text e1 e2 # scan_pages (e3 # es)"
| "scan_pages es = [last_text es]"

definition round_pages :: "string list \<Rightarrow> string list" where
  "round_pages es = (if length es \<le> 2 then [scan_doc es] else scan_pages es)"

lemma pager_rest:
  assumes "rest \<noteq> []"
  shows "run_steps (\<lambda>es rest. Some (pager es rest)) (replicate (length (scan_pages rest)) es) rest =
    Some (map (\<lambda>t. (True, Some t)) (scan_pages rest), [])"
  using assms by (induction rest rule: scan_pages.induct) (simp_all add: pager_def numeral_2_eq_2)

lemma pager_round:
  "run_steps (\<lambda>es rest. Some (pager es rest)) (replicate (length (round_pages es)) es) [] =
    Some (map (\<lambda>t. (True, Some t)) (round_pages es), [])"
proof (cases "length es \<le> 2")
  case False
  then obtain e1 e2 e3 r where "es = e1 # e2 # e3 # r"
    by (cases es; cases "tl es"; cases "tl (tl es)") auto
  then show ?thesis
    using pager_rest [of "e3 # r" es] by (simp add: round_pages_def pager_def)
qed (simp add: round_pages_def pager_def)

lemma run_steps_map: "run_steps step (map f xs) c = run_steps (\<lambda>x. step (f x)) xs c"
  by (induction xs arbitrary: c) (auto split: option.splits)

text \<open>C37: from the scan to the client. Of a scan whose networks can be served, a client that reads until
  there are no more pages gets every network, in the order of the scan and each once, and the next read
  starts again.\<close>

theorem scan_round_complete:
  assumes "list_all servable cs" "es = map (cell_entry True) cs"
  shows "\<exists>s. run_steps (\<lambda>file. UpdateWifiScanResults False (Some file)) (replicate (length (round_pages es)) (scan_doc es)) scan_page_init =
    Some (map (\<lambda>t. (True, Some t)) (round_pages es), s) \<and> wifiScanState s = SCAN_INIT"
proof -
  have "list_all (list_all good_entry) (replicate (length (round_pages es)) es)"
    using servable_goods [OF assms(1)] by (simp add: list_all_iff assms(2))
  moreover have "paging [] scan_page_init"
    by (simp add: paging_def scan_page_init_def)
  ultimately show ?thesis
    using scan.run_simulates [of "replicate (length (round_pages es)) es" "[]" scan_page_init] pager_round [of es]
      run_steps_map [of "\<lambda>file. UpdateWifiScanResults False (Some file)" scan_doc "replicate (length (round_pages es)) es"]
    by (auto simp: paging_def)
qed

theorem scan_round_complete_witness:
  "\<exists>s. run_steps (\<lambda>file. UpdateWifiScanResults False (Some file)) (replicate 2 (scan_doc (map (cell_entry True) (sample_cells @ sample_cells)))) scan_page_init =
    Some (map (\<lambda>t. (True, Some t)) (round_pages (map (cell_entry True) (sample_cells @ sample_cells))), s) \<and> wifiScanState s = SCAN_INIT"
proof -
  have "list_all servable (sample_cells @ sample_cells)"
    by (simp add: sample_cells_def servable_def name_fits_def)
  moreover have "length (round_pages (map (cell_entry True) (sample_cells @ sample_cells))) = 2"
    by (simp add: round_pages_def sample_cells_def)
  ultimately show ?thesis
    using scan_round_complete [OF _ refl, of "sample_cells @ sample_cells"] by simp
qed

section \<open>A configuration from the client\<close>

lemma cbc_decrypt_rest:
  assumes "length iv = 16" "length xs = 16 * n"
    and "cbc_encrypt_loop (\<lambda>b. Cipher b k) n iv xs = (iv', out)"
  shows "cbc_decrypt_loop (\<lambda>b. InvCipher b k) n iv (out @ rest) = (iv', xs @ rest)"
proof -
  have "cbc_encrypt_loop (\<lambda>b. Cipher b k) n iv (xs @ rest) = (iv', out @ rest)"
    using aes.cbc_encrypt_append [OF assms, of 0 rest iv' rest] by simp
  from aes.cbc_round_trip [OF assms(1) _ this] show ?thesis
    using assms(2) by simp
qed

text \<open>The buffer the MAC address is read to.\<close>

definition mac_data :: "prov_env \<Rightarrow> fsys \<Rightarrow> bytes" where
  "mac_data e fs = (let mac = snd (IRIS_getMACAddr1 fs (data0 e)) @ [0] in mac @ drop (length mac) (data0 e))"

lemma decode_passwd_encrypted:
  assumes "length (RoundKey (ctx0 e)) = 176" "length (RoundKey ctx) = 176"
    and "AES_CBC_encrypt_buffer (AES_init_ctx_iv ctx (wifi_aes_key (mac_data e fs)) wifi_iv) msg (length msg) = Some (ctx', c)"
    and "length msg = 16 * n"
  shows "length c = length msg \<and> decode_passwd e fs (c @ rest) (length c) = Some (trim_padding (length msg) (msg @ rest))"
proof -
  let ?k = "KeyExpansion (RoundKey ctx) (wifi_aes_key (mac_data e fs))"
  have iv: "length wifi_iv = 16" "take AES_BLOCKLEN wifi_iv = wifi_iv"
    by (simp_all add: wifi_iv_def)
  obtain iv' where enc: "cbc_encrypt_loop (\<lambda>b. Cipher b ?k) n wifi_iv msg = (iv', c)"
    using assms(3,4) iv by (auto simp: AES_CBC_encrypt_buffer_def AES_init_ctx_iv_def split: prod.splits)
  have len: "length c = length msg"
    using aes.cbc_encrypt_length [OF iv(1) _ enc] assms(4) by simp
  have key: "KeyExpansion (RoundKey (ctx0 e)) (wifi_aes_key (mac_data e fs)) = ?k"
    by (rule KeyExpansion_indep [OF assms(1,2)])
  then show ?thesis
    using cbc_decrypt_rest [OF iv(1) assms(4) enc, of rest] len assms(4) iv(2)
    by (simp add: decode_passwd_def AES_CBC_decrypt_buffer_def AES_init_ctx_iv_def mac_data_def Let_def)
qed

lemma trim_padding_text:
  assumes "list_all isprint p" "pad \<noteq> []" "\<not> isprint (hd pad)"
  shows "cstr (trim_padding (length (p @ pad)) (p @ pad @ rest) @ mem) = p"
proof -
  obtain c cs where pad: "pad = c # cs" "\<not> isprint c"
    using assms(2,3) by (cases pad) auto
  have "takeWhile isprint (p @ pad) = p"
    using assms(1) pad by (simp add: takeWhile_append2 list_all_iff)
  moreover have "(p @ c # cs @ rest)[length p := 0] = p @ 0 # cs @ rest"
    by simp
  moreover have "\<forall>x\<in>set p. x \<noteq> 0"
    using assms(1) by (auto simp: list_all_iff isprint_def)
  ultimately show ?thesis
    by (simp add: trim_padding_def pad(1) cstr_def takeWhile_append2 del: list_update_append)
qed

text \<open>What a client has to do: encrypt the password, padded with something that cannot be printed.\<close>

definition client_secret :: "prov_env \<Rightarrow> fsys \<Rightarrow> bytes \<Rightarrow> bytes \<Rightarrow> bool" where
  "client_secret e fs p c \<longleftrightarrow>
    (\<exists>ctx ctx' pad. length (RoundKey ctx) = 176 \<and> pad \<noteq> [] \<and> \<not> isprint (hd pad) \<and>
      length (p @ pad) mod 16 = 0 \<and> length (p @ pad) \<le> MAX_PASSWD_LEN \<and>
      AES_CBC_encrypt_buffer (AES_init_ctx_iv ctx (wifi_aes_key (mac_data e fs)) wifi_iv) (p @ pad) (length (p @ pad)) = Some (ctx', c))"

lemma client_secret_decode:
  assumes "client_secret e fs p c" "list_all isprint p" "length (RoundKey (ctx0 e)) = 176" "length buf = 64"
  obtains out where "decode_passwd e fs (c @ drop (length c) buf) (length c) = Some out" "cstr (out @ mem) = p"
    "0 < length c" "length c \<le> 64" "length out = 64"
proof -
  obtain ctx ctx' pad where *: "length (RoundKey ctx) = 176" "pad \<noteq> []" "\<not> isprint (hd pad)"
      "length (p @ pad) mod 16 = 0" "length (p @ pad) \<le> MAX_PASSWD_LEN"
      "AES_CBC_encrypt_buffer (AES_init_ctx_iv ctx (wifi_aes_key (mac_data e fs)) wifi_iv) (p @ pad) (length (p @ pad)) = Some (ctx', c)"
    using assms(1) unfolding client_secret_def by (elim exE conjE) (rule that)
  have n: "length (p @ pad) = 16 * (length (p @ pad) div 16)"
    using *(4) by presburger
  have dec: "length c = length (p @ pad)" "decode_passwd e fs (c @ drop (length c) buf) (length c) =
      Some (trim_padding (length (p @ pad)) (p @ pad @ drop (length c) buf))"
    using decode_passwd_encrypted [OF assms(3) *(1,6) n, of "drop (length c) buf"] unfolding append.assoc by blast+
  have "length (trim_padding (length (p @ pad)) (p @ pad @ drop (length c) buf)) = 64"
    using dec(1) *(5) assms(4) by (simp add: trim_padding_def Let_def)
  then show ?thesis
    using that [OF dec(2) trim_padding_text [OF assms(2) *(2,3)]] dec(1) *(2,5) by simp
qed

lemma perm3:
  assumes "mset ws = {#a, b, c#}"
  shows "ws \<in> {[a, b, c], [a, c, b], [b, a, c], [b, c, a], [c, a, b], [c, b, a]}"
proof -
  obtain x y z where ws: "ws = [x, y, z]"
    using arg_cong [OF assms, of size] by (auto simp: numeral_3_eq_3 length_Suc_conv)
  have "x = a \<and> {#y, z#} = {#b, c#} \<or> x = b \<and> {#y, z#} = {#a, c#} \<or> x = c \<and> {#y, z#} = {#a, b#}"
  proof -
    have "x \<in># {#a, b, c#}"
      using assms ws by (metis list.set_intros(1) set_mset_mset)
    moreover have "add_mset x {#y, z#} = {#a, b, c#}"
      using assms ws by simp
    ultimately show ?thesis
      by (auto simp: add_eq_conv_ex)
  qed
  then show ?thesis
    unfolding ws by (auto simp: add_eq_conv_ex)
qed

lemma updateConfig_same: "\<not> config_changed s \<Longrightarrow> updateConfig e s = Some s"
  by (simp add: updateConfig_def)

lemma cstr_whole: "0 \<notin> set s \<Longrightarrow> cstr s = s"
  by (auto simp: cstr_def takeWhile_eq_all_conv)

lemma auth_type_text:
  assumes "a \<in> set AUTH_TYPES"
  shows "dash_to_underscore a \<noteq> []" "length (dash_to_underscore a) \<le> 8"
  using assms by (auto simp: AUTH_TYPES_def str_def)

text \<open>C35: a client sends the name of the network, the authentication type and the password, encrypted with
  the key of this hub and padded with bytes that cannot be printed, in any order. All three writes are
  accepted, and the configuration file then holds exactly the values the client meant.\<close>

theorem provisioning_round_trip:
  assumes "mset ws = {#WriteSSID name, WriteAuth a, WritePasswd c#}"
    and "name \<noteq> []" "length name \<le> 32" "0 \<notin> set name" "a \<in> set AUTH_TYPES"
    and "client_secret e fs p c" "list_all isprint p" "c \<noteq> replicate (length c) 0"
    and "cfg_writable e" "length (RoundKey (ctx0 e)) = 176"
  shows "\<exists>s. run_steps (gatt_step e) ws (prov_cfg_init fs) = Some ([True, True, True], s) \<and>
    store s TEST_WIFI_CFG_FILE =
      Some (str ''ssid: '' @ name @ [10] @ str ''security: '' @ dash_to_underscore a @ [10] @ str ''key: '' @ p @ [10])"
proof -
  obtain out where dec: "decode_passwd e fs (c @ drop (length c) (replicate 64 0)) (length c) = Some out"
      "cstr (out @ beyond e) = p" "0 < length c" "length c \<le> 64" "length out = 64"
    by (rule client_secret_decode [OF assms(6,7,10), of "replicate 64 0" "beyond e"]) simp
  let ?s = "(prov_cfg_init fs)\<lparr>wifiSSID := name, wifiAuthType := dash_to_underscore a,
    wifiPasswd := c @ drop (length c) (replicate 64 0), wifiPasswdLen := length c\<rparr>"
  have p: "length p \<le> 64"
    using dec(2,5) trim_padding_text assms(6,7) unfolding client_secret_def by auto
  have auth: "dash_to_underscore a \<noteq> []" "length (dash_to_underscore a) \<le> 8"
    by (rule auth_type_text [OF assms(5)])+
  have "take (length c) (replicate 64 0) = replicate (length c) (0 :: u8)"
    using dec(4) by simp
  then have "config_changed ?s"
    using assms(2,8) auth(1) dec(3) by (auto simp: config_changed_def prov_cfg_init_def)
  then obtain s where s: "updateConfig e ?s = Some s"
      "store s TEST_WIFI_CFG_FILE = Some (config_text name (dash_to_underscore a) p)"
    using assms(9) dec(1,2) by (simp add: updateConfig_def prov_cfg_init_def)
  have "config_text name (dash_to_underscore a) p =
      str ''ssid: '' @ name @ [10] @ str ''security: '' @ dash_to_underscore a @ [10] @ str ''key: '' @ p @ [10]"
    unfolding config_text_def using assms(3) auth(2) p by (intro take_all) (simp add: str_def)
  moreover have "run_steps (gatt_step e) ws (prov_cfg_init fs) = Some ([True, True, True], s)"
    using perm3 [OF assms(1)] assms(3,5) dec(4) s(1)
    by (auto simp: ValidateWifiSSID_def ValidateWifiAuthType_def ValidateWifiPasswd_def cstr_whole [OF assms(4)]
        updateConfig_same config_changed_def prov_cfg_init_def)
  ultimately show ?thesis
    using s(2) by simp
qed

text \<open>A hub, and a client that knows its key.\<close>

definition sample_prov_env :: prov_env where
  "sample_prov_env =
    \<lparr>cfg_writable = True, data0 = replicate 512 0, ctx0 = \<lparr>RoundKey = replicate 176 0, Iv = replicate 16 0\<rparr>, beyond = []\<rparr>"

definition sample_mac :: fsys where
  "sample_mac = [''/tmp/mfg/config/macAddr1'' \<mapsto> str ''00:11:22:33:44:55'']"

definition sample_key :: bytes where
  "sample_key = [0x2E, 0x2C, 0x55, 0x18, 0x44, 0x3D, 0x33, 0xBB, 0x77, 0x22, 0x49, 0x11, 0x3D, 0x00, 0xB0, 0x8A]"

definition sample_msg :: bytes where
  "sample_msg = str ''secret'' @ [0, 0, 0, 0, 0, 0, 0, 0, 0, 0]"

definition sample_secret :: bytes where
  "sample_secret = Cipher (XorWithIv sample_msg wifi_iv) (KeyExpansion (replicate 176 0) sample_key)"

lemma sample_mac_data: "mac_data sample_prov_env sample_mac = str ''00:11:22:33:44:55'' @ replicate 495 0"
proof -
  have "scan_word (str ''00:11:22:33:44:55'') = Some (str ''00:11:22:33:44:55'')"
    by (simp add: scan_word_def str_def is_space_def cstr_def)
  moreover have "length (str ''00:11:22:33:44:55'') = 17" "replicate 495 (0 :: u8) = 0 # replicate 494 0"
    by (simp_all add: str_def replicate_Suc [symmetric] del: replicate_Suc)
  ultimately show ?thesis
    by (simp add: mac_data_def sample_mac_def sample_prov_env_def IRIS_getMACAddr1_def get_word_file_def)
qed

lemma sample_aes_key: "wifi_aes_key (mac_data sample_prov_env sample_mac) = sample_key"
  unfolding sample_mac_data
  by (simp add: wifi_aes_key_def mac_chars_def mac_byte_def wifi_key_def sample_key_def str_def hex_digit_def)

lemma sample_block: "XorWithIv sample_msg wifi_iv = [205, 253, 233, 158, 71, 1, 67, 246, 146, 202, 177, 231, 236, 123, 10, 192]"
  by (simp add: XorWithIv_def xor_bytes_code sample_msg_def wifi_iv_def str_def)

lemma sample_secret_0: "sample_secret ! 0 \<noteq> 0"
  unfolding sample_secret_def sample_block by code_simp

lemma sample_secret_length: "length sample_secret = 16"
  by (simp add: sample_secret_def sample_block)

lemma sample_encrypted:
  "AES_CBC_encrypt_buffer (AES_init_ctx_iv (ctx0 sample_prov_env) sample_key wifi_iv) sample_msg 16 =
    Some (\<lparr>RoundKey = KeyExpansion (replicate 176 0) sample_key, Iv = sample_secret\<rparr>, sample_secret)"
proof -
  have "length sample_msg = 16" "blocks_of 16 = 1" "take AES_BLOCKLEN wifi_iv = wifi_iv"
    by (simp_all add: sample_msg_def str_def blocks_of_def wifi_iv_def)
  then show ?thesis
    by (simp add: AES_CBC_encrypt_buffer_def AES_init_ctx_iv_def sample_prov_env_def sample_secret_def Let_def)
qed

lemma sample_client: "client_secret sample_prov_env sample_mac (str ''secret'') sample_secret"
  unfolding client_secret_def
proof (intro exI conjI)
  show "AES_CBC_encrypt_buffer (AES_init_ctx_iv (ctx0 sample_prov_env) (wifi_aes_key (mac_data sample_prov_env sample_mac)) wifi_iv)
      (str ''secret'' @ [0, 0, 0, 0, 0, 0, 0, 0, 0, 0]) (length (str ''secret'' @ [0, 0, 0, 0, 0, 0, 0, 0, 0, 0])) =
    Some (\<lparr>RoundKey = KeyExpansion (replicate 176 0) sample_key, Iv = sample_secret\<rparr>, sample_secret)"
    using sample_encrypted by (simp add: sample_aes_key sample_msg_def str_def eval_nat_numeral)
qed (simp_all add: sample_prov_env_def isprint_def str_def)

theorem provisioning_round_trip_witness:
  "\<exists>s. run_steps (gatt_step sample_prov_env) [WritePasswd sample_secret, WriteSSID (str ''home''), WriteAuth (str ''WPA2-PSK'')] (prov_cfg_init sample_mac) =
      Some ([True, True, True], s) \<and>
    store s TEST_WIFI_CFG_FILE =
      Some (str ''ssid: '' @ str ''home'' @ [10] @ str ''security: '' @ str ''WPA2_PSK'' @ [10] @ str ''key: '' @ str ''secret'' @ [10])"
proof -
  let ?ws = "[WritePasswd sample_secret, WriteSSID (str ''home''), WriteAuth (str ''WPA2-PSK'')]"
  have ws: "mset ?ws = {#WriteSSID (str ''home''), WriteAuth (str ''WPA2-PSK''), WritePasswd sample_secret#}"
    by (simp add: add_mset_commute)
  have "sample_secret \<noteq> replicate (length sample_secret) 0"
    using sample_secret_0 sample_secret_length by (metis nth_replicate zero_less_numeral)
  moreover have "dash_to_underscore (str ''WPA2-PSK'') = str ''WPA2_PSK''"
    by (simp add: str_def)
  ultimately show ?thesis
    using provisioning_round_trip [OF ws _ _ _ _ sample_client]
    by (simp add: AUTH_TYPES_def isprint_def sample_prov_env_def str_def)
qed

subsection \<open>Any writes\<close>

text \<open>The buffers keep their sizes, and what they hold fits.\<close>

definition prov_ok :: "prov_cfg \<Rightarrow> bool" where
  "prov_ok s \<longleftrightarrow> length (wifiPasswd s) = MAX_PASSWD_LEN \<and> length (lastPasswd s) = MAX_PASSWD_LEN \<and>
    wifiPasswdLen s \<le> MAX_PASSWD_LEN \<and> length (wifiSSID s) \<le> MAX_SSID_LEN \<and> length (wifiAuthType s) < 16"

lemma cbc_decrypt_length:
  "16 * n \<le> length buf \<Longrightarrow> length iv = 16 \<Longrightarrow> length (snd (cbc_decrypt_loop (\<lambda>b. InvCipher b k) n iv buf)) = length buf"
proof (induction n arbitrary: iv buf)
  case (Suc n)
  have len: "length (XorWithIv (InvCipher (take AES_BLOCKLEN buf) k) iv) = 16"
    using Suc.prems by (simp add: length_XorWithIv)
  have "length (snd (cbc_decrypt_loop (\<lambda>b. InvCipher b k) n (take AES_BLOCKLEN buf) (drop AES_BLOCKLEN buf))) = length (drop AES_BLOCKLEN buf)"
    using Suc.prems by (intro Suc.IH) simp_all
  then show ?case
    using Suc.prems len by (auto simp: Let_def split: prod.split)
qed simp

lemma AES_CBC_decrypt_total:
  assumes "16 * blocks_of len \<le> length buf" "length (Iv ctx) = 16"
  shows "\<exists>ctx' out. AES_CBC_decrypt_buffer ctx buf len = Some (ctx', out) \<and> length out = length buf"
  using assms cbc_decrypt_length [OF assms, of "RoundKey ctx"]
  by (auto simp: AES_CBC_decrypt_buffer_def split: prod.split)

lemma length_trim_padding [simp]: "length (trim_padding len buf) = length buf"
  by (simp add: trim_padding_def Let_def)

lemma decode_passwd_total:
  assumes "length buf = 64" "len \<le> 64"
  shows "\<exists>out. decode_passwd e fs buf len = Some out \<and> length out = 64"
proof -
  let ?ctx = "AES_init_ctx_iv (ctx0 e) (wifi_aes_key (mac_data e fs)) wifi_iv"
  have "16 * blocks_of len \<le> length buf"
    using assms by (simp add: blocks_of_def)
  moreover have "length (Iv ?ctx) = 16"
    by (simp add: AES_init_ctx_iv_def wifi_iv_def)
  ultimately obtain ctx out where "AES_CBC_decrypt_buffer ?ctx buf len = Some (ctx, out)" "length out = length buf"
    using AES_CBC_decrypt_total by blast
  moreover have "decode_passwd e fs buf len = map_option (\<lambda>(ctx, buf). trim_padding len buf) (AES_CBC_decrypt_buffer ?ctx buf len)"
    by (simp add: decode_passwd_def mac_data_def Let_def)
  ultimately show ?thesis
    using assms(1) by simp
qed

lemma updateConfig_ok:
  assumes "prov_ok s"
  shows "\<exists>s'. updateConfig e s = Some s' \<and> prov_ok s'"
proof (cases "\<not> config_changed s \<or> \<not> cfg_writable e")
  case False
  obtain out where "decode_passwd e (store s) (wifiPasswd s) (wifiPasswdLen s) = Some out" "length out = 64"
    using decode_passwd_total [of "wifiPasswd s" "wifiPasswdLen s"] assms by (auto simp: prov_ok_def)
  then show ?thesis
    using False assms by (auto simp: updateConfig_def prov_ok_def Let_def)
qed (use assms in \<open>auto simp: updateConfig_def\<close>)

lemma cstr_length: "length (cstr v) \<le> length v"
  by (simp add: cstr_def length_takeWhile_le)

lemma gatt_step_ok:
  assumes "prov_ok s"
  shows "gatt_step e w s \<noteq> None" "gatt_step e w s = Some (r, s') \<Longrightarrow> prov_ok s'"
proof -
  have "gatt_step e w s \<noteq> None \<and> (\<forall>r s'. gatt_step e w s = Some (r, s') \<longrightarrow> prov_ok s')"
  proof (cases w)
    case (WriteSSID v)
    then show ?thesis
      using assms updateConfig_ok [of "s\<lparr>wifiSSID := cstr v\<rparr>" e] cstr_length [of v]
      by (auto simp: ValidateWifiSSID_def prov_ok_def)
  next
    case (WriteAuth v)
    then show ?thesis
      using assms updateConfig_ok [of "s\<lparr>wifiAuthType := dash_to_underscore v\<rparr>" e] auth_type_text(2) [of v]
      by (auto simp: ValidateWifiAuthType_def prov_ok_def)
  next
    case (WritePasswd v)
    then show ?thesis
      using assms updateConfig_ok [of "s\<lparr>wifiPasswd := v @ drop (length v) (wifiPasswd s), wifiPasswdLen := length v\<rparr>" e]
      by (auto simp: ValidateWifiPasswd_def prov_ok_def)
  qed
  then show "gatt_step e w s \<noteq> None" "gatt_step e w s = Some (r, s') \<Longrightarrow> prov_ok s'"
    by blast+
qed

lemma gatt_run_ok:
  "prov_ok s \<Longrightarrow> \<exists>rs s'. run_steps (gatt_step e) ws s = Some (rs, s') \<and> prov_ok s'"
proof (induction ws arbitrary: s)
  case (Cons w ws)
  obtain r s1 where "gatt_step e w s = Some (r, s1)" "prov_ok s1"
    using gatt_step_ok [OF Cons.prems, of e w] by (cases "gatt_step e w s") auto
  with Cons.IH [of s1] show ?case
    by auto
qed simp


fun is_passwd :: "gatt_write \<Rightarrow> bool" where
  "is_passwd (WritePasswd v) = True"
| "is_passwd _ = False"

lemma passwd_step:
  assumes "wifiSSID s = lastSSID s" "is_passwd w" "gatt_step e w s = Some (r, s')"
  shows "store s' = store s \<and> wifiSSID s' = lastSSID s'"
proof -
  obtain v where v: "w = WritePasswd v"
    using assms(2) by (cases w) simp_all
  have "\<not> config_changed (s\<lparr>wifiPasswd := v @ drop (length v) (wifiPasswd s), wifiPasswdLen := length v\<rparr>)"
    using assms(1) by (simp add: config_changed_def)
  then show ?thesis
    using assms(1,3) v by (auto simp: ValidateWifiPasswd_def updateConfig_same split: if_splits)
qed

lemma passwd_run:
  assumes "wifiSSID s = lastSSID s" "list_all is_passwd ws" "run_steps (gatt_step e) ws s = Some (rs, s')"
  shows "store s' = store s"
  using assms
proof (induction ws arbitrary: s rs)
  case (Cons w ws)
  obtain r s1 rs1 where *: "gatt_step e w s = Some (r, s1)" "run_steps (gatt_step e) ws s1 = Some (rs1, s')"
    using Cons.prems(3) by (auto split: option.splits)
  show ?case
    using passwd_step [OF Cons.prems(1) _ *(1)] Cons.IH [OF _ _ *(2)] Cons.prems(2) by simp
qed simp

text \<open>C39: a configuration is written only when all three values differ from those last written. After a
  configuration with a mistyped password, sending other passwords, however often, changes nothing: each is
  accepted, and the configuration stays as it was.\<close>

theorem password_alone_ignored:
  assumes "config_changed s" "prov_ok s" "cfg_writable e" "updateConfig e s = Some s1" "list_all is_passwd ws"
  shows "\<exists>rs s2. run_steps (gatt_step e) ws s1 = Some (rs, s2) \<and> store s2 = store s1"
proof -
  have "prov_ok s1" "wifiSSID s1 = lastSSID s1"
    using assms updateConfig_ok [OF assms(2), of e] by (auto simp: updateConfig_def Let_def split: option.splits)
  then show ?thesis
    using gatt_run_ok [of s1 e ws] passwd_run [OF _ assms(5)] by blast
qed

definition sample_stored :: prov_cfg where
  "sample_stored = (prov_cfg_init sample_mac)\<lparr>wifiSSID := str ''home'', wifiAuthType := str ''WEP'',
     wifiPasswd := replicate 64 7, wifiPasswdLen := 16\<rparr>"

theorem password_alone_ignored_witness:
  "\<exists>s1 rs s2. updateConfig sample_prov_env sample_stored = Some s1 \<and>
    run_steps (gatt_step sample_prov_env) [WritePasswd sample_secret] s1 = Some (rs, s2) \<and> store s2 = store s1"
proof -
  have ok: "prov_ok sample_stored" "config_changed sample_stored" "cfg_writable sample_prov_env"
    by (simp_all add: prov_ok_def config_changed_def sample_stored_def prov_cfg_init_def sample_prov_env_def str_def)
  obtain s1 where "updateConfig sample_prov_env sample_stored = Some s1"
    using updateConfig_ok [OF ok(1)] by blast
  from password_alone_ignored [OF ok(2,1,3) this, of "[WritePasswd sample_secret]"] this show ?thesis
    by auto
qed

section \<open>Services\<close>

text \<open>A characteristic as it is registered: its identifier, initial value, properties and description. The bus
  library is given by whether a registration succeeds.\<close>

record characteristic =
  c_uuid :: string
  c_value :: bytes
  c_props :: "string list"
  c_desc :: "string option"

definition read_only_props :: "string list" where "read_only_props = [''read'']"
definition read_write_props :: "string list" where "read_write_props = [''read'', ''write'']"

definition device_info_service :: "fsys \<Rightarrow> bytes \<Rightarrow> characteristic list" where
  "device_info_service fs buf =
    map (\<lambda>(u, v). \<lparr>c_uuid = u, c_value = v, c_props = read_only_props, c_desc = None\<rparr>)
     [(''00002a24-0000-1000-8000-00805f9b34fb'', snd (IRIS_getModel fs buf)),
      (''00002a25-0000-1000-8000-00805f9b34fb'', snd (IRIS_getHubID fs buf)),
      (''00002a26-0000-1000-8000-00805f9b34fb'', snd (IRIS_getFirmwareVersion fs buf)),
      (''00002a27-0000-1000-8000-00805f9b34fb'', dec_str (IRIS_getHardwareVersion fs)),
      (''00002a29-0000-1000-8000-00805f9b34fb'', str (''Lowe'' @ CHR 0x27 # ''s Companies, Inc.''))]"

definition wifi_cfg_service :: "characteristic list" where
  "wifi_cfg_service =
    map (\<lambda>(u, v, p, d). \<lparr>c_uuid = u, c_value = str v, c_props = p, c_desc = Some d\<rparr>)
     [(''9dab269a-0001-4c87-805f-bc42474d3c0b'', '''', read_only_props, ''WiFi Scan''),
      (''9dab269a-0002-4c87-805f-bc42474d3c0b'', ''B,G,N'', read_only_props, ''WiFi Modes''),
      (''9dab269a-0003-4c87-805f-bc42474d3c0b'', ''2.4'', read_only_props, ''WiFi Freqs.''),
      (''9dab269a-0004-4c87-805f-bc42474d3c0b'', ''N'', read_write_props, ''Current Wifi Mode''),
      (''9dab269a-0005-4c87-805f-bc42474d3c0b'', ''2.4'', read_write_props, ''Current Wifi Frequency''),
      (''9dab269a-0006-4c87-805f-bc42474d3c0b'', '''', read_write_props, ''WiFi Config SSID''),
      (''9dab269a-0007-4c87-805f-bc42474d3c0b'', '''', read_write_props, ''WiFi Authentication Type''),
      (''9dab269a-0008-4c87-805f-bc42474d3c0b'', '''', read_write_props, ''WiFi Encryption Type''),
      (''9dab269a-0009-4c87-805f-bc42474d3c0b'', '''', read_write_props, ''Wifi Config Password''),
      (''9dab269a-000a-4c87-805f-bc42474d3c0b'', ''DISCONNECTED'', read_only_props, ''WiFi Status'')]"

text \<open>The first failure takes back the whole service.\<close>

fun register_all :: "(characteristic \<Rightarrow> bool) \<Rightarrow> characteristic list \<Rightarrow> bool" where
  "register_all reg [] = True"
| "register_all reg (c # cs) = (reg c \<and> register_all reg cs)"

definition create_service :: "(string \<Rightarrow> bool) \<Rightarrow> (characteristic \<Rightarrow> bool) \<Rightarrow> string \<Rightarrow> characteristic list \<Rightarrow> string option" where
  "create_service reg_service reg uuid cs = (if reg_service uuid \<and> register_all reg cs then Some uuid else None)"

definition create_services :: "(string \<Rightarrow> bool) \<Rightarrow> (characteristic \<Rightarrow> bool) \<Rightarrow> fsys \<Rightarrow> bytes \<Rightarrow> string list" where
  "create_services reg_service reg fs buf =
    (case create_service reg_service reg ''9dab269a-0000-4c87-805f-bc42474d3c0b'' wifi_cfg_service of None \<Rightarrow> [] | Some p \<Rightarrow> [p]) @
    (case create_service reg_service reg ''0000180a-0000-1000-8000-00805f9b34fb'' (device_info_service fs buf) of None \<Rightarrow> [] | Some p \<Rightarrow> [p])"

section \<open>Set-up\<close>

text \<open>The commands of \<^verbatim>\<open>main\<close>, by the names of their macros.\<close>

datatype prov_cmd =
    SET_PORT_UP | SET_PORT_DOWN | SET_ALIAS bytes | WRITE_VERSION nat nat nat | SET_STATIC_ADDR string
  | SET_DISCOVERABLE | SET_DISC_TIMEOUT nat | SET_ADV_PARAMS | SET_ADV_DATA | SET_ADV_RESP_DATA bytes | SET_ADV_ENABLE

fun words_of :: "string \<Rightarrow> string \<Rightarrow> string list" where
  "words_of [] w = (if w = [] then [] else [w])"
| "words_of (c # cs) w =
    (if c = CHR '' '' then (if w = [] then words_of cs [] else w # words_of cs []) else words_of cs (w @ [c]))"

definition hex_word :: "string list \<Rightarrow> nat \<Rightarrow> nat" where
  "hex_word ws i = (if i < length ws then unat (hex_value 0 (str (ws ! i))) else 0)"

fun local_version :: "string list \<Rightarrow> (nat \<times> nat \<times> nat) option" where
  "local_version [] = None"
| "local_version (l # ls) =
    (case text_after l ''01 01 FC 00 02 '' of
       None \<Rightarrow> local_version ls
     | Some p \<Rightarrow> (let ws = words_of p [] in Some (hex_word ws 4, hex_word ws 5, hex_word ws 6)))"

fun static_addr :: "string list \<Rightarrow> string" where
  "static_addr [] = ''''"
| "static_addr (l # ls) = (case text_after l ''01 09 FC 00 01 '' of None \<Rightarrow> static_addr ls | Some p \<Rightarrow> take 17 p)"

text \<open>\<open>ready\<close>: signals and lock could be set up; \<open>mac\<close>: the buffer with the MAC address; the lines are those the
  two queries print. The exit code is left out of a normal end (it is 0).\<close>

definition prov_main :: "bool \<Rightarrow> bool \<Rightarrow> bytes \<Rightarrow> string list \<Rightarrow> string list \<Rightarrow> prov_cmd list" where
  "prov_main getVersion ready mac version_lines addr_lines =
    (let version = (case local_version version_lines of None \<Rightarrow> [] | Some (major, minor, point) \<Rightarrow> [WRITE_VERSION major minor point]) in
     if getVersion then [SET_PORT_UP] @ version @ [SET_PORT_DOWN]
     else if \<not> ready then []
     else
       [SET_ALIAS (str ''Iris_Hub_'' @ mac_chars mac), SET_PORT_UP] @ version @
       [SET_STATIC_ADDR (static_addr addr_lines), SET_DISCOVERABLE, SET_DISC_TIMEOUT 3600, SET_ADV_PARAMS, SET_ADV_DATA,
        SET_ADV_RESP_DATA (mac_chars mac), SET_ADV_ENABLE, SET_PORT_DOWN])"

end
