(* ===== verification/Init.thy ===== *)
theory Init
  imports IrisLib
begin

text \<open>
  The init daemon, \<^verbatim>\<open>iris-utils/files/irisinitd.c\<close>, except for the provisioning of the network: the thread
  that follows the LED mode file, the buttons, the USB over-current signals, the check for SSH access, the
  watchdogs and the start of the program. Each handler is a function of the state and of what it reads.
\<close>

section \<open>State\<close>

abbreviation (input) PROVISIONED_FILE :: string where "PROVISIONED_FILE \<equiv> ''/data/config/provisioned''"
abbreviation (input) IRIS_BTN_PUSHED_FILE :: string where "IRIS_BTN_PUSHED_FILE \<equiv> ''/tmp/irisButtonPushed''"
abbreviation (input) BTRY_ON_FILE :: string where "BTRY_ON_FILE \<equiv> ''/tmp/battery_on''"
abbreviation (input) AGENT_SOFT_RESET :: string where "AGENT_SOFT_RESET \<equiv> ''/data/agent/soft_reset''"
abbreviation (input) DEBUG_ENABLED_FILE :: string where "DEBUG_ENABLED_FILE \<equiv> ''/tmp/debug''"
abbreviation (input) HUB_ID_FILE :: string where "HUB_ID_FILE \<equiv> ''/tmp/mfg/config/hubID''"
abbreviation (input) AGENT_CFG_FILE :: string where "AGENT_CFG_FILE \<equiv> ''/tmp/agent_cfg''"
abbreviation (input) IRIS_AGENT_BIN_FILE :: string where "IRIS_AGENT_BIN_FILE \<equiv> ''/usr/bin/irisagentd''"

text \<open>The files, the commands run so far, and the global variables. A command that only writes a file is
  applied to the files, every other one is recorded; what the recorded commands do to the files is not part of
  the model. \<open>sigalrm\<close> says whether the alarm handler is
  installed, \<open>alarm_set\<close> whether an alarm is pending and \<open>button_edge\<close> what edges of the reset button interrupt.\<close>

record init =
  disk :: fsys
  cmds :: "string list"
  last_led_mode :: bytes
  button_push :: nat
  reboot_sound_played :: bool
  factory_resetting :: bool
  sigalrm :: bool
  alarm_set :: bool
  button_edge :: string
  startTime :: int
  bleProv_thread :: bool
  pwrDownTime :: int
  ssh_access :: int

text \<open>What the helper commands print in a step and how the battery charger responds, as in the support library.\<close>

record probe =
  popen_ok :: bool
  first_line :: "string \<Rightarrow> string option"
  dev_ok :: bool
  addr_ok :: bool
  read_ok :: bool

definition run_cmd :: "string \<Rightarrow> init \<Rightarrow> init" where
  "run_cmd c s = s\<lparr>cmds := cmds s @ [c]\<rparr>"

text \<open>\<^verbatim>\<open>echo -n mode > /tmp/ledMode\<close>: the shell ends the command at a newline, and the rest then empties the file.\<close>

definition setLedMode :: "bytes \<Rightarrow> init \<Rightarrow> init" where
  "setLedMode mode s = s\<lparr>disk := (disk s)(LED_MODE_FILE \<mapsto> (if 10 \<in> set mode then [] else mode))\<rparr>"

definition touch :: "string \<Rightarrow> init \<Rightarrow> init" where
  "touch f s = s\<lparr>disk := (disk s)(f \<mapsto> (case disk s f of None \<Rightarrow> [] | Some c \<Rightarrow> c))\<rparr>"

text \<open>A C string as part of a command.\<close>

definition as_text :: "bytes \<Rightarrow> string" where
  "as_text bs = map (\<lambda>c. char_of (unat c)) bs"

definition play :: "probe \<Rightarrow> string \<Rightarrow> init \<Rightarrow> init" where
  "play pr voice s = s\<lparr>cmds := cmds s @ IRIS_playAudio True (popen_ok pr) (first_line pr) (disk s) voice\<rparr>"

section \<open>The LED thread\<close>

definition led_is_error :: "bytes \<Rightarrow> bool" where
  "led_is_error mode \<longleftrightarrow> strstr mode (str ''-err'')"

definition led_needs_restart :: "bytes \<Rightarrow> bool" where
  "led_needs_restart mode \<longleftrightarrow> strstr mode (str ''boot'') \<or> strstr mode (str ''kernel'') \<or> strstr mode (str ''root'')"

definition chop_newline :: "bytes \<Rightarrow> bytes" where
  "chop_newline d = (if d \<noteq> [] \<and> last d = 10 then butlast d else d)"

definition LED_CTRL_APP :: "platform \<Rightarrow> string" where
  "LED_CTRL_APP p = (case p of imxdimagic \<Rightarrow> ''/usr/bin/ringctrl'' | beaglebone_yocto \<Rightarrow> ''/usr/bin/ledctrl'')"

text \<open>The command is written to a buffer of which 127 bytes are used, the last one for the terminating null.\<close>

definition show_mode :: "platform \<Rightarrow> bytes \<Rightarrow> init \<Rightarrow> init" where
  "show_mode p mode s = run_cmd (take 126 (LED_CTRL_APP p @ '' '' @ as_text mode)) s"

text \<open>What the thread does for one event of the LED mode file. At most 127 bytes of it are read.\<close>

definition ledThread_event :: "platform \<Rightarrow> init \<Rightarrow> init" where
  "ledThread_event p s =
    (case disk s LED_MODE_FILE of
       None \<Rightarrow> s
     | Some content \<Rightarrow>
         if content = [] then s
         else
           (let data = chop_newline (cstr (take 127 content));
                s = show_mode p data s
            in if led_is_error data
               then (if led_needs_restart data then run_cmd ''hub_restart now'' s else show_mode p (last_led_mode s) s)
               else s\<lparr>last_led_mode := data\<rparr>))"

section \<open>The reset button\<close>

abbreviation (input) BUTTON_REBOOT_HOLD :: nat where "BUTTON_REBOOT_HOLD \<equiv> 1"
abbreviation (input) BUTTON_SOFT_RESET_HOLD :: nat where "BUTTON_SOFT_RESET_HOLD \<equiv> 10"
abbreviation (input) BUTTON_FACTORY_DEFAULT_HOLD :: nat where "BUTTON_FACTORY_DEFAULT_HOLD \<equiv> 20"

text \<open>A reading of the value file: two characters, the first one 0 while the button is held.\<close>

definition button_held :: "string \<Rightarrow> bool" where
  "button_held buf \<longleftrightarrow> length buf = 2 \<and> buf ! 0 = CHR ''0''"

abbreviation (input) SUCCESS_SOUND :: string where "SUCCESS_SOUND \<equiv> ''/data/agent/conf/sounds/Success.mp3''"

definition reboot_sound :: "platform \<Rightarrow> probe \<Rightarrow> init \<Rightarrow> init" where
  "reboot_sound p pr s =
    (if reboot_sound_played s then s
     else
       (let s = s\<lparr>reboot_sound_played := True\<rparr> in
        case p of
          beaglebone_yocto \<Rightarrow> run_cmd ''play_tones -f /home/root/sounds/reboot_sound.txt'' s
        | imxdimagic \<Rightarrow> play pr ''/data/agent/conf/voice/button-reboot.mp3'' (play pr SUCCESS_SOUND s)))"

definition factory_sound :: "platform \<Rightarrow> init \<Rightarrow> init" where
  "factory_sound p s =
    (if factory_resetting s then s
     else
       (let s = s\<lparr>factory_resetting := True\<rparr> in
        if p = beaglebone_yocto then run_cmd ''play_tones -f /home/root/sounds/reset_sound.txt'' s else s))"

text \<open>The button is still held.\<close>

definition alarm_held :: "platform \<Rightarrow> probe \<Rightarrow> init \<Rightarrow> init" where
  "alarm_held p pr s =
    (let s = s\<lparr>button_push := button_push s + 1, sigalrm := True, alarm_set := True\<rparr> in
     if button_push s < BUTTON_REBOOT_HOLD then s
     else if button_push s < BUTTON_SOFT_RESET_HOLD then setLedMode (str ''button-reboot'') (reboot_sound p pr s)
     else if button_push s < BUTTON_FACTORY_DEFAULT_HOLD then setLedMode (str ''button-soft-reset'') s
     else setLedMode (str ''button-factory-default'') (factory_sound p s))"

text \<open>The button was released.\<close>

definition alarm_released :: "platform \<Rightarrow> probe \<Rightarrow> init \<Rightarrow> init" where
  "alarm_released p pr s =
    (if button_push s < BUTTON_REBOOT_HOLD then s\<lparr>sigalrm := True, button_edge := ''both'', button_push := 0\<rparr>
     else if button_push s < BUTTON_SOFT_RESET_HOLD then
       run_cmd (if p = imxdimagic then ''hub_restart 5'' else ''hub_restart now'') s
     else if button_push s < BUTTON_FACTORY_DEFAULT_HOLD then
       run_cmd (if p = imxdimagic then ''hub_restart 5'' else ''hub_restart 1'')
         (run_cmd (''chmod 666 '' @ AGENT_SOFT_RESET) (touch AGENT_SOFT_RESET s))
     else
       (let s = (if p = imxdimagic
                 then setLedMode (str ''shutdown'') (play pr ''/data/agent/conf/voice/FactoryResetOffline.mp3'' (play pr SUCCESS_SOUND s))
                 else s) in
        run_cmd ''factory_default'' s))"

definition alarmHandler :: "platform \<Rightarrow> probe \<Rightarrow> string \<Rightarrow> init \<Rightarrow> init" where
  "alarmHandler p pr buf s =
    (let s = s\<lparr>sigalrm := False, alarm_set := False\<rparr> in
     if button_held buf then alarm_held p pr s else alarm_released p pr s)"

definition buttonHandler :: "init \<Rightarrow> init" where
  "buttonHandler s = s\<lparr>button_edge := ''none'', alarm_set := True\<rparr>"

section \<open>The front button\<close>

text \<open>Times are in milliseconds. A long push starts the provisioning, a shorter one is passed on to the agent.\<close>

abbreviation (input) BLE_REENTER_PERIOD :: int where "BLE_REENTER_PERIOD \<equiv> 5000"

definition irisButtonHandler :: "probe \<Rightarrow> int \<Rightarrow> bytes \<Rightarrow> string \<Rightarrow> init \<Rightarrow> init" where
  "irisButtonHandler pr now mode0 buf s =
    (if button_held buf then s\<lparr>startTime := now\<rparr>
     else if length buf = 2 \<and> startTime s \<noteq> 0 then
       (let delta = now - startTime s in
        if delta > BLE_REENTER_PERIOD \<and> IRIS_isReleaseImage \<and> \<not> bleProv_thread s then
          (run_cmd ''ifdown wlan0; ifconfig wlan0 up'' s)\<lparr>bleProv_thread := True\<rparr>
        else
          (let s = run_cmd (''chmod 666 '' @ IRIS_BTN_PUSHED_FILE)
                 (s\<lparr>disk := (disk s)(IRIS_BTN_PUSHED_FILE \<mapsto> dec_str delta @ [10])\<rparr>) in
           if disk s PROVISIONED_FILE \<noteq> None then s
           else if bleProv_thread s then
             (let currentMode = IRIS_getLedMode (disk s) mode0 64 in
              setLedMode currentMode
                (play pr ''/data/agent/conf/voice/button-press-wi-fi-reconnect.mp3''
                  (setLedMode (str ''button-press-wifi-reconnect'') s)))
           else play pr ''/data/agent/conf/voice/buttonPressNoPlace.mp3'' s))
     else s)"

section \<open>The power button\<close>

text \<open>Times are in seconds. The second result is what \<^verbatim>\<open>IRIS_powerDownHub\<close> does; unless it is empty the
  handler does not return.\<close>

abbreviation (input) POWER_DOWN_PERIOD :: int where "POWER_DOWN_PERIOD \<equiv> 10"

definition power_down_cmds :: "string list" where
  "power_down_cmds =
    [''killall irisagentd'', ''killall java'', ''echo 0 > /tmp/io/zigbeePower'', ''echo 0 > /tmp/io/zwavePower'',
     ''echo 0 > /tmp/io/blePower'', ''echo 0 > /tmp/io/ltePower'', ''sync; sync'']"

definition pwrDownButtonHandler :: "probe \<Rightarrow> int \<Rightarrow> string \<Rightarrow> init \<Rightarrow> init \<times> pd_action list" where
  "pwrDownButtonHandler pr now buf s =
    (if \<not> exists_file (disk s) BTRY_ON_FILE then (s, [])
     else if button_held buf then (s\<lparr>pwrDownTime := now\<rparr>, [])
     else if length buf = 2 \<and> pwrDownTime s \<noteq> 0 then
       (if now - pwrDownTime s \<ge> POWER_DOWN_PERIOD then
          (fold run_cmd power_down_cmds
             (play pr ''/data/agent/conf/voice/Turningoff.mp3'' (play pr SUCCESS_SOUND (setLedMode (str ''turning-off'') s))),
           IRIS_powerDownHub imxdimagic (dev_ok pr) (addr_ok pr) (read_ok pr))
        else (s\<lparr>pwrDownTime := 0\<rparr>, []))
     else (s, []))"

section \<open>USB over-current\<close>

definition usb_oc_file :: "nat \<Rightarrow> string" where
  "usb_oc_file port = (if port = 0 then ''/tmp/usb0_oc_on'' else ''/tmp/usb1_oc_on'')"

text \<open>\<open>date\<close> is what the command of this name prints; \<open>buf0\<close> is the first character of the buffer, read or not.\<close>

definition usbOCHandler :: "bytes \<Rightarrow> nat \<Rightarrow> char \<Rightarrow> init \<Rightarrow> init" where
  "usbOCHandler date port buf0 s =
    (if port \<noteq> 0 \<and> port \<noteq> 1 then s
     else if buf0 = CHR ''0'' then
       (if disk s (usb_oc_file port) = None then s\<lparr>disk := (disk s)(usb_oc_file port \<mapsto> date)\<rparr> else s)
     else s\<lparr>disk := (disk s)(usb_oc_file port := None)\<rparr>)"

section \<open>SSH access\<close>

text \<open>The USB drives: the files of a name that \<^verbatim>\<open>find\<close> lists, with their contents. \<open>verify\<close> is \<^verbatim>\<open>openssl rsautl -verify\<close>
  with the public key of the hub, \<open>hubID0\<close> what the buffer for the identity holds before it is read, and \<open>pids\<close> the numbers at the start of the lines that \<^verbatim>\<open>pidof\<close> prints.\<close>

record ssh_env =
  found :: "string \<Rightarrow> bytes list"
  verify_key :: "bytes \<Rightarrow> bytes option"
  pids :: "nat list"
  hubID0 :: bytes

text \<open>The first file that the public key verifies and that then holds the identity of this hub.\<close>

fun key_matches :: "ssh_env \<Rightarrow> fsys \<Rightarrow> bytes list \<Rightarrow> bool" where
  "key_matches e fs [] = False"
| "key_matches e fs (f # fs') =
    (case verify_key e f of
       None \<Rightarrow> key_matches e fs fs'
     | Some ident \<Rightarrow> if fs HUB_ID_FILE = Some ident then True else key_matches e fs fs')"

definition hub_name :: "ssh_env \<Rightarrow> fsys \<Rightarrow> string" where
  "hub_name e fs =
    as_text
      (case Option.bind (fs HUB_ID_FILE) scan_word of None \<Rightarrow> hubID0 e | Some w \<Rightarrow> w)"

definition ssh_key_found :: "ssh_env \<Rightarrow> fsys \<Rightarrow> bool" where
  "ssh_key_found e fs = (hub_name e fs \<noteq> [] \<and> key_matches e fs (found e (take 63 (hub_name e fs @ ''.dbg''))))"

text \<open>The configuration of the agent follows the one on the drive.\<close>

definition agent_config :: "ssh_env \<Rightarrow> init \<Rightarrow> init" where
  "agent_config e s =
    (if hub_name e (disk s) = [] then s
     else
       (let drive = (case found e (take 63 (hub_name e (disk s) @ ''.cfg'')) of [] \<Rightarrow> None | c # _ \<Rightarrow> Some c) in
        if drive = disk s AGENT_CFG_FILE then s
        else
          (let s = s\<lparr>disk := (disk s)(AGENT_CFG_FILE := drive)\<rparr> in
           if disk s IRIS_AGENT_BIN_FILE \<noteq> None then run_cmd ''killall java'' s else s)))"

definition ssh_first :: "init \<Rightarrow> init" where
  "ssh_first s =
    (if ssh_access s = -1 then
       (if IRIS_isSSHEnabled (disk s) then touch DEBUG_ENABLED_FILE (s\<lparr>ssh_access := 1\<rparr>) else s\<lparr>ssh_access := 0\<rparr>)
     else s)"

definition ssh_update :: "ssh_env \<Rightarrow> bool \<Rightarrow> init \<Rightarrow> init" where
  "ssh_update e cur_access s =
    (if cur_access \<and> ssh_access s = 0 then
       (let s = touch DEBUG_ENABLED_FILE (run_cmd ''chmod 777 /data/config/dropbear'' (s\<lparr>ssh_access := 1\<rparr>)) in
        if IRIS_isSSHEnabled (disk s) then s else run_cmd ''/etc/init.d/dropbear realstart'' s)
     else if \<not> cur_access \<and> ssh_access s \<noteq> 0 then
       (let s = s\<lparr>ssh_access := 0, disk := (disk s)(DEBUG_ENABLED_FILE := None)\<rparr>;
            s = (if IRIS_isSSHEnabled (disk s) then run_cmd ''/etc/init.d/dropbear stop'' s else s) in
        s\<lparr>cmds := cmds s @ map (\<lambda>pid. ''kill '' @ as_text (nat_digits pid)) (filter (\<lambda>pid. pid \<noteq> 0) (pids e))\<rparr>)
     else s)"

definition sshCheckAccess :: "ssh_env \<Rightarrow> init \<Rightarrow> init" where
  "sshCheckAccess e s =
    (if IRIS_isSSHKeyGen (disk s) then s
     else
       (let s = ssh_first s;
            cur_access = ssh_key_found e (disk s);
            s = (if IRIS_isReleaseImage then agent_config e s else s) in
        ssh_update e cur_access s))"

section \<open>Watchdogs and radio firmware\<close>

definition ifplugdWatchdog :: "probe \<Rightarrow> init \<Rightarrow> init" where
  "ifplugdWatchdog pr s =
    (if popen_ok pr \<and> first_line pr ''pidof ifplugd'' = None
     then run_cmd ''/etc/init.d/ifplugd start'' (run_cmd ''kill -9 $(cat /var/run/udhcpc.eth0.pid)'' s)
     else s)"

definition hwWatchdog :: "probe \<Rightarrow> init \<Rightarrow> init" where
  "hwWatchdog pr s = s\<lparr>cmds := cmds s @ pokeWatchdog (popen_ok pr) (first_line pr)\<rparr>"

abbreviation (input) ROOT_ZIGBEE :: string where "ROOT_ZIGBEE \<equiv> ''/home/root/fw/zigbee-firmware-hwflow.bin''"
abbreviation (input) DATA_ZIGBEE :: string where "DATA_ZIGBEE \<equiv> ''/data/firmware/zigbee-firmware-hwflow.bin''"

text \<open>\<open>flash_ok\<close>: whether the radio takes the image; \<open>w\<close> and \<open>cp\<close> as in \<^verbatim>\<open>IRIS_copyFile\<close>.\<close>

definition checkForRadioFirmwareUpdates ::
  "bool \<Rightarrow> (string \<Rightarrow> bool) \<Rightarrow> (string \<Rightarrow> bytes \<Rightarrow> int \<times> bytes) \<Rightarrow> init \<Rightarrow> init" where
  "checkForRadioFirmwareUpdates flash_ok w cp s =
    (if disk s ROOT_ZIGBEE = None \<or> disk s ROOT_ZIGBEE = disk s DATA_ZIGBEE then s
     else
       (let s = run_cmd (''zigbee_flash -w '' @ ROOT_ZIGBEE) (s\<lparr>disk := (disk s)(DATA_ZIGBEE := None)\<rparr>) in
        if \<not> flash_ok then touch DATA_ZIGBEE s
        else s\<lparr>disk := snd (IRIS_copyFile w cp ROOT_ZIGBEE DATA_ZIGBEE (disk s))\<rparr>))"

section \<open>The start of the daemon\<close>

definition init_globals :: "fsys \<Rightarrow> init" where
  "init_globals fs =
    \<lparr>disk = fs, cmds = [], last_led_mode = str ''boot-linux'', button_push = 0, reboot_sound_played = False,
     factory_resetting = False, sigalrm = False, alarm_set = False, button_edge = ''both'', startTime = 0,
     bleProv_thread = False, pwrDownTime = 0, ssh_access = -1\<rparr>"

text \<open>The handlers that \<^verbatim>\<open>main\<close> installs, with their periods; \<open>opens\<close> says which GPIO files can be opened.\<close>

datatype init_handler =
    WatchButton | WatchIrisButton | WatchPowerButton | WatchUsbOC nat | CheckSSH nat | CheckIfplugd nat
  | PokeWatchdog nat | LedThread | WifiCfgThread | ProvThread

definition init_handlers :: "platform \<Rightarrow> bool \<Rightarrow> (string \<Rightarrow> bool) \<Rightarrow> fsys \<Rightarrow> init_handler list" where
  "init_handlers p watchdog_ok opens fs =
    [LedThread] @
    (if p = imxdimagic then [WifiCfgThread] else []) @
    (if p = imxdimagic \<and> IRIS_isReleaseImage then [ProvThread] else []) @
    (if IRIS_isMfgImage fs then []
     else
       (if opens ''/tmp/io/resetBtnValue'' then [WatchButton] else []) @
       (if p = imxdimagic \<and> opens ''/tmp/io/irisBtnValue'' then [WatchIrisButton] else []) @
       (if p = imxdimagic \<and> opens ''/tmp/io/pwrDownBtnValue'' then [WatchPowerButton] else [])) @
    (if p = beaglebone_yocto \<and> opens ''/sys/class/gpio/gpio116/value'' then [WatchUsbOC 0] else []) @
    (if p = beaglebone_yocto \<and> opens ''/sys/class/gpio/gpio58/value'' then [WatchUsbOC 1] else []) @
    (if IRIS_isReleaseImage then [CheckSSH 5] else []) @
    [CheckIfplugd 15] @
    (if \<not> IRIS_isReleaseImage \<and> watchdog_ok then [PokeWatchdog (if p = imxdimagic then 60 else 150)] else [])"

text \<open>The state when \<^verbatim>\<open>main\<close> enters its loop. \<open>version\<close> is the version the build defines, \<open>flash_ok\<close>, \<open>w\<close> and
  \<open>cp\<close> are as above. (Without a release image \<^verbatim>\<open>main\<close> also waits for the host keys.)\<close>

definition init_main ::
  "platform \<Rightarrow> bool \<Rightarrow> bool \<Rightarrow> (string \<Rightarrow> bool) \<Rightarrow> sendfile \<Rightarrow> bytes \<Rightarrow> fsys \<Rightarrow> init" where
  "init_main p restart flash_ok w cp version fs =
    (let s = init_globals (if w ''/tmp/version'' then fs(''/tmp/version'' \<mapsto> version @ [10]) else fs);
         s = setLedMode (str ''all-off'') s;
         s = (if p = imxdimagic \<and> IRIS_isReleaseImage
              then (checkForRadioFirmwareUpdates flash_ok w cp s)\<lparr>bleProv_thread := True\<rparr> else s);
         s = (if IRIS_isMfgImage (disk s) then (if p = beaglebone_yocto then setLedMode (str ''all-off'') s else s)
              else if restart then s else setLedMode (str ''boot-linux'') s);
         s = (if IRIS_isReleaseImage then s
              else fold run_cmd
                [''/etc/init.d/dropbear realstart'',
                 ''sysctl -w kernel.printk='' @ [CHR 0x22] @ ''1 4 1 7'' @ [CHR 0x22] @ '' > /dev/null 2>&1''] s);
         s = s\<lparr>sigalrm := True\<rparr>
     in if p = imxdimagic
        then fold run_cmd [''amixer cset numid=37 63 > /dev/null 2>&1'', ''amixer cset numid=7 255 > /dev/null 2>&1''] s
        else s)"

section \<open>Holding the reset button\<close>

text \<open>A push: the interrupt, \<open>n\<close> alarms with the button held, and the alarm after it was released.\<close>

abbreviation (input) HELD :: string where "HELD \<equiv> [CHR ''0'', CHR 0x0A]"
abbreviation (input) RELEASED :: string where "RELEASED \<equiv> [CHR ''1'', CHR 0x0A]"

definition reset_push :: "platform \<Rightarrow> probe \<Rightarrow> nat \<Rightarrow> init \<Rightarrow> init" where
  "reset_push p pr n s = alarmHandler p pr RELEASED ((alarmHandler p pr HELD ^^ n) (buttonHandler s))"

definition hold_action :: "platform \<Rightarrow> nat \<Rightarrow> string" where
  "hold_action p n =
    (if n < BUTTON_SOFT_RESET_HOLD then (if p = imxdimagic then ''hub_restart 5'' else ''hub_restart now'')
     else if n < BUTTON_FACTORY_DEFAULT_HOLD then (if p = imxdimagic then ''hub_restart 5'' else ''hub_restart 1'')
     else ''factory_default'')"

text \<open>What the handlers leave alone.\<close>

lemma touch_frame [simp]:
  "ssh_access (touch f s) = ssh_access s" "q \<noteq> f \<Longrightarrow> disk (touch f s) q = disk s q" 
  "disk (touch f s) f = Some (case disk s f of None \<Rightarrow> [] | Some c \<Rightarrow> c)" "cmds (touch f s) = cmds s" "button_push (touch f s) = button_push s"
  by (simp_all add: touch_def)

lemma led_frame [simp]:
  "button_push (setLedMode m s) = button_push s" "cmds (setLedMode m s) = cmds s"
  "q \<noteq> LED_MODE_FILE \<Longrightarrow> disk (setLedMode m s) q = disk s q" "ssh_access (setLedMode m s) = ssh_access s"
  by (simp_all add: setLedMode_def)

lemma run_cmd_frame [simp]:
  "button_push (run_cmd c s) = button_push s" "cmds (run_cmd c s) = cmds s @ [c]" "disk (run_cmd c s) = disk s"
  "ssh_access (run_cmd c s) = ssh_access s"
  by (simp_all add: run_cmd_def)

lemma play_frame [simp]: "button_push (play pr v s) = button_push s" "disk (play pr v s) = disk s"
  by (simp_all add: play_def)

lemma sound_frame [simp]:
  "button_push (reboot_sound p pr s) = button_push s" "disk (reboot_sound p pr s) = disk s"
  "button_push (factory_sound p s) = button_push s" "disk (factory_sound p s) = disk s"
  by (cases p; simp add: reboot_sound_def factory_sound_def Let_def)+

lemma alarm_held_frame:
  "button_push (alarmHandler p pr HELD s) = button_push s + 1"
  "q \<noteq> LED_MODE_FILE \<Longrightarrow> disk (alarmHandler p pr HELD s) q = disk s q"
  by (simp_all add: alarmHandler_def button_held_def alarm_held_def Let_def)

lemma held_run:
  "button_push ((alarmHandler p pr HELD ^^ n) s) = button_push s + n"
  "q \<noteq> LED_MODE_FILE \<Longrightarrow> disk ((alarmHandler p pr HELD ^^ n) s) q = disk s q"
  by (induction n) (simp_all add: alarm_held_frame)

lemma released_action:
  assumes "0 < button_push s"
  shows "last (cmds (alarmHandler p pr RELEASED s)) = hold_action p (button_push s)"
  using assms by (simp add: alarmHandler_def button_held_def alarm_released_def hold_action_def Let_def)

lemma released_mark:
  "disk (alarmHandler p pr RELEASED s) AGENT_SOFT_RESET \<noteq> None \<longleftrightarrow>
    disk s AGENT_SOFT_RESET \<noteq> None \<or> 10 \<le> button_push s \<and> button_push s < 20"
  by (simp add: alarmHandler_def button_held_def alarm_released_def Let_def del: not_None_eq)

text \<open>C34: what the reset button does depends on how many seconds it was held. Up to nine: the hub restarts;
  ten to nineteen: it restarts and the agent finds the mark for a soft reset; twenty and more: it is set to
  factory defaults. A push of less than a second changes nothing but leaves the button ready again.\<close>

theorem reset_push_action:
  assumes "button_push s = 0" "s' = reset_push p pr n s"
  shows "(0 < n \<longrightarrow> last (cmds s') = hold_action p n) \<and>
    (disk s' AGENT_SOFT_RESET \<noteq> None \<longleftrightarrow> disk s AGENT_SOFT_RESET \<noteq> None \<or> 10 \<le> n \<and> n < 20) \<and>
    (n = 0 \<longrightarrow> s' = s\<lparr>sigalrm := True, alarm_set := False, button_edge := ''both''\<rparr>)"
proof -
  let ?s = "(alarmHandler p pr HELD ^^ n) (buttonHandler s)"
  have push: "button_push ?s = n" and disk: "disk ?s AGENT_SOFT_RESET = disk s AGENT_SOFT_RESET"
    using assms(1) held_run by (simp_all add: buttonHandler_def)
  have "0 < n \<longrightarrow> last (cmds s') = hold_action p n"
    using released_action [of ?s p pr] push by (simp add: assms(2) reset_push_def)
  moreover have "disk s' AGENT_SOFT_RESET \<noteq> None \<longleftrightarrow> disk s AGENT_SOFT_RESET \<noteq> None \<or> 10 \<le> n \<and> n < 20"
    using released_mark [of p pr ?s] push disk by (simp add: assms(2) reset_push_def)
  moreover have "n = 0 \<longrightarrow> s' = s\<lparr>sigalrm := True, alarm_set := False, button_edge := ''both''\<rparr>"
    using assms(1) by (simp add: assms(2) reset_push_def alarmHandler_def button_held_def alarm_released_def buttonHandler_def)
  ultimately show ?thesis
    by blast
qed

definition sample_probe :: probe where
  "sample_probe = \<lparr>popen_ok = True, first_line = (\<lambda>_. None), dev_ok = True, addr_ok = True, read_ok = True\<rparr>"

theorem reset_push_action_witness:
  "last (cmds (reset_push imxdimagic sample_probe 12 (init_globals Map.empty))) = ''hub_restart 5'' \<and>
    disk (reset_push imxdimagic sample_probe 12 (init_globals Map.empty)) AGENT_SOFT_RESET \<noteq> None"
  using reset_push_action [of "init_globals Map.empty" _ imxdimagic sample_probe 12]
  by (simp add: init_globals_def hold_action_def)

section \<open>Who gets SSH access\<close>

lemma key_matches_iff: "key_matches e fs files \<longleftrightarrow> (\<exists>f\<in>set files. verify_key e f = fs HUB_ID_FILE \<and> fs HUB_ID_FILE \<noteq> None)"
  by (induction files) (auto split: option.splits)

lemma agent_config_frame [simp]:
  "ssh_access (agent_config e s) = ssh_access s" "q \<noteq> AGENT_CFG_FILE \<Longrightarrow> disk (agent_config e s) q = disk s q"
  by (simp_all add: agent_config_def Let_def)

lemma ssh_first_frame [simp]:
  "q \<noteq> DEBUG_ENABLED_FILE \<Longrightarrow> disk (ssh_first s) q = disk s q"
  by (simp add: ssh_first_def)

text \<open>The marker for debug mode and the variable agree.\<close>

definition ssh_ok :: "init \<Rightarrow> bool" where
  "ssh_ok s \<longleftrightarrow> (ssh_access s = -1 \<and> disk s DEBUG_ENABLED_FILE = None) \<or>
    (ssh_access s = 0 \<and> disk s DEBUG_ENABLED_FILE = None) \<or> (ssh_access s = 1 \<and> disk s DEBUG_ENABLED_FILE \<noteq> None)"

lemma ssh_first_ok:
  assumes "ssh_ok s"
  shows "ssh_access (ssh_first s) = 0 \<and> disk (ssh_first s) DEBUG_ENABLED_FILE = None \<or>
    ssh_access (ssh_first s) = 1 \<and> disk (ssh_first s) DEBUG_ENABLED_FILE \<noteq> None"
  using assms by (auto simp: ssh_ok_def ssh_first_def)

lemma ssh_update_access:
  assumes "ssh_access s = 0 \<and> disk s DEBUG_ENABLED_FILE = None \<or> ssh_access s = 1 \<and> disk s DEBUG_ENABLED_FILE \<noteq> None"
  shows "ssh_access (ssh_update e cur s) = (if cur then 1 else 0) \<and> (disk (ssh_update e cur s) DEBUG_ENABLED_FILE \<noteq> None \<longleftrightarrow> cur)"
  using assms by (auto simp: ssh_update_def Let_def)

lemma hub_name_frame: "fs' HUB_ID_FILE = fs HUB_ID_FILE \<Longrightarrow> ssh_key_found e fs' = ssh_key_found e fs"
  by (simp add: ssh_key_found_def hub_name_def key_matches_iff)

lemma sshCheckAccess_result:
  assumes "ssh_ok s" "\<not> IRIS_isSSHKeyGen (disk s)"
  shows "ssh_access (sshCheckAccess e s) = (if ssh_key_found e (disk s) then 1 else 0) \<and>
    (disk (sshCheckAccess e s) DEBUG_ENABLED_FILE \<noteq> None \<longleftrightarrow> ssh_key_found e (disk s))"
proof -
  have key: "ssh_key_found e (disk (ssh_first s)) = ssh_key_found e (disk s)"
    by (rule hub_name_frame) simp
  have "ssh_access (agent_config e (ssh_first s)) = 0 \<and> disk (agent_config e (ssh_first s)) DEBUG_ENABLED_FILE = None \<or>
      ssh_access (agent_config e (ssh_first s)) = 1 \<and> disk (agent_config e (ssh_first s)) DEBUG_ENABLED_FILE \<noteq> None"
    using ssh_first_ok [OF assms(1)] by simp
  from ssh_update_access [OF this, of e "ssh_key_found e (disk s)"] show ?thesis
    using assms(2) by (simp add: sshCheckAccess_def Let_def IRIS_isReleaseImage_def key)
qed


definition sample_drive :: ssh_env where
  "sample_drive = \<lparr>found = (\<lambda>n. if n = ''LWA-1.dbg'' then [[1, 2]] else []),
     verify_key = (\<lambda>f. if f = [1, 2] then Some (str ''LWA-1'') else None), pids = [], hubID0 = []\<rparr>"

definition sample_ssh_state :: init where
  "sample_ssh_state = init_globals [HUB_ID_FILE \<mapsto> str ''LWA-1'', ''/data/config/dropbear/dropbear_rsa_host_key'' \<mapsto> []]"


section \<open>The power button\<close>

text \<open>The events of the button with their time: the reading, and whether the hub runs on battery.\<close>

fun power_events :: "probe \<Rightarrow> (int \<times> bool \<times> string) list \<Rightarrow> init \<Rightarrow> init \<times> pd_action list" where
  "power_events pr [] s = (s, [])"
| "power_events pr ((now, battery, buf) # es) s =
    (case pwrDownButtonHandler pr now buf (s\<lparr>disk := (disk s)(BTRY_ON_FILE := (if battery then Some [] else None))\<rparr>) of
       (s, []) \<Rightarrow> power_events pr es s
     | (s, acts) \<Rightarrow> (s, acts))"

lemma power_hold:
  assumes "0 < t" "dev_ok pr" "addr_ok pr"
  shows "snd (power_events pr [(t, True, HELD), (t', True, RELEASED)] s) \<noteq> [] \<longleftrightarrow> t' - t \<ge> 10"
  using assms by (simp add: pwrDownButtonHandler_def button_held_def exists_file_def IRIS_powerDownHub_def)

text \<open>A push whose end was not seen on battery still counts later.\<close>

lemma stale_press:
  assumes "0 < t" "t + 10 \<le> t'" "dev_ok pr" "addr_ok pr"
  shows "snd (power_events pr [(t, True, HELD), (t + 1, False, RELEASED), (t', True, RELEASED)] s) \<noteq> []"
  using assms by (simp add: pwrDownButtonHandler_def button_held_def exists_file_def IRIS_powerDownHub_def)

section \<open>Radio firmware\<close>

text \<open>After a failed attempt the file exists, so that the agent can start, and differs from the image, so that
  the next start tries again.\<close>

lemma radio_retry:
  assumes "disk s ROOT_ZIGBEE = Some img" "img \<noteq> []" "disk s DATA_ZIGBEE \<noteq> Some img"
  shows "disk (checkForRadioFirmwareUpdates False w cp s) DATA_ZIGBEE = Some []"
    "cmds (checkForRadioFirmwareUpdates ok w cp (checkForRadioFirmwareUpdates False w cp s)) =
      cmds s @ [''zigbee_flash -w '' @ ROOT_ZIGBEE, ''zigbee_flash -w '' @ ROOT_ZIGBEE]"
  using assms by (simp_all add: checkForRadioFirmwareUpdates_def touch_def Let_def)

section \<open>LED modes of errors\<close>

lemma ledThread_error:
  assumes "disk s LED_MODE_FILE = Some (str m)" "m \<noteq> []" "length m < 127" "cstr (str m) = str m" "chop_newline (str m) = str m"
    "led_is_error (str m)"
  shows "ledThread_event p s = (if led_needs_restart (str m) then run_cmd ''hub_restart now'' (show_mode p (str m) s)
    else show_mode p (last_led_mode s) (show_mode p (str m) s))"
  using assms by (simp add: ledThread_event_def str_def show_mode_def run_cmd_def)

end
