(* ===== verification/Spec2Isabelle.thy ===== *)
theory Spec2Isabelle
  imports BleProg Update Ring Battery WifiProv Init
begin

text \<open>
  A verification library for the hub operating system in \<^verbatim>\<open>src/meta-iris/recipes-core\<close>: the programs that
  build, fetch, validate and install firmware, the update of the Bluetooth radio, the provisioning
  of the network over Bluetooth, the init, LED and battery daemons, and the libraries they share. Paths below
  are relative to that directory.

  \<^bold>\<open>The program and the theories.\<close> A release is an archive that \<^verbatim>\<open>build_image\<close> signs and encrypts. On the hub
  \<^verbatim>\<open>update\<close> (or the daemon \<^verbatim>\<open>auto_updated\<close>) fetches it, \<^verbatim>\<open>validate_image\<close> checks and decrypts it, and \<^verbatim>\<open>fwinstall\<close>
  writes it to the slot that does not run, raises its boot index and updates the radios, the Bluetooth
  radio through \<^verbatim>\<open>ble_prog\<close>. Programs talk to each other through files and commands; the init
  daemon watches the LED mode file and calls the LED program of the platform for each change.

    \<^item> \<open>Prelude\<close>: words, byte buffers, counting loops and the lemmas the components share; the locale
      \<open>simulation\<close> lifts a refinement of single steps to runs.
    \<^item> \<open>Aes\<close> (\<^verbatim>\<open>iris-lib/files/aes.c\<close>): key expansion, block cipher and its inverse, ECB, CBC and CTR. Lemmas:
      the inverse rounds, the key schedule against its recurrence, CBC round trip over a locale of block
      ciphers, CTR against a key stream.
    \<^item> \<open>Base64\<close> and \<open>BleProg\<close> (\<^verbatim>\<open>ble-utils/files/base64.c\<close>, \<^verbatim>\<open>ble_mcuboot_prog.c\<close>, \<^verbatim>\<open>ble_prog.c\<close>): codec, CRC,
      framing, requests, upload and reset. The serial port is a record of what was sent and a list of
      events to come. Lemmas: round trip and bounds of the codec, the CRC as a polynomial remainder with
      its error detection, that a successful upload sent the whole image and that an answering device
      gets it.
    \<^item> \<open>IrisLib\<close> (\<^verbatim>\<open>iris-lib/files/irislib.c\<close>): the support library over a file system that maps paths to bytes.
    \<^item> \<open>Image\<close> (\<^verbatim>\<open>iris-utils/files/build_image.c\<close>, \<^verbatim>\<open>validate_image.c\<close>): header layout, build and validation;
      \<^verbatim>\<open>openssl\<close> and \<^verbatim>\<open>sha256sum\<close> are the record \<open>tools\<close> with the laws \<open>tools_ok\<close>.
    \<^item> \<open>FwInstall\<close> (\<^verbatim>\<open>iris-utils/files/fwinstall.c\<close>): every stage of the installer as a function that continues
      or exits; the locale \<open>install_stage\<close> gives which files a stage may write and is interpreted for each.
      Devices may corrupt what is written. Lemmas: slot choice, frame, verification, completion.
    \<^item> \<open>Update\<close> (\<^verbatim>\<open>iris-utils/files/update.c\<close>, \<^verbatim>\<open>auto_updated.c\<close>): both update programs as compositions of the
      models of \<^verbatim>\<open>validate_image\<close> and \<^verbatim>\<open>fwinstall\<close>; the locale \<open>image_check\<close> is what they rely on.
    \<^item> \<open>Leds\<close> and \<open>Ring\<close> (\<^verbatim>\<open>iris-utils/files/ledctrl.c\<close>, \<^verbatim>\<open>ringctrl.c\<close>, \<^verbatim>\<open>ledRing.c\<close>): mode tables, selection, and
      the animations over a list of clock readings.
    \<^item> \<open>Battery\<close> (\<^verbatim>\<open>iris-utils/files/batteryd.c\<close>, \<^verbatim>\<open>batterydv3.c\<close>): a pass of each daemon; the locale
      \<open>power_monitor\<close> is the contract of both.
    \<^item> \<open>WifiScan\<close> (\<^verbatim>\<open>iris-utils/files/wifi_scan.c\<close>): the lines of \<^verbatim>\<open>iwlist\<close> to a list in JSON; what a reader of
      the list gets back.
    \<^item> \<open>WifiProv\<close> (\<^verbatim>\<open>ble-utils/files/wifi_prov.c\<close>): the values a client writes and reads over Bluetooth. Lemmas:
      the configuration arrives as the client meant it, no buffer is overrun, and the callback that pages
      through the scan file refines a pager over the list of networks (an interpretation of \<open>simulation\<close>).
    \<^item> \<open>Init\<close> (\<^verbatim>\<open>iris-utils/files/irisinitd.c\<close>): each handler of the init daemon as a function of its state and
      of what it reads. Lemmas: the actions of the buttons, who gets SSH access, the retry of the radio firmware.
    \<^item> this theory: what a failed installation makes the init daemon do, from the exit codes and LED modes of
      \<open>FwInstall\<close> and the LED thread of \<open>Init\<close>.

  \<^bold>\<open>Conventions.\<close> C strings are byte lists without their terminating zero. Fixed-size integers are words
  where the width matters, else \<open>nat\<close> or \<open>int\<close>. Exit codes and error returns are values; contents of
  uninitialized memory are arguments. Loops over buffers recurse over the number of blocks or over the
  rest of the data, loops that wait for a device over the list of its events, and animations over the
  readings of the clock, so that every function is total.

  \<^bold>\<open>Not modelled.\<close> Logging, delays (except where a result depends on them), file modes and owners; what a
  recorded shell command does, unless the text of a theory says so. Of the init daemon the two threads that
  provision the network: their loop is driven by the exit codes and output of network tools at each turn.
  The programs around these parts, which supervise processes or drive a device: \<^verbatim>\<open>iris-agent\<close>, \<^verbatim>\<open>iris-4g\<close> with the AT
  parser of \<^verbatim>\<open>iris-lib\<close>, \<^verbatim>\<open>iris-nfc\<close>, and in \<^verbatim>\<open>iris-utils\<close> \<^verbatim>\<open>hub_restart\<close>, \<^verbatim>\<open>factory_default\<close>, \<^verbatim>\<open>update_key\<close>,
  \<^verbatim>\<open>update_cert\<close>, \<^verbatim>\<open>play_tones\<close>, \<^verbatim>\<open>dwatcher\<close>, \<^verbatim>\<open>daemon\<close> and \<^verbatim>\<open>emmcparm\<close>. Third-party code: the D-Bus helper
  library in \<^verbatim>\<open>bluez-dbus\<close>, the Java headers, the Yocto layers and the trees under \<^verbatim>\<open>src/radios\<close>.
\<close>

section \<open>From a failed installation to the LEDs and a restart\<close>

text \<open>The LED mode that goes with each exit code of the installer from \<open>INSTALL_UNPACK_ERR\<close> on.\<close>

definition err_mode :: "nat \<Rightarrow> string" where
  "err_mode code =
    (if code \<le> 14 then ''upgrade-unpack-err''
     else if code = 15 then ''upgrade-zwave-err'' else if code = 16 then ''upgrade-zigbee-err'' else if code = 17 then ''upgrade-bte-err''
     else if code = 21 then ''upgrade-bootloader-err'' else if code = 22 then ''upgrade-kernel-err'' else ''upgrade-rootfs-err'')"

definition shows_error :: "nat \<times> fwstate + 'a \<Rightarrow> bool" where
  "shows_error r \<longleftrightarrow> (case r of Inl (code, s) \<Rightarrow>
    code \<in> {12, 13, 14, 15, 16, 17, 21, 22, 23} \<and> files s LED_MODE_FILE = Some (str (err_mode code)) | Inr _ \<Rightarrow> True)"

lemma shows_Inr [simp]: "shows_error (Inr x)"
  by (simp add: shows_error_def)

lemma shows_led_exit:
  assumes "writable e LED_MODE_FILE" "m = err_mode code" "code \<in> {12, 13, 14, 15, 16, 17, 21, 22, 23}"
  shows "shows_error (led_exit e m code s)"
  using assms by (simp add: shows_error_def led_exit_def cleanup_exit_def set_led_def IRIS_setLedMode_def rm_update_def)

lemma shows_andthen: "shows_error r \<Longrightarrow> (\<And>s. shows_error (f s)) \<Longrightarrow> shows_error (andthen r f)"
  by (cases r) (auto simp: andthen_def shows_error_def)

lemma shows_install_file:
  assumes "writable e LED_MODE_FILE" "m = err_mode code" "code \<in> {12, 13, 14, 15, 16, 17, 21, 22, 23}"
  shows "shows_error (install_file e vfy src dst m code s)"
  using shows_led_exit [OF assms] by (auto simp: install_file_def Let_def split: prod.splits)

lemma shows_uboot: "writable e LED_MODE_FILE \<Longrightarrow> shows_error (fw_uboot e vfy s)"
  by (auto simp: fw_uboot_def install_uboot_flash_def Let_def err_mode_def
      intro!: shows_andthen shows_install_file shows_led_exit split: platform.splits option.splits)

lemma shows_kernel:
  assumes "writable e LED_MODE_FILE"
  shows "shows_error (fw_kernel e vfy sl s)" "shows_error (fw_dtb e vfy sl s)"
  using assms by (auto simp: fw_kernel_def fw_dtb_def Let_def err_mode_def intro!: shows_install_file)

lemma shows_rootfs: "writable e LED_MODE_FILE \<Longrightarrow> shows_error (fw_rootfs e vfy sl s)"
  by (auto simp: fw_rootfs_def Let_def err_mode_def intro!: shows_led_exit split: option.splits prod.splits)

lemma shows_radio:
  assumes "writable e LED_MODE_FILE" "led @ ''-err'' = err_mode code" "code \<in> {15, 16, 17}"
  shows "shows_error (install_radio e firmware led pre prog code kill s)"
  using assms shows_led_exit [OF assms(1,2)]
  by (auto simp: install_radio_def Let_def led_exit_def cleanup_exit_def shows_error_def)

lemma shows_radios: "writable e LED_MODE_FILE \<Longrightarrow> shows_error (fw_radios e a s)"
proof -
  assume led: "writable e LED_MODE_FILE"
  have *: "shows_error (fw_zwave e k s)" "shows_error (fw_zigbee e k s)" "shows_error (fw_ble e k s)" for k s
    unfolding fw_zwave_def fw_zigbee_def fw_ble_def by (rule shows_radio [OF led]; simp add: err_mode_def)+
  have seq: "shows_error r \<Longrightarrow> (\<And>k s. shows_error (f k s)) \<Longrightarrow> shows_error (case r of Inl x \<Rightarrow> Inl x | Inr (k, s) \<Rightarrow> f k s)"
    for r :: "nat \<times> fwstate + bool \<times> fwstate" and f :: "bool \<Rightarrow> fwstate \<Rightarrow> fwresult"
    by (cases r) (auto simp: shows_error_def)
  show ?thesis
    unfolding fw_radios_def by (simp add: * seq)
qed

lemma shows_unpack:
  assumes "writable e LED_MODE_FILE" "files s INSTALL_LOCK_FILE = None"
  shows "shows_error (fw_unpack e path s)"
  using assms by (auto simp: fw_unpack_def Let_def shows_error_def err_mode_def set_led_def IRIS_setLedMode_def rm_update_def
      split: option.splits)

lemma shows_mount: "writable e LED_MODE_FILE \<Longrightarrow> shows_error (fw_mount e s)"
  by (simp add: fw_mount_def shows_led_exit err_mode_def)

text \<open>The last stage sets no mode when it cannot write the boot index.\<close>

lemma shows_wrapup:
  assumes "writable e (bootdir sl @ ''/bootindex'')"
  shows "shows_error (fw_wrapup e sl s)"
  using assms by (simp add: fw_wrapup_def Let_def)

lemma wrapup_sets_no_mode:
  assumes "\<not> writable e (bootdir sl @ ''/bootindex'')"
  shows "\<exists>s'. fw_wrapup e sl s = Inl (INSTALL_KERNEL_ERR, s') \<and> files s' LED_MODE_FILE = files s LED_MODE_FILE"
  using assms by (simp add: fw_wrapup_def Let_def cleanup_exit_def rm_update_def)

lemma shows_install:
  assumes "writable e LED_MODE_FILE" "writable e (bootdir sl @ ''/bootindex'')"
  shows "shows_error (fw_install e a sl s)"
  unfolding fw_install_def
  by (intro shows_andthen shows_uboot shows_kernel shows_rootfs shows_radios shows_wrapup assms)

lemma shows_main:
  assumes "writable e LED_MODE_FILE" "files s INSTALL_LOCK_FILE = None"
    "writable e ''/tmp/kernel1/bootindex''" "writable e ''/tmp/kernel2/bootindex''"
    "fwinstall_main e opts filearg s = (code, s')" "12 \<le> code"
  shows "code \<in> {12, 13, 14, 15, 16, 17, 21, 22, 23}" "files s' LED_MODE_FILE = Some (str (err_mode code))"
proof -
  have idx: "writable e (bootdir (select_slot e fs) @ ''/bootindex'')" for fs
    using assms(3,4) by (auto simp: select_slot_def choose_slot_def split: prod.splits)
  have seq: "shows_error (andthen (fw_unpack e path s) (\<lambda>s. andthen (fw_mount e s) (\<lambda>s. fw_install e a (select_slot e (files s)) s)))" for path a
    by (intro shows_andthen shows_unpack shows_mount shows_install idx assms)
  have arg: "fw_options opts a = Inl c \<Longrightarrow> c < 12" for a c
    by (induction opts a rule: fw_options.induct) auto
  obtain path a where "andthen (fw_unpack e path s) (\<lambda>s. andthen (fw_mount e s) (\<lambda>s. fw_install e a (select_slot e (files s)) s)) = Inl (code, s')"
    using assms(5,6) arg unfolding fwinstall_main_def by (auto split: sum.splits option.splits dest: arg)
  then show "code \<in> {12, 13, 14, 15, 16, 17, 21, 22, 23}" "files s' LED_MODE_FILE = Some (str (err_mode code))"
    using seq [of path a] by (simp_all add: shows_error_def)
qed

lemma err_mode_shown:
  assumes "code \<in> {12, 13, 14, 15, 16, 17, 21, 22, 23}"
  shows "err_mode code \<noteq> []" "length (err_mode code) < 127" "cstr (str (err_mode code)) = str (err_mode code)"
    "chop_newline (str (err_mode code)) = str (err_mode code)" "led_is_error (str (err_mode code))"
    "led_needs_restart (str (err_mode code)) \<longleftrightarrow> 20 \<le> code"
proof -
  define P where "P = (\<lambda>code. err_mode code \<noteq> [] \<and> length (err_mode code) < 127 \<and> cstr (str (err_mode code)) = str (err_mode code) \<and>
    chop_newline (str (err_mode code)) = str (err_mode code) \<and> led_is_error (str (err_mode code)) \<and>
    (led_needs_restart (str (err_mode code)) \<longleftrightarrow> 20 \<le> code))"
  have "list_all P [12, 13, 14, 15, 16, 17, 21, 22, 23]"
    unfolding P_def by code_simp
  then have "P code"
    using assms by auto
  then show "err_mode code \<noteq> []" "length (err_mode code) < 127" "cstr (str (err_mode code)) = str (err_mode code)"
    "chop_newline (str (err_mode code)) = str (err_mode code)" "led_is_error (str (err_mode code))"
    "led_needs_restart (str (err_mode code)) \<longleftrightarrow> 20 \<le> code"
    unfolding P_def by simp_all
qed


text \<open>An installer whose archive does not unpack, and one that finds no device for the root file system.\<close>

definition no_archive :: fwenv where
  "no_archive = \<lparr>plat = imxdimagic, untar = (\<lambda>_. None), sums_ok = (\<lambda>_. True), mounts = (\<lambda>_. True), cmdline = None,
     link1 = [], link2 = [], writable = (\<lambda>_. True), copy = (\<lambda>_ d. (int (length d), d)), dev_write = (\<lambda>_ b. (length b, b)),
     flash = Some, radio_ok = (\<lambda>_. True), model_buf = []\<rparr>"

definition no_device :: fwenv where
  "no_device = no_archive\<lparr>untar := (\<lambda>_. Some [(''update/core-image-minimal-iris-imxdimagic.squashfs'', [1, 2, 3])])\<rparr>"

definition sample_fw :: fwstate where
  "sample_fw = \<lparr>files = [''/tmp/fw.tar'' \<mapsto> [0]], commands = []\<rparr>"


end
